theory Spec2Isabelle
  imports Complex_Main
begin

section \<open>Data model of \<open>GameScene.tsx\<close>\<close>

text \<open>
  The simulation state is the object held in \<open>gameStateRef\<close>; the per-frame function is
  \<open>gameLoop\<close>. JavaScript numbers that only ever hold integers (lives, score, hit points,
  frame counters) are \<open>int\<close>; coordinates, velocities and multipliers are \<open>real\<close>
  (rounding of IEEE doubles is not modelled). The decorative particle arrays
  (\<open>particles\<close>, \<open>bossExplosionParticles\<close>), canvas drawing and sound cues never feed back
  into the simulation and are left out.
\<close>

record level =
  level_id :: int
  rows :: int
  columns :: int
  maxBrickHits :: int
  ballSpeed :: real

record paddle =
  paddle_x :: real
  paddle_y :: real
  paddle_width :: real
  paddle_height :: real
  paddle_speed :: real

record ball =
  ball_x :: real
  ball_y :: real
  ball_dx :: real
  ball_dy :: real
  ball_radius :: real

text \<open>
  \<open>originalX\<close> and \<open>originalY\<close> are the properties that \<open>updateBrickMovement\<close> attaches to a
  brick on first use; \<open>None\<close> is JavaScript's \<open>undefined\<close>.
\<close>

record brick =
  brick_x :: real
  brick_y :: real
  brick_width :: real
  brick_height :: real
  hits :: int
  maxHits :: int
  brick_color :: string
  originalX :: "real option"
  originalY :: "real option"

datatype powerup_type =
  PERM_DAMAGE | TEMP_DAMAGE | DEBUFF_DAMAGE | PADDLE_SHRINK | PADDLE_GROW
  | EXTRA_LIFE | SHIELD | FAST_BALL | SECOND_BALL | DOUBLE_POINTS

text \<open>
  The type tag of a power-up is \<open>None\<close> when the index computed from \<open>Math.random()\<close> falls
  outside the table of types (an \<open>undefined\<close> array read).
\<close>

record powerup =
  powerup_x :: real
  powerup_y :: real
  powerup_type :: "powerup_type option"
  powerup_speed :: real

record boss =
  boss_x :: real
  boss_y :: real
  health :: int
  maxHealth :: int
  shape :: string
  moveTimer :: int
  directionX :: real
  directionY :: real

record fireball =
  fireball_x :: real
  fireball_y :: real
  fireball_dx :: real
  fireball_dy :: real
  fireball_color :: string

record small_boss =
  sb_x :: real
  sb_y :: real
  direction :: real
  sb_speed :: real
  active :: bool
  spawned :: bool

record keys =
  left :: bool
  right :: bool

record game_state =
  paddle :: paddle
  balls :: "ball list"
  bricks :: "brick list"
  powerups :: "powerup list"
  boss :: "boss option"
  bossActive :: bool
  bossDestructionTimer :: int
  smallBoss :: "small_boss option"
  fireballs :: "fireball list"
  keys :: keys
  mouseX :: real
  score :: int
  lives :: int
  isRunning :: bool
  isPaused :: bool
  waitingForLaunch :: bool
  isCrossed :: bool
  damageBonus :: int
  tempDamage :: int
  tempDamageTimer :: int
  debuffDamage :: int
  debuffDamageTimer :: int
  paddleSizeMultiplier :: real
  paddleSizeTimer :: int
  ballSpeedMultiplier :: real
  ballSpeedTimer :: int
  timeSpeedMultiplier :: real
  timeElapsed :: int
  shieldActive :: bool
  shieldTimer :: int
  doublePointsActive :: bool
  doublePointsTimer :: int
  ballColor :: string
  paddleColor :: string
  brickVerticalOffset :: real
  lastDownTime :: real

text \<open>
  What a frame lets the outside world see: every call of the \<open>onGameOver\<close> callback with its
  two arguments, and (as a marker for the proofs) every call of \<open>spawnSmallBoss\<close>.
\<close>

datatype event = OnGameOver int bool | SpawnSmallBoss

text \<open>
  The two sources of values that the frame does not compute from the state:
  \<open>random k\<close> is the result of the \<open>k\<close>-th call of \<open>Math.random()\<close> within the frame
  (counted from 0), \<open>now\<close> is the reading of \<open>Date.now()\<close>.
\<close>

record env =
  random :: "nat \<Rightarrow> real"
  now :: real

text \<open>Internal resolution of the canvas (\<open>canvas.width\<close>, \<open>canvas.height\<close>).\<close>

definition canvas_width :: real where
  "canvas_width = 800"

definition canvas_height :: real where
  "canvas_height = 1200"

section \<open>Power-up effects\<close>

definition fps :: int where
  "fps = 60"

text \<open>
  \<open>applyPowerupEffect\<close>. The result \<open>None\<close> is the \<open>TypeError\<close> that JavaScript raises in the
  \<open>SECOND_BALL\<close> case when \<open>state.balls[0]\<close> is \<open>undefined\<close> and its \<open>dx\<close> is read. A power-up
  whose type is \<open>undefined\<close> matches no case of the \<open>switch\<close>.
\<close>

fun applyPowerupEffect :: "level \<Rightarrow> game_state \<Rightarrow> powerup_type option \<Rightarrow> game_state option" where
  "applyPowerupEffect lv s None = Some s"
| "applyPowerupEffect lv s (Some PERM_DAMAGE) =
     Some (s\<lparr>damageBonus := damageBonus s + 1, ballColor := ''#fe0131''\<rparr>)"
| "applyPowerupEffect lv s (Some TEMP_DAMAGE) =
     (let s1 = (if damageBonus s > 0
                then s\<lparr>damageBonus := 0, ballColor := ''#00d4ff''\<rparr> else s)
      in Some (s1\<lparr>tempDamage := 1, tempDamageTimer := 20 * fps, ballColor := ''#fe3b01''\<rparr>))"
| "applyPowerupEffect lv s (Some PADDLE_SHRINK) =
     Some (s\<lparr>paddleSizeMultiplier := 0.8, paddleSizeTimer := 10 * fps,
             paddleColor := ''#019afe''\<rparr>)"
| "applyPowerupEffect lv s (Some PADDLE_GROW) =
     Some (s\<lparr>paddleSizeMultiplier := 1.3, paddleSizeTimer := 20 * fps,
             paddleColor := ''#01fe65''\<rparr>)"
| "applyPowerupEffect lv s (Some EXTRA_LIFE) =
     Some (if lives s < 3 then s\<lparr>lives := lives s + 1\<rparr> else s)"
| "applyPowerupEffect lv s (Some SHIELD) =
     Some (s\<lparr>shieldActive := True, shieldTimer := 20 * fps\<rparr>)"
| "applyPowerupEffect lv s (Some FAST_BALL) =
     Some (s\<lparr>ballSpeedMultiplier := 1.5, ballSpeedTimer := 10 * fps\<rparr>)"
| "applyPowerupEffect lv s (Some SECOND_BALL) =
     (if length (balls s) < 2 then
        (case balls s of
           [] \<Rightarrow> None
         | firstBall # _ \<Rightarrow>
             if ball_dx firstBall = 0 \<and> ball_dy firstBall = 0 then
               Some (s\<lparr>balls := balls s @
                 [\<lparr>ball_x = paddle_x (paddle s) + paddle_width (paddle s) / 2,
                   ball_y = paddle_y (paddle s) - 10 - 2,
                   ball_dx = 0, ball_dy = 0, ball_radius = 15\<rparr>]\<rparr>)
             else
               Some (s\<lparr>balls := balls s @
                 [\<lparr>ball_x = paddle_x (paddle s) + paddle_width (paddle s) / 2,
                   ball_y = paddle_y (paddle s) - 10 - 2,
                   ball_dx = 0, ball_dy = - ballSpeed lv, ball_radius = 15\<rparr>]\<rparr>))
      else Some s)"
| "applyPowerupEffect lv s (Some DEBUFF_DAMAGE) =
     Some (s\<lparr>debuffDamage := 1, debuffDamageTimer := 15 * fps, ballColor := ''#fe019a''\<rparr>)"
| "applyPowerupEffect lv s (Some DOUBLE_POINTS) =
     Some (s\<lparr>doublePointsActive := True, doublePointsTimer := 15 * fps\<rparr>)"

section \<open>The frame: input and motion\<close>

text \<open>Keyboard and pointer control of the paddle (the start of \<open>gameLoop\<close>).\<close>

definition movePaddle :: "game_state \<Rightarrow> game_state" where
  "movePaddle s =
     (let effectiveWidth = paddle_width (paddle s) * paddleSizeMultiplier s;
          offset = (paddle_width (paddle s) - effectiveWidth) / 2;
          p1 = (if left (keys s) \<and> paddle_x (paddle s) > - offset
                then (paddle s)\<lparr>paddle_x := paddle_x (paddle s) - paddle_speed (paddle s)\<rparr>
                else paddle s);
          p2 = (if right (keys s) \<and> paddle_x p1 < canvas_width - effectiveWidth - offset
                then p1\<lparr>paddle_x := paddle_x p1 + paddle_speed p1\<rparr>
                else p1);
          p3 = (if mouseX s > 0
                then p2\<lparr>paddle_x := max (- offset)
                       (min (canvas_width - effectiveWidth - offset)
                            (mouseX s - effectiveWidth / 2))\<rparr>
                else p2)
      in s\<lparr>paddle := p3\<rparr>)"

definition pinBall :: "paddle \<Rightarrow> ball \<Rightarrow> ball" where
  "pinBall p b = b\<lparr>ball_x := paddle_x p + paddle_width p / 2,
                    ball_y := paddle_y p - ball_radius b - 2\<rparr>"

text \<open>
  While waiting for launch the first ball (and an idle second one) sits on the paddle.
  \<open>None\<close> is the \<open>TypeError\<close> of writing to \<open>state.balls[0]\<close> when the array is empty.
\<close>

definition holdBalls :: "game_state \<Rightarrow> game_state option" where
  "holdBalls s =
     (if waitingForLaunch s then
        (case balls s of
           [] \<Rightarrow> None
         | b0 # rest \<Rightarrow>
             (case rest of
                [] \<Rightarrow> Some (s\<lparr>balls := [pinBall (paddle s) b0]\<rparr>)
              | b1 # rest' \<Rightarrow>
                  if ball_dx b1 = 0 \<and> ball_dy b1 = 0
                  then Some (s\<lparr>balls := pinBall (paddle s) b0 # pinBall (paddle s) b1 # rest'\<rparr>)
                  else Some (s\<lparr>balls := pinBall (paddle s) b0 # rest\<rparr>)))
      else Some s)"

text \<open>The drawn paddle: \<open>paddleWidth\<close> and \<open>paddleX\<close> of \<open>gameLoop\<close>.\<close>

definition paddleWidth :: "game_state \<Rightarrow> real" where
  "paddleWidth s = paddle_width (paddle s) * paddleSizeMultiplier s"

definition paddleX :: "game_state \<Rightarrow> real" where
  "paddleX s = paddle_x (paddle s) + (paddle_width (paddle s) - paddleWidth s) / 2"

definition moveBall :: "game_state \<Rightarrow> ball \<Rightarrow> ball" where
  "moveBall s b =
     b\<lparr>ball_x := ball_x b + ball_dx b * ballSpeedMultiplier s * timeSpeedMultiplier s,
       ball_y := ball_y b + ball_dy b * ballSpeedMultiplier s * timeSpeedMultiplier s\<rparr>"

definition moveBalls :: "game_state \<Rightarrow> game_state" where
  "moveBalls s = (if \<not> waitingForLaunch s then s\<lparr>balls := map (moveBall s) (balls s)\<rparr> else s)"

text \<open>A projectile of constant speed aimed from \<open>(x, y)\<close> at the middle of the paddle.\<close>

definition aimedFireball :: "paddle \<Rightarrow> real \<Rightarrow> real \<Rightarrow> real \<Rightarrow> string \<Rightarrow> fireball" where
  "aimedFireball p x y speed col =
     (let dx = (paddle_x p + paddle_width p / 2) - x;
          dy = paddle_y p - y;
          distance = sqrt (dx * dx + dy * dy)
      in \<lparr>fireball_x = x, fireball_y = y,
          fireball_dx = (dx / distance) * speed, fireball_dy = (dy / distance) * speed,
          fireball_color = col\<rparr>)"

definition updateBossMovement :: "game_state \<Rightarrow> boss \<Rightarrow> game_state" where
  "updateBossMovement s b =
     (let b1 = b\<lparr>moveTimer := moveTimer b + 1\<rparr>;
          b2 = b1\<lparr>boss_x := boss_x b1 + directionX b1 * 2\<rparr>;
          b3 = (if boss_x b2 < 50 \<or> boss_x b2 > canvas_width - 50
                then b2\<lparr>directionX := directionX b2 * (- 1)\<rparr> else b2);
          b4 = b3\<lparr>boss_y := boss_y b3 + directionY b3 * 1\<rparr>;
          b5 = (if boss_y b4 < 50 \<or> boss_y b4 > 200
                then b4\<lparr>directionY := directionY b4 * (- 1)\<rparr> else b4);
          s1 = s\<lparr>boss := Some b5\<rparr>
      in if moveTimer b5 mod 120 = 0
         then s1\<lparr>fireballs := fireballs s1 @
                 [aimedFireball (paddle s1) (boss_x b5) (boss_y b5) 3 ''#ffaa00'']\<rparr>
         else s1)"

definition bossMovementPhase :: "game_state \<Rightarrow> game_state" where
  "bossMovementPhase s =
     (case boss s of
        Some b \<Rightarrow> if bossActive s then updateBossMovement s b else s
      | None \<Rightarrow> s)"

definition updateSmallBoss :: "small_boss \<Rightarrow> small_boss" where
  "updateSmallBoss sb =
     (let sb1 = sb\<lparr>sb_x := sb_x sb + direction sb * sb_speed sb\<rparr>
      in if direction sb1 = 1 \<and> sb_x sb1 > canvas_width + 50 then sb1\<lparr>active := False\<rparr>
         else if direction sb1 = - 1 \<and> sb_x sb1 < - 50 then sb1\<lparr>active := False\<rparr>
         else sb1)"

definition smallBossMovementPhase :: "game_state \<Rightarrow> game_state" where
  "smallBossMovementPhase s =
     (case smallBoss s of
        Some sb \<Rightarrow> if active sb then s\<lparr>smallBoss := Some (updateSmallBoss sb)\<rparr> else s
      | None \<Rightarrow> s)"

subsection \<open>Oscillating bricks on every fifth level\<close>

text \<open>
  \<open>!(brick as any).originalX\<close> holds for \<open>undefined\<close> and also for a stored \<open>0\<close>;
  in both cases the current coordinate is stored first.
\<close>

definition orElse :: "real option \<Rightarrow> real \<Rightarrow> real" where
  "orElse v cur = (case v of None \<Rightarrow> cur | Some a \<Rightarrow> if a = 0 then cur else a)"

definition oscillateBrick :: "bool \<Rightarrow> real \<Rightarrow> real \<Rightarrow> brick \<Rightarrow> brick" where
  "oscillateBrick waiting horizontalOffset verticalOffset b =
     (if hits b \<le> 0 then b
      else
        let ox = orElse (originalX b) (brick_x b);
            b1 = b\<lparr>originalX := Some ox, brick_x := ox + horizontalOffset\<rparr>
        in if \<not> waiting then
             let oy = orElse (originalY b1) (brick_y b1)
             in b1\<lparr>originalY := Some oy, brick_y := oy + verticalOffset * 0.1\<rparr>
           else b1)"

definition clampBrick :: "brick \<Rightarrow> brick" where
  "clampBrick b =
     (if hits b \<le> 0 then b
      else b\<lparr>brick_x := max 0 (min (canvas_width - brick_width b) (brick_x b))\<rparr>)"

definition brickTouchesPaddle :: "game_state \<Rightarrow> brick \<Rightarrow> bool" where
  "brickTouchesPaddle s b =
     (let pw = paddle_width (paddle s) * paddleSizeMultiplier s;
          px = paddle_x (paddle s) + (paddle_width (paddle s) - pw) / 2 + 5
      in hits b > 0 \<and>
         brick_x b + brick_width b > px \<and> brick_x b < px + pw \<and>
         brick_y b + brick_height b > paddle_y (paddle s) \<and>
         brick_y b < paddle_y (paddle s) + paddle_height (paddle s))"

text \<open>
  \<open>updateBrickMovement\<close>. Its \<open>return\<close> after \<open>onGameOver\<close> ends this function only:
  the caller \<open>gameLoop\<close> carries on with the rest of the frame.
\<close>

definition updateBrickMovement :: "env \<Rightarrow> game_state \<Rightarrow> game_state \<times> event list" where
  "updateBrickMovement e s =
     (let time = now e * 0.001;
          horizontalOffset = 35 * sin (time * 1.2);
          verticalOffset = brickVerticalOffset s;
          s1 = s\<lparr>bricks := map (clampBrick \<circ>
                   oscillateBrick (waitingForLaunch s) horizontalOffset verticalOffset) (bricks s)\<rparr>;
          s2 = (if \<not> waitingForLaunch s1
                then s1\<lparr>brickVerticalOffset := brickVerticalOffset s1 + 0.3\<rparr> else s1)
      in if list_ex (brickTouchesPaddle s2) (bricks s2)
         then (s2\<lparr>isRunning := False\<rparr>, [OnGameOver (score s2) False])
         else (s2, []))"

definition brickMovementPhase :: "level \<Rightarrow> env \<Rightarrow> game_state \<Rightarrow> game_state \<times> event list" where
  "brickMovementPhase lv e s =
     (if level_id lv mod 5 = 0 then updateBrickMovement e s else (s, []))"

subsection \<open>Fireballs\<close>

definition fireballHitsPaddle :: "game_state \<Rightarrow> real \<Rightarrow> real \<Rightarrow> fireball \<Rightarrow> bool" where
  "fireballHitsPaddle s pX pW f =
     (fireball_y f + 8 > paddle_y (paddle s) \<and> fireball_x f > pX \<and> fireball_x f < pX + pW \<and>
      fireball_y f < paddle_y (paddle s) + paddle_height (paddle s))"

definition moveFireball :: "fireball \<Rightarrow> fireball" where
  "moveFireball f = f\<lparr>fireball_x := fireball_x f + fireball_dx f,
                       fireball_y := fireball_y f + fireball_dy f\<rparr>"

text \<open>What a fireball reaching the paddle does to shield and lives.\<close>

definition fireballDamage :: "game_state \<Rightarrow> game_state" where
  "fireballDamage s =
     (if shieldActive s then s\<lparr>shieldActive := False\<rparr>
      else if bossDestructionTimer s = 0 then s\<lparr>lives := lives s - 1\<rparr>
      else s)"

text \<open>
  The loop of \<open>updateFireballs\<close> runs from the last array index down to 0. \<open>todo\<close> holds the
  fireballs not yet visited, last index first; \<open>kept\<close> holds the visited ones that stay,
  in array order. On the early \<open>return\<close> the unvisited fireballs stay in the array unmoved.
\<close>

fun fireballLoop ::
  "real \<Rightarrow> real \<Rightarrow> game_state \<Rightarrow> fireball list \<Rightarrow> fireball list \<Rightarrow> game_state \<times> event list" where
  "fireballLoop pX pW s [] kept = (s\<lparr>fireballs := kept\<rparr>, [])"
| "fireballLoop pX pW s (f # todo) kept =
     (let f1 = moveFireball f in
      if fireball_y f1 > canvas_height then fireballLoop pX pW s todo kept
      else if fireballHitsPaddle s pX pW f1 then
        (let s1 = fireballDamage s in
         if lives s1 \<le> 0
         then (s1\<lparr>isRunning := False, fireballs := rev todo @ kept\<rparr>,
               [OnGameOver (score s1) False])
         else fireballLoop pX pW s1 todo kept)
      else fireballLoop pX pW s todo (f1 # kept))"

definition updateFireballs :: "game_state \<Rightarrow> real \<Rightarrow> real \<Rightarrow> game_state \<times> event list" where
  "updateFireballs s pX pW = fireballLoop pX pW s (rev (fireballs s)) []"

text \<open>The mini-boss fires with probability 0.02 per frame (one call of \<open>Math.random()\<close>).\<close>

definition smallBossFirePhase :: "env \<Rightarrow> game_state \<Rightarrow> game_state \<times> nat" where
  "smallBossFirePhase e s =
     (case smallBoss s of
        Some sb \<Rightarrow>
          if active sb then
            (if random e 0 < 0.02
             then (s\<lparr>fireballs := fireballs s @
                      [aimedFireball (paddle s) (sb_x sb) (sb_y sb) 2.5 ''#ff0000'']\<rparr>, 1)
             else (s, 1))
          else (s, 0)
      | None \<Rightarrow> (s, 0))"

section \<open>The frame: collisions\<close>

subsection \<open>Walls, paddle and shield\<close>

definition wallCollision :: "ball \<Rightarrow> ball" where
  "wallCollision b =
     (let b1 = (if ball_x b + ball_radius b > canvas_width
                then b\<lparr>ball_dx := - \<bar>ball_dx b\<bar>\<rparr> else b);
          b2 = (if ball_x b1 - ball_radius b1 < 0
                then b1\<lparr>ball_dx := \<bar>ball_dx b1\<bar>\<rparr> else b1)
      in if ball_y b2 - ball_radius b2 < 0 then b2\<lparr>ball_dy := \<bar>ball_dy b2\<bar>\<rparr> else b2)"

definition paddleCollision :: "game_state \<Rightarrow> real \<Rightarrow> real \<Rightarrow> ball \<Rightarrow> ball" where
  "paddleCollision s pX pW b =
     (if ball_y b < paddle_y (paddle s) + paddle_height (paddle s) * 1.5 \<and>
         ball_y b + ball_radius b > paddle_y (paddle s) \<and>
         ball_x b > pX \<and> ball_x b < pX + pW \<and> ball_dy b > 0
      then
        let hitPos = (ball_x b - pX) / pW;
            angle = (hitPos - 0.5) * pi * 0.6;
            speed = sqrt ((ball_dx b)\<^sup>2 + (ball_dy b)\<^sup>2)
        in b\<lparr>ball_dx := speed * sin angle, ball_dy := - \<bar>speed * cos angle\<bar>\<rparr>
      else b)"

definition touchesShield :: "game_state \<Rightarrow> ball \<Rightarrow> bool" where
  "touchesShield s b =
     (shieldActive s \<and>
      ball_y b + ball_radius b > paddle_y (paddle s) + paddle_height (paddle s) + 5 \<and>
      ball_y b - ball_radius b < paddle_y (paddle s) + paddle_height (paddle s) + 12 \<and>
      ball_dy b > 0)"

definition shieldCollision :: "game_state \<Rightarrow> ball \<Rightarrow> ball" where
  "shieldCollision s b = (if touchesShield s b then b\<lparr>ball_dy := - ball_dy b\<rparr> else b)"

definition ballCollisions :: "game_state \<Rightarrow> real \<Rightarrow> real \<Rightarrow> game_state" where
  "ballCollisions s pX pW =
     s\<lparr>balls := map (\<lambda>b. shieldCollision s (paddleCollision s pX pW (wallCollision b)))
                    (balls s)\<rparr>"

subsection \<open>Losing balls\<close>

definition ballIsLost :: "game_state \<Rightarrow> ball \<Rightarrow> bool" where
  "ballIsLost s b = (\<not> waitingForLaunch s \<and> ball_y b - ball_radius b > canvas_height)"

definition freshBall :: "paddle \<Rightarrow> ball" where
  "freshBall p = \<lparr>ball_x = paddle_x p + paddle_width p / 2, ball_y = paddle_y p - 10 - 2,
                  ball_dx = 0, ball_dy = 0, ball_radius = 15\<rparr>"

text \<open>
  The balls below the field are removed; when none is left the shield or a life is used.
  The second component is the call of \<open>onGameOver\<close> after which \<open>gameLoop\<close> returns.
\<close>

definition ballLossPhase :: "game_state \<Rightarrow> game_state \<times> event option" where
  "ballLossPhase s =
     (let ballLost = list_ex (ballIsLost s) (balls s);
          s1 = s\<lparr>balls := filter (\<lambda>b. \<not> ballIsLost s b) (balls s)\<rparr>
      in if ballLost \<and> balls s1 = [] then
           (let s2 = (if shieldActive s1 then s1\<lparr>shieldActive := False\<rparr>
                      else s1\<lparr>lives := lives s1 - 1\<rparr>)
            in if lives s2 \<le> 0
               then (s2\<lparr>isRunning := False\<rparr>, Some (OnGameOver (score s2) False))
               else (s2\<lparr>balls := [freshBall (paddle s2)], waitingForLaunch := True\<rparr>, None))
         else (s1, None))"

subsection \<open>Boss, mini-boss and bricks\<close>

definition activeBricks :: "game_state \<Rightarrow> int" where
  "activeBricks s = int (length (filter (\<lambda>b. hits b > 0) (bricks s)))"

definition overlapsBrick :: "ball \<Rightarrow> brick \<Rightarrow> bool" where
  "overlapsBrick b k =
     (ball_x b + ball_radius b > brick_x k \<and>
      ball_x b - ball_radius b < brick_x k + brick_width k \<and>
      ball_y b + ball_radius b > brick_y k \<and>
      ball_y b - ball_radius b < brick_y k + brick_height k)"

text \<open>Indices of the live bricks the ball overlaps, in the order of the scan (last first).\<close>

definition collidingBricks :: "game_state \<Rightarrow> ball \<Rightarrow> nat list" where
  "collidingBricks s b =
     filter (\<lambda>i. hits (bricks s ! i) > 0 \<and> overlapsBrick b (bricks s ! i))
            (rev [0 ..< length (bricks s)])"

definition overlapsBox :: "ball \<Rightarrow> real \<Rightarrow> real \<Rightarrow> real \<Rightarrow> bool" where
  "overlapsBox b cx cy h =
     (ball_x b + ball_radius b > cx - h \<and> ball_x b - ball_radius b < cx + h \<and>
      ball_y b + ball_radius b > cy - h \<and> ball_y b - ball_radius b < cy + h)"

definition bossCollision :: "game_state \<Rightarrow> ball \<Rightarrow> game_state \<times> ball" where
  "bossCollision s b =
     (case boss s of
        Some bo \<Rightarrow>
          if bossActive s \<and> overlapsBox b (boss_x bo) (boss_y bo) (40 * 1.2) then
            (s\<lparr>boss := Some (bo\<lparr>health := health bo - (1 + damageBonus s + tempDamage s)\<rparr>)\<rparr>,
             b\<lparr>ball_dx := (if ball_x b < boss_x bo then - \<bar>ball_dx b\<bar> else \<bar>ball_dx b\<bar>),
               ball_dy := (if ball_y b < boss_y bo then - \<bar>ball_dy b\<bar> else \<bar>ball_dy b\<bar>)\<rparr>)
          else (s, b)
      | None \<Rightarrow> (s, b))"

definition smallBossCollision :: "game_state \<Rightarrow> ball \<Rightarrow> game_state" where
  "smallBossCollision s b =
     (case smallBoss s of
        Some sb \<Rightarrow>
          if active sb \<and> overlapsBox b (sb_x sb) (sb_y sb) 20
          then s\<lparr>score := score s + 100, smallBoss := Some (sb\<lparr>active := False\<rparr>)\<rparr>
          else s
      | None \<Rightarrow> s)"

text \<open>
  Bounce off one brick: the penetration depths \<open>overlapX\<close> (horizontal) and \<open>overlapY\<close>
  (vertical) are compared.
\<close>

definition overlapX :: "ball \<Rightarrow> brick \<Rightarrow> real" where
  "overlapX b k =
     (let ballLeft = ball_x b - ball_radius b;
          ballRight = ball_x b + ball_radius b;
          brickLeft = brick_x k;
          brickRight = brick_x k + brick_width k
      in min (ballRight - brickLeft) (brickRight - ballLeft))"

definition overlapY :: "ball \<Rightarrow> brick \<Rightarrow> real" where
  "overlapY b k =
     (let ballTop = ball_y b - ball_radius b;
          ballBottom = ball_y b + ball_radius b;
          brickTop = brick_y k;
          brickBottom = brick_y k + brick_height k
      in min (ballBottom - brickTop) (brickBottom - ballTop))"

definition bounceSingle :: "ball \<Rightarrow> brick \<Rightarrow> ball" where
  "bounceSingle b k =
     (if overlapX b k < overlapY b k then b\<lparr>ball_dx := - ball_dx b\<rparr>
      else b\<lparr>ball_dy := - ball_dy b\<rparr>)"

definition bounceMany :: "ball \<Rightarrow> brick \<Rightarrow> brick list \<Rightarrow> ball" where
  "bounceMany b k ks =
     (let minTop = fold min (map brick_y ks) (brick_y k);
          maxBottom = fold max (map (\<lambda>c. brick_y c + brick_height c) ks)
                               (brick_y k + brick_height k)
      in if ball_y b < minTop \<or> ball_y b > maxBottom then b\<lparr>ball_dy := - ball_dy b\<rparr>
         else b\<lparr>ball_dx := - ball_dx b\<rparr>)"

fun resolveBounce :: "ball \<Rightarrow> brick list \<Rightarrow> ball" where
  "resolveBounce b [] = b"
| "resolveBounce b [k] = bounceSingle b k"
| "resolveBounce b (k # ks) = bounceMany b k ks"

definition powerupTypes :: "powerup_type list" where
  "powerupTypes = [PERM_DAMAGE, TEMP_DAMAGE, DEBUFF_DAMAGE, PADDLE_SHRINK, PADDLE_GROW,
                   EXTRA_LIFE, SHIELD, FAST_BALL, SECOND_BALL, DOUBLE_POINTS]"

definition randomType :: "real \<Rightarrow> powerup_type option" where
  "randomType r =
     (let i = \<lfloor>r * real (length powerupTypes)\<rfloor>
      in if 0 \<le> i \<and> i < int (length powerupTypes) then Some (powerupTypes ! nat i) else None)"

text \<open>\<open>spawnSmallBoss\<close> draws three random numbers, starting with the \<open>n\<close>-th of the frame.\<close>

definition spawnSmallBoss :: "env \<Rightarrow> nat \<Rightarrow> game_state \<Rightarrow> game_state" where
  "spawnSmallBoss e n s =
     (let dir = (if random e n < 0.5 then 1 else - 1);
          startX = (if dir = 1 then - 30 else canvas_width + 30);
          y = canvas_height * 0.3 + random e (n + 1) * (canvas_height * 0.4)
      in s\<lparr>smallBoss := Some \<lparr>sb_x = startX, sb_y = y, direction = dir,
                               sb_speed = 2 + random e (n + 2) * 1,
                               active = True, spawned = True\<rparr>\<rparr>)"

definition smallBossSpawned :: "game_state \<Rightarrow> bool" where
  "smallBossSpawned s = (case smallBoss s of None \<Rightarrow> False | Some sb \<Rightarrow> spawned sb)"

definition smallBossActive :: "game_state \<Rightarrow> bool" where
  "smallBossActive s = (case smallBoss s of None \<Rightarrow> False | Some sb \<Rightarrow> active sb)"

text \<open>
  What happens when brick \<open>i\<close> has just been brought to \<open>hits \<le> 0\<close>: score, the check for the
  mini-boss (with \<open>ab\<close>, the number of live bricks counted before the collisions of this
  frame), and the roll for a power-up. The state carries the event log and the number of
  random draws used so far in this frame.
\<close>

definition brickDestroyed ::
  "env \<Rightarrow> int \<Rightarrow> nat \<Rightarrow> game_state \<times> event list \<times> nat \<Rightarrow> game_state \<times> event list \<times> nat" where
  "brickDestroyed e ab i = (\<lambda>(s, evs, n).
     let k = bricks s ! i;
         s1 = s\<lparr>score := score s + 10 * maxHits k * (if doublePointsActive s then 2 else 1)\<rparr>;
         totalBricks = int (length (bricks s1));
         bricksRemaining = ab;
         bricksBroken = totalBricks - bricksRemaining;
         (s2, evs2, n2) =
           (if real_of_int bricksBroken \<ge> real_of_int totalBricks * 0.7 \<and> \<not> smallBossSpawned s1
            then (spawnSmallBoss e n s1, evs @ [SpawnSmallBoss], n + 3)
            else (s1, evs, n))
     in if random e n2 < 0.25
        then (s2\<lparr>powerups := powerups s2 @
                 [\<lparr>powerup_x = brick_x k + brick_width k / 2,
                   powerup_y = brick_y k + brick_height k / 2,
                   powerup_type = randomType (random e (n2 + 1)),
                   powerup_speed = 2\<rparr>]\<rparr>, evs2, n2 + 2)
        else (s2, evs2, n2 + 1))"

text \<open>The damage loop over the colliding bricks of one ball.\<close>

fun damageBricks ::
  "env \<Rightarrow> int \<Rightarrow> game_state \<times> event list \<times> nat \<Rightarrow> nat list \<Rightarrow> game_state \<times> event list \<times> nat" where
  "damageBricks e ab acc [] = acc"
| "damageBricks e ab (s, evs, n) (i # is) =
     (if debuffDamage s > 0 then damageBricks e ab (s, evs, n) is
      else
        let k = bricks s ! i;
            k1 = k\<lparr>hits := hits k - (1 + damageBonus s + tempDamage s)\<rparr>;
            s1 = s\<lparr>bricks := (bricks s)[i := k1]\<rparr>
        in if hits k1 \<le> 0 then damageBricks e ab (brickDestroyed e ab i (s1, evs, n)) is
           else damageBricks e ab (s1, evs, n) is)"

text \<open>
  One iteration of \<open>for (const ball of state.balls)\<close>: the processed ball is returned
  beside the state.
\<close>

definition ballBrickStep ::
  "env \<Rightarrow> int \<Rightarrow> game_state \<times> event list \<times> nat \<Rightarrow> ball \<Rightarrow>
   (game_state \<times> event list \<times> nat) \<times> ball" where
  "ballBrickStep e ab = (\<lambda>(s, evs, n) b.
     let colliding = collidingBricks s b;
         (s1, b1) = bossCollision s b;
         s2 = smallBossCollision s1 b1;
         b2 = resolveBounce b1 (map (\<lambda>i. bricks s2 ! i) colliding)
     in (damageBricks e ab (s2, evs, n) colliding, b2))"

fun brickLoop ::
  "env \<Rightarrow> int \<Rightarrow> game_state \<times> event list \<times> nat \<Rightarrow> ball list \<Rightarrow> ball list \<Rightarrow>
   game_state \<times> event list \<times> nat" where
  "brickLoop e ab (s, evs, n) processed [] = (s\<lparr>balls := processed\<rparr>, evs, n)"
| "brickLoop e ab acc processed (b # todo) =
     (let (acc1, b1) = ballBrickStep e ab acc b in brickLoop e ab acc1 (processed @ [b1]) todo)"

definition brickPhase ::
  "env \<Rightarrow> int \<Rightarrow> nat \<Rightarrow> game_state \<Rightarrow> game_state \<times> event list \<times> nat" where
  "brickPhase e ab n s = brickLoop e ab (s, [], n) [] (balls s)"

section \<open>The frame: timers, power-ups, win and loss\<close>

text \<open>The six countdowns of the block \<open>// Update timers\<close>, in the order of the source.\<close>

definition tempDamageTick :: "game_state \<Rightarrow> game_state" where
  "tempDamageTick s =
     (if tempDamageTimer s > 0 then
        (let t = s\<lparr>tempDamageTimer := tempDamageTimer s - 1\<rparr>
         in if tempDamageTimer t \<le> 0 then t\<lparr>tempDamage := 0, ballColor := ''#00d4ff''\<rparr> else t)
      else s)"

definition debuffDamageTick :: "game_state \<Rightarrow> game_state" where
  "debuffDamageTick s =
     (if debuffDamageTimer s > 0 then
        (let t = s\<lparr>debuffDamageTimer := debuffDamageTimer s - 1\<rparr>
         in if debuffDamageTimer t \<le> 0 then t\<lparr>debuffDamage := 0, ballColor := ''#00d4ff''\<rparr>
            else t)
      else s)"

definition paddleSizeTick :: "game_state \<Rightarrow> game_state" where
  "paddleSizeTick s =
     (if paddleSizeTimer s > 0 then
        (let t = s\<lparr>paddleSizeTimer := paddleSizeTimer s - 1\<rparr>
         in if paddleSizeTimer t \<le> 0
            then t\<lparr>paddleSizeMultiplier := 1, paddleColor := ''#00d4ff''\<rparr> else t)
      else s)"

definition ballSpeedTick :: "game_state \<Rightarrow> game_state" where
  "ballSpeedTick s =
     (if ballSpeedTimer s > 0 then
        (let t = s\<lparr>ballSpeedTimer := ballSpeedTimer s - 1\<rparr>
         in if ballSpeedTimer t \<le> 0 then t\<lparr>ballSpeedMultiplier := 1\<rparr> else t)
      else s)"

definition shieldTick :: "game_state \<Rightarrow> game_state" where
  "shieldTick s =
     (if shieldTimer s > 0 then
        (let t = s\<lparr>shieldTimer := shieldTimer s - 1\<rparr>
         in if shieldTimer t \<le> 0 then t\<lparr>shieldActive := False\<rparr> else t)
      else s)"

definition doublePointsTick :: "game_state \<Rightarrow> game_state" where
  "doublePointsTick s =
     (if doublePointsTimer s > 0 then
        (let t = s\<lparr>doublePointsTimer := doublePointsTimer s - 1\<rparr>
         in if doublePointsTimer t \<le> 0 then t\<lparr>doublePointsActive := False\<rparr> else t)
      else s)"

definition updateTimers :: "game_state \<Rightarrow> game_state" where
  "updateTimers s =
     doublePointsTick (shieldTick (ballSpeedTick (paddleSizeTick
       (debuffDamageTick (tempDamageTick s)))))"

definition updateTimeSpeed :: "game_state \<Rightarrow> game_state" where
  "updateTimeSpeed s =
     (let s1 = s\<lparr>timeElapsed := timeElapsed s + 1\<rparr>
      in if timeElapsed s1 mod (10 * 60) = 0 \<and> timeSpeedMultiplier s1 < 1.5
         then s1\<lparr>timeSpeedMultiplier := timeSpeedMultiplier s1 + 0.05\<rparr>
         else s1)"

definition powerupHitsPaddle :: "game_state \<Rightarrow> real \<Rightarrow> real \<Rightarrow> powerup \<Rightarrow> bool" where
  "powerupHitsPaddle s pX pW p =
     (powerup_y p + 15 > paddle_y (paddle s) \<and> powerup_x p > pX \<and> powerup_x p < pX + pW \<and>
      powerup_y p < paddle_y (paddle s) + paddle_height (paddle s))"

text \<open>
  The power-up loop runs from the last index down, like the fireball loop. The flag of the
  result is \<open>True\<close> when \<open>applyPowerupEffect\<close> raised: the power-up being collected is then
  still in the array, already moved.
\<close>

fun powerupLoop ::
  "level \<Rightarrow> real \<Rightarrow> real \<Rightarrow> game_state \<Rightarrow> powerup list \<Rightarrow> powerup list \<Rightarrow> game_state \<times> bool" where
  "powerupLoop lv pX pW s [] kept = (s\<lparr>powerups := kept\<rparr>, False)"
| "powerupLoop lv pX pW s (p # todo) kept =
     (let p1 = p\<lparr>powerup_y := powerup_y p + powerup_speed p\<rparr> in
      if powerup_y p1 > canvas_height then powerupLoop lv pX pW s todo kept
      else if powerupHitsPaddle s pX pW p1 then
        (case applyPowerupEffect lv s (powerup_type p1) of
           None \<Rightarrow> (s\<lparr>powerups := rev todo @ p1 # kept\<rparr>, True)
         | Some s1 \<Rightarrow> powerupLoop lv pX pW s1 todo kept)
      else powerupLoop lv pX pW s todo (p1 # kept))"

definition powerupPhase :: "level \<Rightarrow> real \<Rightarrow> real \<Rightarrow> game_state \<Rightarrow> game_state \<times> bool" where
  "powerupPhase lv pX pW s = powerupLoop lv pX pW s (rev (powerups s)) []"

definition bossShapes :: "string list" where
  "bossShapes = [''ant'', ''spider'', ''bee'', ''beetle'', ''butterfly'', ''aphid'']"

text \<open>
  JavaScript's \<open>%\<close> takes the sign of its left operand; an index outside the table reads
  \<open>undefined\<close>, for which the model keeps the empty string.
\<close>

definition bossShape :: "int \<Rightarrow> string" where
  "bossShape lid =
     (let q = (lid - 1) div 5;
          shapeIndex = (if q \<ge> 0 then q mod 6 else - ((- q) mod 6))
      in if 0 \<le> shapeIndex \<and> shapeIndex < 6 then bossShapes ! nat shapeIndex else [])"

definition startBossBattle :: "level \<Rightarrow> game_state \<Rightarrow> game_state" where
  "startBossBattle lv s =
     s\<lparr>boss := Some \<lparr>boss_x = canvas_width / 2, boss_y = 100,
                      health = level_id lv, maxHealth = level_id lv,
                      shape = bossShape (level_id lv), moveTimer = 0,
                      directionX = 1, directionY = 1\<rparr>,
       bossActive := True\<rparr>"

text \<open>
  The win check, with \<open>ab\<close> the count of live bricks taken before this frame's brick
  collisions. The second component is the winning call of \<open>onGameOver\<close>, after which
  \<open>gameLoop\<close> returns.
\<close>

definition winCheck :: "level \<Rightarrow> int \<Rightarrow> game_state \<Rightarrow> game_state \<times> event option" where
  "winCheck lv ab s =
     (if ab = 0 then
        (if level_id lv mod 5 = 0 \<and> \<not> bossActive s then (startBossBattle lv s, None)
         else if \<not> bossActive s
         then (s\<lparr>isRunning := False\<rparr>, Some (OnGameOver (score s) True))
         else (s, None))
      else (s, None))"

definition bossDefeatCheck :: "game_state \<Rightarrow> game_state" where
  "bossDefeatCheck s =
     (case boss s of
        Some bo \<Rightarrow>
          if bossActive s \<and> health bo \<le> 0 \<and> bossDestructionTimer s = 0
          then s\<lparr>bossDestructionTimer := 120\<rparr> else s
      | None \<Rightarrow> s)"

definition destructionCountdown :: "game_state \<Rightarrow> game_state \<times> event option" where
  "destructionCountdown s =
     (if bossDestructionTimer s > 0 then
        (let s1 = s\<lparr>bossDestructionTimer := bossDestructionTimer s - 1\<rparr>
         in if bossDestructionTimer s1 \<le> 0
            then (s1\<lparr>isRunning := False\<rparr>, Some (OnGameOver (score s1) True))
            else (s1, None))
      else (s, None))"

section \<open>The frame as a whole\<close>

text \<open>
  How a call of \<open>gameLoop\<close> ends: it asked for the next animation frame, it returned without
  asking (the loop is over), or it raised a \<open>TypeError\<close> (the loop is over as well).
\<close>

datatype outcome = Rescheduled | Stopped | Threw

text \<open>The second half of the frame, from the count of live bricks on.\<close>

definition frameTail ::
  "level \<Rightarrow> env \<Rightarrow> real \<Rightarrow> real \<Rightarrow> nat \<Rightarrow> event list \<Rightarrow> game_state \<Rightarrow>
   game_state \<times> event list \<times> outcome" where
  "frameTail lv e pX pW n evs s =
     (let ab = activeBricks s;
          (s1, evs1, n1) = brickPhase e ab n s;
          s2 = updateTimeSpeed (updateTimers s1);
          (s3, threw) = powerupPhase lv pX pW s2
      in if threw then (s3, evs @ evs1, Threw)
         else
           (case winCheck lv ab s3 of
              (s4, Some ev) \<Rightarrow> (s4, evs @ evs1 @ [ev], Stopped)
            | (s4, None) \<Rightarrow>
                (case destructionCountdown (bossDefeatCheck s4) of
                   (s5, Some ev) \<Rightarrow> (s5, evs @ evs1 @ [ev], Stopped)
                 | (s5, None) \<Rightarrow> (s5, evs @ evs1, Rescheduled))))"

text \<open>
  The first half of the frame after the paddle has been placed: motion of balls, boss,
  mini-boss, bricks and fireballs, and the collisions of the balls with walls, paddle and
  shield. \<open>pX\<close> and \<open>pW\<close> are the constants \<open>paddleX\<close> and \<open>paddleWidth\<close> of \<open>gameLoop\<close>. The
  result carries the calls of \<open>onGameOver\<close> made by \<open>updateBrickMovement\<close> and
  \<open>updateFireballs\<close> (neither of them ends the frame) and the number of random draws.
\<close>

definition frameHead ::
  "level \<Rightarrow> env \<Rightarrow> real \<Rightarrow> real \<Rightarrow> game_state \<Rightarrow> game_state \<times> event list \<times> nat" where
  "frameHead lv e pX pW s =
     (let s1 = smallBossMovementPhase (bossMovementPhase (moveBalls s));
          (s2, evs2) = brickMovementPhase lv e s1;
          (s3, evs3) = updateFireballs s2 pX pW;
          (s4, n) = smallBossFirePhase e s3
      in (ballCollisions s4 pX pW, evs2 @ evs3, n))"

text \<open>
  \<open>gameLoop\<close>: one animation frame. A frame that finds the game not running, or paused,
  changes nothing.
\<close>

definition gameLoop :: "level \<Rightarrow> env \<Rightarrow> game_state \<Rightarrow> game_state \<times> event list \<times> outcome" where
  "gameLoop lv e s =
     (if \<not> isRunning s \<or> isPaused s then
        (s, [], if isRunning s \<and> isPaused s then Rescheduled else Stopped)
      else
        let s1 = movePaddle s in
        (case holdBalls s1 of
           None \<Rightarrow> (s1, [], Threw)
         | Some s2 \<Rightarrow>
             (case frameHead lv e (paddleX s2) (paddleWidth s2) s2 of
                (s3, evs, n) \<Rightarrow>
                  (case ballLossPhase s3 of
                     (s4, Some ev) \<Rightarrow> (s4, evs @ [ev], Stopped)
                   | (s4, None) \<Rightarrow>
                       frameTail lv e (paddleX s2) (paddleWidth s2) n evs s4))))"

section \<open>Start of a level, input handlers and runs\<close>

definition levelColors :: "int \<Rightarrow> string list" where
  "levelColors lid =
     (if lid \<le> 5 then [''#00d4ff'']
      else if lid \<le> 10 then [''#00d4ff'', ''#ff00ff'']
      else if lid \<le> 15 then [''#00d4ff'', ''#ff00ff'', ''#ffff00'']
      else if lid \<le> 20 then [''#00d4ff'', ''#ff00ff'', ''#ffff00'', ''#aa00ff'']
      else if lid \<le> 25 then [''#00ff88'']
      else if lid \<le> 30 then [''#00ff88'', ''#ffaa00'']
      else if lid \<le> 35 then [''#00ff88'', ''#ffaa00'', ''#aa00ff'']
      else if lid \<le> 40 then [''#00ff88'', ''#ffaa00'', ''#aa00ff'', ''#ff00ff'']
      else if lid \<le> 45 then [''#ffaa00'']
      else if lid \<le> 50 then [''#ffaa00'', ''#aa00ff'']
      else if lid \<le> 55 then [''#ffaa00'', ''#aa00ff'', ''#ffff00'']
      else if lid \<le> 60 then [''#ffaa00'', ''#aa00ff'', ''#ffff00'', ''#ff00ff'']
      else if lid \<le> 65 then [''#ff0066'']
      else if lid \<le> 70 then [''#ff0066'', ''#aa00ff'']
      else if lid \<le> 75 then [''#ff0066'', ''#aa00ff'', ''#00ff88'']
      else [''#ff0066'', ''#aa00ff'', ''#00ff88'', ''#ff00ff''])"

text \<open>
  The brick grid of a level. A level with no columns is outside the contract of the
  component (the division gives \<open>Infinity\<close> in JavaScript and 0 here).
\<close>

definition initBrick :: "level \<Rightarrow> nat \<Rightarrow> nat \<Rightarrow> brick" where
  "initBrick lv row col =
     (let brickWidth = (canvas_width - 70) / real_of_int (columns lv) - 10;
          brickHeight = 45;
          brickPadding = 10;
          brickOffsetTop = 50;
          brickOffsetLeft = 40;
          mh = min (int row div 2 + 1) (maxBrickHits lv);
          cols = levelColors (level_id lv)
      in \<lparr>brick_x = real col * (brickWidth + brickPadding) + brickOffsetLeft,
          brick_y = real row * (brickHeight + brickPadding) + brickOffsetTop,
          brick_width = brickWidth, brick_height = brickHeight,
          hits = mh, maxHits = mh,
          brick_color = cols ! ((row div 2) mod length cols),
          originalX = None, originalY = None\<rparr>)"

definition initBricks :: "level \<Rightarrow> brick list" where
  "initBricks lv =
     concat (map (\<lambda>row. map (initBrick lv row) [0 ..< nat (columns lv)])
                 [0 ..< nat ((3 * rows lv) div 2)])"

text \<open>
  The state when the first frame runs: the initial value of \<open>gameStateRef\<close> (the component
  is mounted anew for every attempt) after the set-up code of the effect.
\<close>

definition initState :: "level \<Rightarrow> game_state" where
  "initState lv =
     \<lparr>paddle = \<lparr>paddle_x = canvas_width / 2 - 168 / 2 + 5, paddle_y = canvas_height - 200,
                 paddle_width = 168, paddle_height = 25, paddle_speed = 8\<rparr>,
      balls = [\<lparr>ball_x = canvas_width / 2, ball_y = canvas_height - 60,
                ball_dx = 0, ball_dy = 0, ball_radius = 15\<rparr>],
      bricks = initBricks lv,
      powerups = [], boss = None, bossActive = False, bossDestructionTimer = 0,
      smallBoss = None, fireballs = [],
      keys = \<lparr>left = False, right = False\<rparr>, mouseX = 0,
      score = 0, lives = 3, isRunning = True, isPaused = False,
      waitingForLaunch = True, isCrossed = False,
      damageBonus = 0, tempDamage = 0, tempDamageTimer = 0,
      debuffDamage = 0, debuffDamageTimer = 0,
      paddleSizeMultiplier = 1, paddleSizeTimer = 0,
      ballSpeedMultiplier = 1, ballSpeedTimer = 0,
      timeSpeedMultiplier = 1, timeElapsed = 0,
      shieldActive = False, shieldTimer = 0,
      doublePointsActive = False, doublePointsTimer = 0,
      ballColor = ''#00d4ff'', paddleColor = ''#00d4ff'',
      brickVerticalOffset = 0, lastDownTime = 0\<rparr>"

definition launchBall :: "level \<Rightarrow> ball \<Rightarrow> ball" where
  "launchBall lv b = b\<lparr>ball_dx := 0, ball_dy := - ballSpeed lv\<rparr>"

text \<open>
  \<open>handleClick\<close>. With an empty ball array the first assignment raises and the handler
  leaves the state as it was.
\<close>

definition handleClick :: "level \<Rightarrow> game_state \<Rightarrow> game_state" where
  "handleClick lv s =
     (if waitingForLaunch s \<and> \<not> isPaused s then
        (case balls s of
           [] \<Rightarrow> s
         | b0 # rest \<Rightarrow>
             (case rest of
                [] \<Rightarrow> s\<lparr>balls := [launchBall lv b0], waitingForLaunch := False\<rparr>
              | b1 # rest' \<Rightarrow>
                  if ball_dx b1 = 0 \<and> ball_dy b1 = 0
                  then s\<lparr>balls := launchBall lv b0 # launchBall lv b1 # rest',
                         waitingForLaunch := False\<rparr>
                  else s\<lparr>balls := launchBall lv b0 # rest, waitingForLaunch := False\<rparr>))
      else s)"

definition handleKeyDown :: "string \<Rightarrow> game_state \<Rightarrow> game_state" where
  "handleKeyDown k s =
     (let s1 = (if k = ''Escape'' then s\<lparr>isPaused := \<not> isPaused s\<rparr> else s);
          s2 = (if k = ''ArrowLeft'' then s1\<lparr>keys := (keys s1)\<lparr>left := True\<rparr>\<rparr> else s1)
      in if k = ''ArrowRight'' then s2\<lparr>keys := (keys s2)\<lparr>right := True\<rparr>\<rparr> else s2)"

definition handleKeyUp :: "string \<Rightarrow> game_state \<Rightarrow> game_state" where
  "handleKeyUp k s =
     (let s1 = (if k = ''ArrowLeft'' then s\<lparr>keys := (keys s)\<lparr>left := False\<rparr>\<rparr> else s)
      in if k = ''ArrowRight'' then s1\<lparr>keys := (keys s1)\<lparr>right := False\<rparr>\<rparr> else s1)"

text \<open>
  What reaches the simulation from outside: the input handlers, and the animation frames
  with the random draws and clock reading each one sees. \<open>PointerMove\<close> carries the pointer
  position already scaled to canvas coordinates.
\<close>

datatype input =
  KeyDown string | KeyUp string | PointerMove real | Click | PauseToggle | Frame env

text \<open>
  The state of a run is the simulation state and whether a frame is scheduled. A frame
  runs only when one has been requested.
\<close>

fun step :: "level \<Rightarrow> input \<Rightarrow> game_state \<times> bool \<Rightarrow> (game_state \<times> bool) \<times> event list" where
  "step lv (KeyDown k) (s, sched) = ((handleKeyDown k s, sched), [])"
| "step lv (KeyUp k) (s, sched) = ((handleKeyUp k s, sched), [])"
| "step lv (PointerMove x) (s, sched) = ((s\<lparr>mouseX := x\<rparr>, sched), [])"
| "step lv Click (s, sched) = ((handleClick lv s, sched), [])"
| "step lv PauseToggle (s, sched) = ((s\<lparr>isPaused := \<not> isPaused s\<rparr>, sched), [])"
| "step lv (Frame e) (s, sched) =
     (if sched then (case gameLoop lv e s of (s1, evs, oc) \<Rightarrow> ((s1, oc = Rescheduled), evs))
      else ((s, sched), []))"

fun run :: "level \<Rightarrow> input list \<Rightarrow> game_state \<times> bool \<Rightarrow> (game_state \<times> bool) \<times> event list" where
  "run lv [] c = (c, [])"
| "run lv (i # is) c =
     (case step lv i c of (c1, evs1) \<Rightarrow>
        (case run lv is c1 of (c2, evs2) \<Rightarrow> (c2, evs1 @ evs2)))"

section \<open>Notions used in the statements\<close>

text \<open>
  A fireball reaches the paddle in this frame: after its move it is still on the screen
  and inside the paddle's box (the two tests of the loop body of \<open>updateFireballs\<close>).
\<close>

definition reachesPaddle :: "game_state \<Rightarrow> real \<Rightarrow> real \<Rightarrow> fireball \<Rightarrow> bool" where
  "reachesPaddle s pX pW f =
     (\<not> fireball_y (moveFireball f) > canvas_height \<and>
      fireballHitsPaddle s pX pW (moveFireball f))"

text \<open>
  The lives that \<open>k\<close> fireballs reaching the paddle cost: none during the destruction
  countdown, otherwise one each, less the one that an active shield takes.
\<close>

definition livesLost :: "game_state \<Rightarrow> nat \<Rightarrow> int" where
  "livesLost s k =
     (if bossDestructionTimer s = 0
      then (if shieldActive s \<and> k \<ge> 1 then int k - 1 else int k)
      else 0)"

text \<open>
  The test made by the mini-boss check: with \<open>ab\<close> live bricks counted, the number of
  broken bricks is at least 0.7 of the total.
\<close>

definition thresholdReached :: "game_state \<Rightarrow> int \<Rightarrow> bool" where
  "thresholdReached s ab =
     (real_of_int (int (length (bricks s)) - ab) \<ge> real_of_int (int (length (bricks s))) * 0.7)"

text \<open>
  How a stretch of a frame may change the bricks and the mini-boss bookkeeping, with \<open>ab\<close>
  the count of live bricks used by the check: no brick is added or revived, and
  \<open>spawnSmallBoss\<close> is logged once if nothing had spawned, the threshold test holds and a
  brick was destroyed in the stretch, and not at all otherwise.
\<close>

definition spawnStep :: "int \<Rightarrow> game_state \<Rightarrow> event list \<Rightarrow> game_state \<Rightarrow> event list \<Rightarrow> bool" where
  "spawnStep ab s evs s' evs' =
     (length (bricks s') = length (bricks s) \<and> activeBricks s' \<le> activeBricks s \<and>
      (if smallBossSpawned s then evs' = evs \<and> smallBossSpawned s'
       else if thresholdReached s ab \<and> activeBricks s' < activeBricks s
            then evs' = evs @ [SpawnSmallBoss] \<and> smallBossSpawned s'
            else evs' = evs \<and> \<not> smallBossSpawned s'))"

text \<open>
  The part of the state that decides win, boss start and mini-boss spawn: boss flag,
  destruction countdown, hit points of the bricks, and whether the mini-boss has spawned.
\<close>

definition progress :: "game_state \<Rightarrow> bool \<times> int \<times> int list \<times> bool" where
  "progress s = (bossActive s, bossDestructionTimer s, map hits (bricks s), smallBossSpawned s)"

definition bossFields :: "game_state \<Rightarrow> bool \<times> int" where
  "bossFields s = (bossActive s, bossDestructionTimer s)"

text \<open>An event list that holds only calls \<open>onGameOver(score, false)\<close>.\<close>

definition losses :: "event list \<Rightarrow> bool" where
  "losses evs = (\<forall>ev \<in> set evs. \<exists>sc. ev = OnGameOver sc False)"

text \<open>
  The condition under which a frame that reaches the win check reports a win: no live
  brick, no boss and a level without boss, or a destruction countdown that stands at 1.
\<close>

definition won :: "level \<Rightarrow> game_state \<Rightarrow> bool" where
  "won lv s = (activeBricks s = 0 \<and> \<not> bossActive s \<and> level_id lv mod 5 \<noteq> 0 \<or>
               bossDestructionTimer s = 1)"

text \<open>
  What a frame that reaches the win check does, from the state \<open>s\<close> before the frame to
  the state \<open>s'\<close> after it, with \<open>w\<close> the calls of \<open>onGameOver\<close> made from the win check on.
\<close>

definition frameEnd :: "level \<Rightarrow> game_state \<Rightarrow> game_state \<Rightarrow> event list \<Rightarrow> outcome \<Rightarrow> bool" where
  "frameEnd lv s s' w oc =
     (bossActive s' = (bossActive s \<or> activeBricks s = 0 \<and> level_id lv mod 5 = 0) \<and>
      (bossDestructionTimer s' \<noteq> 0 \<longrightarrow> bossDestructionTimer s \<noteq> 0 \<or> bossActive s') \<and>
      (activeBricks s = 0 \<and> level_id lv mod 5 = 0 \<and> \<not> bossActive s \<longrightarrow>
         (\<exists>b. boss s' = Some b \<and> health b = level_id lv \<and> maxHealth b = level_id lv)) \<and>
      (if won lv s then (\<exists>sc. w = [OnGameOver sc True]) \<and> oc = Stopped \<and> \<not> isRunning s'
       else w = [] \<and> oc = Rescheduled))"

text \<open>
  Consistency of the boss bookkeeping, which holds at the start of a level and is kept by
  every frame and every input handler: a boss is active only on a level with an id
  divisible by 5 and with no live brick, and the destruction countdown runs only while a
  boss is active.
\<close>

definition bossConsistent :: "level \<Rightarrow> game_state \<Rightarrow> bool" where
  "bossConsistent lv s =
     ((bossActive s \<longrightarrow> level_id lv mod 5 = 0 \<and> activeBricks s = 0) \<and>
      (bossDestructionTimer s \<noteq> 0 \<longrightarrow> bossActive s))"

definition winReported :: "event list \<Rightarrow> bool" where
  "winReported out = (\<exists>sc. OnGameOver sc True \<in> set out)"

text \<open>
  The frame was ended by the ball-loss path: \<open>gameLoop\<close> returned without asking for a new
  frame, and its last call of \<open>onGameOver\<close> reported a loss.
\<close>

definition endedByBallLoss :: "event list \<Rightarrow> outcome \<Rightarrow> bool" where
  "endedByBallLoss out oc = (oc = Stopped \<and> out \<noteq> [] \<and> (\<exists>sc. last out = OnGameOver sc False))"

text \<open>
  The frame from \<open>s\<close> to \<open>s'\<close> spawns the mini-boss: none has spawned, the bricks broken
  before the frame reach the threshold, and the frame destroys a brick.
\<close>

definition spawnsNow :: "game_state \<Rightarrow> game_state \<Rightarrow> bool" where
  "spawnsNow s s' =
     (\<not> smallBossSpawned s \<and> thresholdReached s (activeBricks s) \<and>
      activeBricks s' < activeBricks s)"

text \<open>
  Two inputs that agree in all that the player does: the same handler event, or two
  animation frames, whatever their random draws, with the same clock reading on a level
  with an id divisible by 5.
\<close>

fun sameInput :: "level \<Rightarrow> input \<Rightarrow> input \<Rightarrow> bool" where
  "sameInput lv (Frame e1) (Frame e2) = (level_id lv mod 5 = 0 \<longrightarrow> now e1 = now e2)"
| "sameInput lv i1 i2 = (i1 = i2)"

section \<open>Example data\<close>

text \<open>The first level of the roster (\<open>generateLevels\<close> with \<open>i = 1\<close>).\<close>

definition level1 :: level where
  "level1 = \<lparr>level_id = 1, rows = 3, columns = 6, maxBrickHits = 1, ballSpeed = 6.05\<rparr>"

text \<open>A ball that has entered the top left corner of a brick equally deep on both axes.\<close>

definition cornerBall :: ball where
  "cornerBall = \<lparr>ball_x = 100, ball_y = 100, ball_dx = 3, ball_dy = 4, ball_radius = 10\<rparr>"

definition cornerBrick :: brick where
  "cornerBrick = \<lparr>brick_x = 105, brick_y = 105, brick_width = 60, brick_height = 45,
                  hits = 1, maxHits = 1, brick_color = ''#00d4ff'',
                  originalX = None, originalY = None\<rparr>"

text \<open>Draws and clock for the examples: every random draw is 1/2, the clock reads 0.\<close>

definition env0 :: env where
  "env0 = \<lparr>random = (\<lambda>k. 1 / 2), now = 0\<rparr>"

text \<open>A launched game on level 1 with that ball and that brick alone.\<close>

definition cornerState :: game_state where
  "cornerState = (initState level1)\<lparr>bricks := [cornerBrick], balls := [cornerBall],
                                    waitingForLaunch := False\<rparr>"

text \<open>
  Late in an attempt at level 1: the ball is in play, one life is left, the mini-boss has
  crossed the screen and one of its fireballs is just above the paddle.
\<close>

definition hitFireball :: fireball where
  "hitFireball = \<lparr>fireball_x = 400, fireball_y = 995, fireball_dx = 0, fireball_dy = 3,
                   fireball_color = ''#ff0000''\<rparr>"

definition expiredSmallBoss :: small_boss where
  "expiredSmallBoss = \<lparr>sb_x = 852, sb_y = 500, direction = 1, sb_speed = 2.5,
                        active = False, spawned = True\<rparr>"

definition lateGame :: game_state where
  "lateGame = (initState level1)\<lparr>waitingForLaunch := False, lives := 1,
                smallBoss := Some expiredSmallBoss, fireballs := [hitFireball]\<rparr>"

definition destroyed :: "brick \<Rightarrow> brick" where
  "destroyed k = k\<lparr>hits := 0\<rparr>"

text \<open>... with every brick destroyed in the frame before, and the ball on its way down.\<close>

definition clearedState :: game_state where
  "clearedState = lateGame\<lparr>bricks := map destroyed (initBricks level1), score := 240,
      balls := [\<lparr>ball_x = 400, ball_y = 500, ball_dx = 0, ball_dy = - 5, ball_radius = 15\<rparr>]\<rparr>"

text \<open>... with twenty bricks destroyed, and the only ball already below the field.\<close>

definition lastLifeState :: game_state where
  "lastLifeState = lateGame\<lparr>bricks := map destroyed (take 20 (initBricks level1)) @
                                        drop 20 (initBricks level1),
      score := 200,
      balls := [\<lparr>ball_x = 400, ball_y = 1300, ball_dx = 0, ball_dy = 5, ball_radius = 15\<rparr>]\<rparr>"

text \<open>... with three lives and the shield up, and the only ball already below the field.\<close>

definition shieldState :: game_state where
  "shieldState = lateGame\<lparr>lives := 3, shieldActive := True, shieldTimer := 600,
      balls := [\<lparr>ball_x = 400, ball_y = 1300, ball_dx = 0, ball_dy = 5, ball_radius = 15\<rparr>]\<rparr>"

text \<open>A ball moving down through the shield line, 5 below the bottom of the paddle.\<close>

definition shieldBall :: ball where
  "shieldBall = \<lparr>ball_x = 100, ball_y = 1030, ball_dx = 2, ball_dy = 5, ball_radius = 15\<rparr>"

text \<open>The fifth level of the roster: the first one with a boss.\<close>

definition level5 :: level where
  "level5 = \<lparr>level_id = 5, rows = 4, columns = 7, maxBrickHits = 1, ballSpeed = 6.25\<rparr>"

text \<open>
  The boss of level 5 half way through its destruction countdown, with the ball next to
  it, one of its fireballs just above the paddle and the shield up.
\<close>

definition dyingBoss :: boss where
  "dyingBoss = \<lparr>boss_x = 400, boss_y = 100, health = 0, maxHealth = 5, shape = ''ant'',
                 moveTimer = 130, directionX = 1, directionY = 1\<rparr>"

definition bossFireball :: fireball where
  "bossFireball = \<lparr>fireball_x = 400, fireball_y = 995, fireball_dx = 0, fireball_dy = 3,
                    fireball_color = ''#ffaa00''\<rparr>"

definition countdownState :: game_state where
  "countdownState = (initState level5)\<lparr>bricks := map destroyed (initBricks level5),
      score := 420, waitingForLaunch := False,
      balls := [\<lparr>ball_x = 400, ball_y = 130, ball_dx = 0, ball_dy = - 5, ball_radius = 15\<rparr>],
      boss := Some dyingBoss, bossActive := True, bossDestructionTimer := 60,
      fireballs := [bossFireball], shieldActive := True, shieldTimer := 600\<rparr>"

text \<open>
  Level 1 with sixteen of its 24 bricks destroyed (all but the top row and the first two
  bricks of the second row); the ball comes up along the left wall and is one move away
  from the left side of the first brick of the top row.
\<close>

definition sideBall :: ball where
  "sideBall = \<lparr>ball_x = 26.37, ball_y = 64.84, ball_dx = 3.63, ball_dy = - 4.84,
                ball_radius = 15\<rparr>"

definition partlyCleared :: game_state where
  "partlyCleared = (initState level1)\<lparr>waitingForLaunch := False,
      bricks := take 8 (initBricks level1) @ map destroyed (drop 8 (initBricks level1)),
      score := 160, balls := [sideBall]\<rparr>"

text \<open>Draws under which a destroyed brick drops a power-up: every draw is 1/10.\<close>

definition envDrop :: env where
  "envDrop = \<lparr>random = (\<lambda>k. 1 / 10), now = 0\<rparr>"

text \<open>
  The ball of \<open>partlyCleared\<close> after its move, the state after the frame in which it
  destroys the first brick (with the power-ups \<open>ps\<close> then in flight), and the power-up that
  such a brick drops, at height \<open>y\<close>.
\<close>

definition sideBallMoved :: ball where
  "sideBallMoved = \<lparr>ball_x = 30, ball_y = 60, ball_dx = 363 / 100, ball_dy = - (121 / 25),
                     ball_radius = 15\<rparr>"

definition afterSideHit :: "powerup list \<Rightarrow> game_state" where
  "afterSideHit ps = partlyCleared\<lparr>
      balls := [sideBallMoved\<lparr>ball_dx := - (363 / 100)\<rparr>],
      bricks := (bricks partlyCleared)[0 := destroyed (initBrick level1 0 0)],
      score := 170, powerups := ps, timeElapsed := 1\<rparr>"

definition droppedPowerup :: "powerup_type option \<Rightarrow> real \<Rightarrow> powerup" where
  "droppedPowerup t y = \<lparr>powerup_x = 575 / 6, powerup_y = y, powerup_type = t, powerup_speed = 2\<rparr>"

text \<open>
  The same with one more brick destroyed before the frame (seventeen of 24), and the
  state after the frame, in which the mini-boss has spawned at the right edge.
\<close>

definition nearlyCleared :: game_state where
  "nearlyCleared = partlyCleared\<lparr>
      bricks := take 7 (initBricks level1) @ map destroyed (drop 7 (initBricks level1)),
      score := 170\<rparr>"

definition spawnedSmallBoss :: small_boss where
  "spawnedSmallBoss = \<lparr>sb_x = 830, sb_y = 600, direction = - 1, sb_speed = 2.5,
                         active = True, spawned = True\<rparr>"

definition afterSpawn :: game_state where
  "afterSpawn = nearlyCleared\<lparr>balls := [sideBallMoved\<lparr>ball_dx := - (363 / 100)\<rparr>],
      bricks := (bricks nearlyCleared)[0 := destroyed (initBrick level1 0 0)],
      score := 180, smallBoss := Some spawnedSmallBoss, timeElapsed := 1\<rparr>"

text \<open>
  The end of level 1: only the first brick is left and the same ball is about to hit it;
  then the state after that frame, and the state after the frame that follows.
\<close>

definition lastBrick :: game_state where
  "lastBrick = lateGame\<lparr>fireballs := [],
      bricks := initBrick level1 0 0 # map destroyed (drop 1 (initBricks level1)),
      score := 230, balls := [sideBall]\<rparr>"

definition allCleared :: game_state where
  "allCleared = lastBrick\<lparr>balls := [sideBallMoved\<lparr>ball_dx := - (363 / 100)\<rparr>],
      bricks := map destroyed (initBricks level1), score := 240, timeElapsed := 1\<rparr>"

definition wonState :: game_state where
  "wonState = allCleared\<lparr>
      balls := [\<lparr>ball_x = 26.37, ball_y = 55.16, ball_dx = - 3.63, ball_dy = - 4.84,
                 ball_radius = 15\<rparr>],
      timeElapsed := 2, isRunning := False\<rparr>"


text \<open>
  Level 1 right after the click that launches the ball, and two frames later, the pointer
  having moved to x = 100 in between.
\<close>

definition launched :: game_state where
  "launched = (initState level1)\<lparr>waitingForLaunch := False,
      balls := [\<lparr>ball_x = 400, ball_y = 1140, ball_dx = 0, ball_dy = - 6.05, ball_radius = 15\<rparr>]\<rparr>"

definition inFlight :: game_state where
  "inFlight = launched\<lparr>mouseX := 100,
      paddle := (paddle launched)\<lparr>paddle_x := 16\<rparr>,
      balls := [\<lparr>ball_x = 400, ball_y = 1127.9, ball_dx = 0, ball_dy = - 6.05, ball_radius = 15\<rparr>],
      timeElapsed := 2\<rparr>"

section \<open>Verified properties\<close>

subsection \<open>Power-up exclusivity\<close>

text \<open>
  Claim C10. Applying the TEMP_DAMAGE power-up when the permanent damage stack
  (\<open>damageBonus\<close>) is positive sets the stack to 0 in the same call, sets the temporary
  damage value to 1 and starts the countdown of 20 seconds (1200 frames at 60 frames per
  second).
\<close>

theorem temp_damage_cancels_permanent:
  assumes "damageBonus s > 0"
  shows "\<exists>s'. applyPowerupEffect lv s (Some TEMP_DAMAGE) = Some s' \<and>
           damageBonus s' = 0 \<and> tempDamage s' = 1 \<and> tempDamageTimer s' = 20 * 60"
  using assms by (simp add: fps_def)

theorem temp_damage_cancels_permanent_witness:
  "damageBonus ((initState level1)\<lparr>damageBonus := 2\<rparr>) > 0 \<and>
   (\<exists>s'. applyPowerupEffect level1 ((initState level1)\<lparr>damageBonus := 2\<rparr>) (Some TEMP_DAMAGE)
            = Some s' \<and>
          damageBonus s' = 0 \<and> tempDamage s' = 1 \<and> tempDamageTimer s' = 20 * 60)"
  using temp_damage_cancels_permanent [of "(initState level1)\<lparr>damageBonus := 2\<rparr>" level1]
  by simp

subsection \<open>Bounce off a single brick\<close>

lemma bossCollision_bricks [simp]: "bricks (fst (bossCollision s b)) = bricks s"
  by (simp add: bossCollision_def split: option.splits)

lemma bossCollision_position [simp]:
  "ball_x (snd (bossCollision s b)) = ball_x b"
  "ball_y (snd (bossCollision s b)) = ball_y b"
  "ball_radius (snd (bossCollision s b)) = ball_radius b"
  by (simp_all add: bossCollision_def split: option.splits)

lemma smallBossCollision_bricks [simp]: "bricks (smallBossCollision s b) = bricks s"
  by (simp add: smallBossCollision_def split: option.splits)

lemma overlap_position:
  "ball_x b' = ball_x b \<Longrightarrow> ball_y b' = ball_y b \<Longrightarrow> ball_radius b' = ball_radius b \<Longrightarrow>
   overlapX b' k = overlapX b k \<and> overlapY b' k = overlapY b k"
  by (simp add: overlapX_def overlapY_def)

text \<open>
  Claim C7, as the code has it. When a ball overlaps exactly one live brick (index \<open>i\<close>),
  the velocity left by the boss check (\<open>b1\<close>; it is the ball itself when no boss is hit)
  has \<open>dx\<close> inverted and \<open>dy\<close> unchanged if the horizontal penetration depth
  \<open>min(ballRight-brickLeft, brickRight-ballLeft)\<close> is strictly smaller than the vertical
  depth \<open>min(ballBottom-brickTop, brickBottom-ballTop)\<close>; otherwise, also when the two
  depths are equal, \<open>dy\<close> is inverted and \<open>dx\<close> is unchanged.
\<close>

theorem single_brick_bounce:
  assumes "collidingBricks s b = [i]"
  shows "snd (ballBrickStep e ab (s, evs, n) b) =
           (let b1 = snd (bossCollision s b); k = bricks s ! i
            in if overlapX b k < overlapY b k then b1\<lparr>ball_dx := - ball_dx b1\<rparr>
               else b1\<lparr>ball_dy := - ball_dy b1\<rparr>)"
proof -
  obtain s1 b1 where bc: "bossCollision s b = (s1, b1)" by (cases "bossCollision s b")
  have pos: "ball_x b1 = ball_x b" "ball_y b1 = ball_y b" "ball_radius b1 = ball_radius b"
    using bossCollision_position [of s b] bc by simp_all
  have br: "bricks (smallBossCollision s1 b1) = bricks s"
    using bossCollision_bricks [of s b] bc by simp
  have "snd (ballBrickStep e ab (s, evs, n) b) = bounceSingle b1 (bricks s ! i)"
    using assms bc br by (simp add: ballBrickStep_def Let_def)
  then show ?thesis
    using bc overlap_position [OF pos] by (simp add: bounceSingle_def Let_def)
qed

theorem single_brick_bounce_witness:
  "collidingBricks cornerState cornerBall = [0] \<and>
   snd (ballBrickStep env0 1 (cornerState, [], 0) cornerBall) = cornerBall\<lparr>ball_dy := - 4\<rparr>"
  using single_brick_bounce [of cornerState cornerBall 0 env0 1 "[]" 0]
  by (simp add: collidingBricks_def cornerState_def cornerBall_def cornerBrick_def
      overlapsBrick_def overlapX_def overlapY_def bossCollision_def initState_def)

text \<open>
  The claim as written fails when the two depths are equal: the vertical depth is then not
  the smaller one, so \<open>dx\<close> should be inverted, but the code inverts \<open>dy\<close> and leaves \<open>dx\<close>.
\<close>

theorem tie_inverts_dy_counterexample:
  "\<not> overlapY cornerBall cornerBrick < overlapX cornerBall cornerBrick \<and>
   collidingBricks cornerState cornerBall = [0] \<and>
   ball_dx (snd (ballBrickStep env0 1 (cornerState, [], 0) cornerBall)) = ball_dx cornerBall \<and>
   ball_dy (snd (ballBrickStep env0 1 (cornerState, [], 0) cornerBall)) = - ball_dy cornerBall \<and>
   ball_dx cornerBall \<noteq> 0 \<and> ball_dy cornerBall \<noteq> 0"
  by (simp add: ballBrickStep_def collidingBricks_def cornerState_def cornerBall_def cornerBrick_def
      overlapsBrick_def overlapX_def overlapY_def bossCollision_def smallBossCollision_def
      bounceSingle_def initState_def)

subsection \<open>The damage debuff\<close>

lemma damageBricks_debuff:
  "debuffDamage s > 0 \<Longrightarrow> damageBricks e ab (s, evs, n) is = (s, evs, n)"
  by (induction "is") simp_all

lemma bossCollision_fields [simp]:
  "debuffDamage (fst (bossCollision s b)) = debuffDamage s"
  "powerups (fst (bossCollision s b)) = powerups s"
  "score (fst (bossCollision s b)) = score s"
  "smallBoss (fst (bossCollision s b)) = smallBoss s"
  "smallBossSpawned (fst (bossCollision s b)) = smallBossSpawned s"
  "smallBossActive (fst (bossCollision s b)) = smallBossActive s"
  by (simp_all add: bossCollision_def smallBossSpawned_def smallBossActive_def
      split: option.splits)

lemma smallBossCollision_fields [simp]:
  "debuffDamage (smallBossCollision s b) = debuffDamage s"
  "powerups (smallBossCollision s b) = powerups s"
  "smallBossSpawned (smallBossCollision s b) = smallBossSpawned s"
  by (simp_all add: smallBossCollision_def smallBossSpawned_def split: option.splits)

lemma smallBossCollision_score:
  "(score (smallBossCollision s b) = score s \<and>
    smallBossActive (smallBossCollision s b) = smallBossActive s) \<or>
   (score (smallBossCollision s b) = score s + 100 \<and> smallBossActive s \<and>
    \<not> smallBossActive (smallBossCollision s b))"
  by (simp add: smallBossCollision_def smallBossActive_def split: option.splits)

lemma ballBrickStep_debuff:
  assumes "debuffDamage s > 0"
  shows "fst (ballBrickStep e ab (s, evs, n) b) =
           (smallBossCollision (fst (bossCollision s b)) (snd (bossCollision s b)), evs, n)"
  using assms by (simp add: ballBrickStep_def Let_def split_beta damageBricks_debuff)

lemma brickLoop_debuff:
  assumes "debuffDamage s > 0"
  shows "case brickLoop e ab (s, evs, n) processed todo of (s', evs', n') \<Rightarrow>
           bricks s' = bricks s \<and> powerups s' = powerups s \<and> evs' = evs \<and> n' = n \<and>
           debuffDamage s' = debuffDamage s \<and> smallBossSpawned s' = smallBossSpawned s \<and>
           ((score s' = score s \<and> smallBossActive s' = smallBossActive s) \<or>
            (score s' = score s + 100 \<and> smallBossActive s \<and> \<not> smallBossActive s'))"
  using assms
proof (induction todo arbitrary: s processed)
  case Nil
  then show ?case by (simp add: smallBossSpawned_def smallBossActive_def)
next
  case (Cons b todo)
  let ?s1 = "smallBossCollision (fst (bossCollision s b)) (snd (bossCollision s b))"
  obtain acc1 b1 where st: "ballBrickStep e ab (s, evs, n) b = (acc1, b1)"
    by (cases "ballBrickStep e ab (s, evs, n) b")
  have acc1: "acc1 = (?s1, evs, n)"
    using ballBrickStep_debuff [OF Cons.prems, of e ab evs n b] st by simp
  have d1: "debuffDamage ?s1 > 0" using Cons.prems by simp
  have sc: "(score ?s1 = score s \<and> smallBossActive ?s1 = smallBossActive s) \<or>
            (score ?s1 = score s + 100 \<and> smallBossActive s \<and> \<not> smallBossActive ?s1)"
    using smallBossCollision_score [of "fst (bossCollision s b)" "snd (bossCollision s b)"]
    by simp
  show ?case
    using Cons.IH [OF d1, of "processed @ [b1]"] sc
    by (auto simp: st acc1 split: prod.splits)
qed

text \<open>
  Claim C9. In a frame in which the debuff flag is active (\<open>debuffDamage > 0\<close>), the damage
  loop over the colliding bricks is the identity, however many bricks collide, and the
  whole brick-collision phase of the frame leaves every brick (so every \<open>hits\<close> field) and
  the power-up list unchanged, logs no mini-boss spawn, draws no random number, and
  changes the score at most by the mini-boss bonus of 100, which is not a brick
  consequence.
\<close>

theorem debuff_blocks_brick_damage:
  assumes "debuffDamage s > 0"
  shows "damageBricks e ab (s, evs, n) is = (s, evs, n) \<and>
         (case brickPhase e ab n s of (s', evs', n') \<Rightarrow>
            bricks s' = bricks s \<and> powerups s' = powerups s \<and> evs' = [] \<and> n' = n \<and>
            smallBossSpawned s' = smallBossSpawned s \<and>
            (score s' = score s \<or> score s' = score s + 100 \<and> smallBossActive s))"
  using brickLoop_debuff [OF assms, where e = e and ab = ab and evs = "[]" and n = n
      and processed = "[]" and todo = "balls s"]
    damageBricks_debuff [OF assms, of e ab evs n "is"]
  by (auto simp: brickPhase_def split: prod.splits)

theorem debuff_blocks_brick_damage_witness:
  "debuffDamage (cornerState\<lparr>debuffDamage := 1\<rparr>) > 0 \<and>
   collidingBricks (cornerState\<lparr>debuffDamage := 1\<rparr>) cornerBall = [0] \<and>
   damageBricks env0 1 (cornerState\<lparr>debuffDamage := 1\<rparr>, [], 0) [0]
     = (cornerState\<lparr>debuffDamage := 1\<rparr>, [], 0) \<and>
   bricks (fst (brickPhase env0 1 0 (cornerState\<lparr>debuffDamage := 1\<rparr>))) = [cornerBrick] \<and>
   fst (snd (brickPhase env0 1 0 (cornerState\<lparr>debuffDamage := 1\<rparr>))) = []"
  using debuff_blocks_brick_damage [of "cornerState\<lparr>debuffDamage := 1\<rparr>" env0 1 "[]" 0 "[0]"]
  by (auto simp: collidingBricks_def cornerState_def cornerBall_def cornerBrick_def
      overlapsBrick_def split: prod.splits)

subsection \<open>A loss reported from \<open>updateFireballs\<close> does not end the frame\<close>

lemma no_live_bricks:
  assumes "\<forall>k \<in> set (bricks s). hits k \<le> 0"
  shows "activeBricks s = 0" "collidingBricks s b = []"
proof -
  show "activeBricks s = 0"
    using assms by (simp add: activeBricks_def filter_empty_conv not_less)
  have "\<forall>i \<in> set (rev [0 ..< length (bricks s)]). \<not> hits (bricks s ! i) > 0"
    using assms by (simp add: not_less)
  then show "collidingBricks s b = []"
    by (simp add: collidingBricks_def filter_empty_conv)
qed

text \<open>
  Claim C1 fails on the code. In the frame below the game is running with one life left;
  a fireball reaches the paddle and \<open>updateFireballs\<close> calls \<open>onGameOver(240, false)\<close>. Its
  \<open>return\<close> leaves \<open>updateFireballs\<close> only, so \<open>gameLoop\<close> carries on with the same frame,
  finds no live brick and calls \<open>onGameOver(240, true)\<close>: the callback is invoked twice
  in one run, once as a loss and once as a win.
\<close>

theorem game_over_reported_twice:
  "isRunning clearedState \<and> lives clearedState = 1 \<and>
   gameLoop level1 env0 clearedState =
     (clearedState\<lparr>balls := [\<lparr>ball_x = 400, ball_y = 495, ball_dx = 0, ball_dy = - 5,
                                ball_radius = 15\<rparr>],
                   fireballs := [], lives := 0, isRunning := False, timeElapsed := 1\<rparr>,
      [OnGameOver 240 False, OnGameOver 240 True], Stopped)"
proof -
  let ?S = clearedState
  let ?b = "\<lparr>ball_x = 400, ball_y = 495, ball_dx = 0, ball_dy = - 5, ball_radius = 15\<rparr>"
  let ?S1 = "?S\<lparr>balls := [?b]\<rparr>"
  let ?S2 = "?S\<lparr>balls := [?b], fireballs := [], lives := 0, isRunning := False\<rparr>"
  let ?S3 = "?S\<lparr>balls := [?b], fireballs := [], lives := 0, isRunning := False,
                 timeElapsed := 1\<rparr>"
  note st = clearedState_def lateGame_def initState_def
  have run: "isRunning ?S" "\<not> isPaused ?S" "lives ?S = 1"
    by (simp_all add: st)
  have p1: "movePaddle ?S = ?S"
    by (simp add: movePaddle_def st Let_def)
  have p2: "holdBalls ?S = Some ?S"
    by (simp add: holdBalls_def st)
  have p3: "paddleWidth ?S = 168" "paddleX ?S = 321"
    by (simp_all add: paddleWidth_def paddleX_def st canvas_width_def)
  have p4: "smallBossMovementPhase (bossMovementPhase (moveBalls ?S)) = ?S1"
    by (simp add: moveBalls_def moveBall_def bossMovementPhase_def smallBossMovementPhase_def
        expiredSmallBoss_def st)
  have p5: "brickMovementPhase level1 env0 ?S1 = (?S1, [])"
    by (simp add: brickMovementPhase_def level1_def)
  have p6: "updateFireballs ?S1 321 168 = (?S2, [OnGameOver 240 False])"
    by (simp add: updateFireballs_def moveFireball_def fireballHitsPaddle_def fireballDamage_def
        hitFireball_def canvas_height_def canvas_width_def st Let_def)
  have p7: "smallBossFirePhase env0 ?S2 = (?S2, 0)"
    by (simp add: smallBossFirePhase_def expiredSmallBoss_def st)
  have p8: "ballCollisions ?S2 321 168 = ?S2"
    by (simp add: ballCollisions_def wallCollision_def paddleCollision_def shieldCollision_def
        touchesShield_def canvas_height_def canvas_width_def st Let_def)
  have p9: "ballLossPhase ?S2 = (?S2, None)"
    by (simp add: ballLossPhase_def ballIsLost_def canvas_height_def st Let_def)
  have dead: "\<forall>k \<in> set (bricks ?S2). hits k \<le> 0"
    by (simp add: st destroyed_def)
  have q1: "activeBricks ?S2 = 0"
    by (rule no_live_bricks [OF dead])
  have q2: "brickPhase env0 0 0 ?S2 = (?S2, [], 0)"
    using no_live_bricks(2) [OF dead, of ?b]
    by (simp add: brickPhase_def ballBrickStep_def bossCollision_def smallBossCollision_def
        expiredSmallBoss_def st)
  have q3: "updateTimeSpeed (updateTimers ?S2) = ?S3"
    by (simp add: updateTimers_def tempDamageTick_def debuffDamageTick_def paddleSizeTick_def
        ballSpeedTick_def shieldTick_def doublePointsTick_def updateTimeSpeed_def st Let_def)
  have q4: "powerupPhase level1 321 168 ?S3 = (?S3, False)"
    by (simp add: powerupPhase_def st)
  have q5: "winCheck level1 0 ?S3 = (?S3, Some (OnGameOver 240 True))"
    by (simp add: winCheck_def level1_def st)
  have ft: "frameTail level1 env0 321 168 0 [OnGameOver 240 False] ?S2 =
      (?S3, [OnGameOver 240 False, OnGameOver 240 True], Stopped)"
    by (simp add: frameTail_def q1 q2 q3 q4 q5 Let_def)
  show ?thesis
    by (simp add: gameLoop_def frameHead_def run p1 p2 p3 p4 p5 p6 p7 p8 p9 ft Let_def)
qed

text \<open>
  Read off that frame: the callback has been called twice, the second time reporting a
  win, and no life is left.
\<close>

theorem game_over_reported_twice_witness:
  "length (fst (snd (gameLoop level1 env0 clearedState))) = 2 \<and>
   winReported (fst (snd (gameLoop level1 env0 clearedState))) \<and>
   lives (fst (gameLoop level1 env0 clearedState)) = 0"
  using game_over_reported_twice by (simp add: winReported_def)

text \<open>
  Claim C8 fails on the code for the same reason. With one life left, a fireball reaches
  the paddle (lives become 0, \<open>onGameOver\<close> is called) and, later in the same frame, the
  only ball is found below the field: the ball-loss path decrements again and leaves
  \<open>lives = -1\<close>.
\<close>

theorem lives_negative_after_double_loss:
  "isRunning lastLifeState \<and> lives lastLifeState = 1 \<and>
   gameLoop level1 env0 lastLifeState =
     (lastLifeState\<lparr>balls := [], fireballs := [], lives := - 1, isRunning := False\<rparr>,
      [OnGameOver 200 False, OnGameOver 200 False], Stopped)"
proof -
  let ?S = lastLifeState
  let ?b = "\<lparr>ball_x = 400, ball_y = 1305, ball_dx = 0, ball_dy = 5, ball_radius = 15\<rparr>"
  let ?S1 = "?S\<lparr>balls := [?b]\<rparr>"
  let ?S2 = "?S\<lparr>balls := [?b], fireballs := [], lives := 0, isRunning := False\<rparr>"
  note st = lastLifeState_def lateGame_def initState_def
  have run: "isRunning ?S" "\<not> isPaused ?S" "lives ?S = 1"
    by (simp_all add: st)
  have p1: "movePaddle ?S = ?S"
    by (simp add: movePaddle_def st Let_def)
  have p2: "holdBalls ?S = Some ?S"
    by (simp add: holdBalls_def st)
  have p3: "paddleWidth ?S = 168" "paddleX ?S = 321"
    by (simp_all add: paddleWidth_def paddleX_def st canvas_width_def)
  have p4: "smallBossMovementPhase (bossMovementPhase (moveBalls ?S)) = ?S1"
    by (simp add: moveBalls_def moveBall_def bossMovementPhase_def smallBossMovementPhase_def
        expiredSmallBoss_def st)
  have p5: "brickMovementPhase level1 env0 ?S1 = (?S1, [])"
    by (simp add: brickMovementPhase_def level1_def)
  have p6: "updateFireballs ?S1 321 168 = (?S2, [OnGameOver 200 False])"
    by (simp add: updateFireballs_def moveFireball_def fireballHitsPaddle_def fireballDamage_def
        hitFireball_def canvas_height_def canvas_width_def st Let_def)
  have p7: "smallBossFirePhase env0 ?S2 = (?S2, 0)"
    by (simp add: smallBossFirePhase_def expiredSmallBoss_def st)
  have p8: "ballCollisions ?S2 321 168 = ?S2"
    by (simp add: ballCollisions_def wallCollision_def paddleCollision_def shieldCollision_def
        touchesShield_def canvas_height_def canvas_width_def st Let_def)
  have p9: "ballLossPhase ?S2 =
      (?S\<lparr>balls := [], fireballs := [], lives := - 1, isRunning := False\<rparr>,
       Some (OnGameOver 200 False))"
    by (simp add: ballLossPhase_def ballIsLost_def canvas_height_def st Let_def)
  show ?thesis
    by (simp add: gameLoop_def frameHead_def run p1 p2 p3 p4 p5 p6 p7 p8 p9 Let_def)
qed

text \<open>Read off that frame: two calls of the callback, and a negative number of lives.\<close>

theorem lives_negative_after_double_loss_witness:
  "length (fst (snd (gameLoop level1 env0 lastLifeState))) = 2 \<and>
   lives (fst (gameLoop level1 env0 lastLifeState)) < 0"
  using lives_negative_after_double_loss by simp

text \<open>
  What the code does keep of these two claims: a frame that finds the game stopped changes
  nothing and asks for no further frame, a frame that was not requested does not run, the
  lives start at 3, and \<open>EXTRA_LIFE\<close> adds a life only below 3.
\<close>

lemma stopped_frame_idle: "\<not> isRunning s \<Longrightarrow> gameLoop lv e s = (s, [], Stopped)"
  by (simp add: gameLoop_def)

lemma unscheduled_frame_idle: "step lv (Frame e) (s, False) = ((s, False), [])"
  by simp

lemma lives_start: "lives (initState lv) = 3"
  by (simp add: initState_def)

lemma extra_life_capped:
  "lives s \<ge> 3 \<Longrightarrow> applyPowerupEffect lv s (Some EXTRA_LIFE) = Some s"
  "lives s < 3 \<Longrightarrow> applyPowerupEffect lv s (Some EXTRA_LIFE) = Some (s\<lparr>lives := lives s + 1\<rparr>)"
  by simp_all

subsection \<open>Shield and grace window\<close>

lemma reachesPaddle_cong:
  "paddle s' = paddle s \<Longrightarrow> reachesPaddle s' pX pW = reachesPaddle s pX pW"
  by (rule ext) (simp add: reachesPaddle_def fireballHitsPaddle_def)

lemma reachesPaddle_update [simp]:
  "reachesPaddle (s\<lparr>shieldActive := v\<rparr>) pX pW = reachesPaddle s pX pW"
  "reachesPaddle (s\<lparr>lives := w\<rparr>) pX pW = reachesPaddle s pX pW"
  by (rule reachesPaddle_cong, simp)+

lemma fireballLoop_hit:
  "reachesPaddle s pX pW f \<Longrightarrow>
   fireballLoop pX pW s (f # todo) kept =
     (if lives (fireballDamage s) \<le> 0
      then ((fireballDamage s)\<lparr>isRunning := False, fireballs := rev todo @ kept\<rparr>,
            [OnGameOver (score (fireballDamage s)) False])
      else fireballLoop pX pW (fireballDamage s) todo kept)"
  by (simp add: reachesPaddle_def Let_def)

lemma fireballLoop_miss:
  "\<not> reachesPaddle s pX pW f \<Longrightarrow>
   fireballLoop pX pW s (f # todo) kept =
     fireballLoop pX pW s todo
       (if fireball_y (moveFireball f) > canvas_height then kept else moveFireball f # kept)"
  by (auto simp: reachesPaddle_def Let_def)

text \<open>
  The fireball loop when it does not end the game: a life is lost for every fireball that
  reaches the paddle, except for the first one if the shield is up, and except for all of
  them during the destruction countdown.
\<close>

lemma fireballLoop_lives:
  assumes "lives s > livesLost s (length (filter (reachesPaddle s pX pW) todo))"
  shows "lives (fst (fireballLoop pX pW s todo kept)) =
           lives s - livesLost s (length (filter (reachesPaddle s pX pW) todo)) \<and>
         shieldActive (fst (fireballLoop pX pW s todo kept)) =
           (shieldActive s \<and> filter (reachesPaddle s pX pW) todo = []) \<and>
         shieldTimer (fst (fireballLoop pX pW s todo kept)) = shieldTimer s \<and>
         snd (fireballLoop pX pW s todo kept) = []"
  using assms
proof (induction todo arbitrary: s kept)
  case Nil
  then show ?case by (simp add: livesLost_def)
next
  case (Cons f todo)
  show ?case
  proof (cases "reachesPaddle s pX pW f")
    case True
    let ?s1 = "fireballDamage s"
    have rp: "reachesPaddle ?s1 pX pW = reachesPaddle s pX pW"
      by (rule reachesPaddle_cong) (simp add: fireballDamage_def)
    have l1: "lives ?s1 > livesLost ?s1 (length (filter (reachesPaddle ?s1 pX pW) todo))"
      and pos: "lives ?s1 > 0"
      using Cons.prems True by (auto simp: rp fireballDamage_def livesLost_def split: if_splits)
    from Cons.IH [OF l1, of kept] True pos show ?thesis
      by (auto simp add: fireballLoop_hit rp fireballDamage_def livesLost_def
          simp del: fireballLoop.simps split: if_splits)
  next
    case False
    with Cons.IH [of s] Cons.prems show ?thesis
      by (simp add: fireballLoop_miss del: fireballLoop.simps)
  qed
qed

text \<open>During the destruction countdown no fireball costs a life.\<close>

lemma fireballLoop_grace:
  assumes "bossDestructionTimer s \<noteq> 0"
  shows "lives (fst (fireballLoop pX pW s todo kept)) = lives s \<and>
         bossDestructionTimer (fst (fireballLoop pX pW s todo kept)) = bossDestructionTimer s"
  using assms
proof (induction todo arbitrary: s kept)
  case Nil
  then show ?case by simp
next
  case (Cons f todo)
  have fd: "lives (fireballDamage s) = lives s"
    "bossDestructionTimer (fireballDamage s) = bossDestructionTimer s"
    using Cons.prems by (simp_all add: fireballDamage_def)
  show ?case
  proof (cases "reachesPaddle s pX pW f")
    case True
    with Cons.IH [of "fireballDamage s" kept] Cons.prems fd show ?thesis
      by (simp add: fireballLoop_hit del: fireballLoop.simps)
  next
    case False
    with Cons.IH [OF Cons.prems] show ?thesis
      by (simp add: fireballLoop_miss del: fireballLoop.simps)
  qed
qed

lemma ballLossPhase_all_lost:
  assumes "balls s \<noteq> []" "\<forall>b \<in> set (balls s). ballIsLost s b"
  shows "ballLossPhase s =
           (let s2 = (if shieldActive s then s\<lparr>balls := [], shieldActive := False\<rparr>
                      else s\<lparr>balls := [], lives := lives s - 1\<rparr>)
            in if lives s2 \<le> 0
               then (s2\<lparr>isRunning := False\<rparr>, Some (OnGameOver (score s2) False))
               else (s2\<lparr>balls := [freshBall (paddle s2)], waitingForLaunch := True\<rparr>, None))"
proof -
  have ex: "list_ex (ballIsLost s) (balls s)"
    using assms by (cases "balls s") (simp_all add: list_ex_iff)
  have fl: "filter (\<lambda>b. \<not> ballIsLost s b) (balls s) = []"
    using assms(2) by (simp add: filter_empty_conv)
  show ?thesis by (simp add: ballLossPhase_def ex fl Let_def)
qed

lemma ballCollisions_fields [simp]:
  "shieldActive (ballCollisions s pX pW) = shieldActive s"
  "shieldTimer (ballCollisions s pX pW) = shieldTimer s"
  "lives (ballCollisions s pX pW) = lives s"
  by (simp_all add: ballCollisions_def)

lemma ballCollisions_balls:
  "length (balls (ballCollisions s pX pW)) = length (balls s)"
  "i < length (balls s) \<Longrightarrow>
   balls (ballCollisions s pX pW) ! i =
     shieldCollision s (paddleCollision s pX pW (wallCollision (balls s ! i)))"
  by (simp_all add: ballCollisions_def)

lemma shield_bounce_in_frame:
  assumes i: "i < length (balls s)" and b: "b = balls s ! i" and t: "touchesShield s b"
    and w: "ball_radius b \<le> ball_x b" "ball_x b + ball_radius b \<le> canvas_width"
      "ball_radius b \<le> ball_y b"
    and p: "ball_x b \<le> pX \<or> pX + pW \<le> ball_x b \<or>
            paddle_y (paddle s) + paddle_height (paddle s) * 1.5 \<le> ball_y b"
  shows "balls (ballCollisions s pX pW) ! i = b\<lparr>ball_dy := - ball_dy b\<rparr>"
proof -
  have "wallCollision b = b" using w by (simp add: wallCollision_def Let_def)
  moreover have "paddleCollision s pX pW b = b" using p by (auto simp: paddleCollision_def)
  ultimately show ?thesis
    using ballCollisions_balls(2) [OF i, of pX pW] b t by (simp add: shieldCollision_def)
qed

text \<open>
  Claim C4. While the shield is up: (1) if \<open>k \<ge> 1\<close> fireballs reach the paddle in a frame
  that does not end the game, the shield flag is false afterwards, its countdown is
  untouched, and only \<open>k - 1\<close> lives are lost (none during the boss's destruction
  countdown): the first fireball costs no life; (2) if all balls are lost, the shield flag
  is false afterwards, its countdown is untouched and no life is lost; (3) a ball that
  moves down through the shield line has its \<open>dy\<close> inverted and nothing else changed: this
  holds of the shield test itself and of the collision loop of the frame, for every ball
  of the state that is clear of the walls and not over the paddle; the loop keeps the
  number of balls, and leaves the shield flag, its countdown and the lives as they were.
\<close>

theorem shield_absorbs_one_loss:
  assumes "shieldActive s"
  shows "(let k = length (filter (reachesPaddle s pX pW) (fireballs s));
              s' = fst (updateFireballs s pX pW)
          in k \<ge> 1 \<and> lives s > livesLost s k \<longrightarrow>
             \<not> shieldActive s' \<and> shieldTimer s' = shieldTimer s \<and>
             lives s' = lives s - (if bossDestructionTimer s = 0 then int k - 1 else 0)) \<and>
         (let s' = fst (ballLossPhase s)
          in balls s \<noteq> [] \<and> (\<forall>b \<in> set (balls s). ballIsLost s b) \<longrightarrow>
             \<not> shieldActive s' \<and> shieldTimer s' = shieldTimer s \<and> lives s' = lives s) \<and>
         (touchesShield s b \<longrightarrow> shieldCollision s b = b\<lparr>ball_dy := - ball_dy b\<rparr>) \<and>
         (i < length (balls s) \<and> touchesShield s (balls s ! i) \<and>
          ball_radius (balls s ! i) \<le> ball_x (balls s ! i) \<and>
          ball_x (balls s ! i) + ball_radius (balls s ! i) \<le> canvas_width \<and>
          ball_radius (balls s ! i) \<le> ball_y (balls s ! i) \<and>
          (ball_x (balls s ! i) \<le> pX \<or> pX + pW \<le> ball_x (balls s ! i) \<or>
           paddle_y (paddle s) + paddle_height (paddle s) * 1.5 \<le> ball_y (balls s ! i)) \<longrightarrow>
            balls (ballCollisions s pX pW) ! i =
              (balls s ! i)\<lparr>ball_dy := - ball_dy (balls s ! i)\<rparr>) \<and>
         length (balls (ballCollisions s pX pW)) = length (balls s) \<and>
         shieldActive (ballCollisions s pX pW) \<and>
         shieldTimer (ballCollisions s pX pW) = shieldTimer s \<and>
         lives (ballCollisions s pX pW) = lives s"
proof -
  have rv: "length (filter (reachesPaddle s pX pW) (rev (fireballs s))) =
            length (filter (reachesPaddle s pX pW) (fireballs s))"
    by (simp flip: rev_filter)
  have fb: "length (filter (reachesPaddle s pX pW) (fireballs s)) \<ge> 1 \<and>
        lives s > livesLost s (length (filter (reachesPaddle s pX pW) (fireballs s))) \<longrightarrow>
        \<not> shieldActive (fst (updateFireballs s pX pW)) \<and>
        shieldTimer (fst (updateFireballs s pX pW)) = shieldTimer s \<and>
        lives (fst (updateFireballs s pX pW)) = lives s -
          (if bossDestructionTimer s = 0
           then int (length (filter (reachesPaddle s pX pW) (fireballs s))) - 1 else 0)"
  proof (intro impI, elim conjE)
    assume k: "length (filter (reachesPaddle s pX pW) (fireballs s)) \<ge> 1"
      and l: "lives s > livesLost s (length (filter (reachesPaddle s pX pW) (fireballs s)))"
    have ne: "filter (reachesPaddle s pX pW) (rev (fireballs s)) \<noteq> []"
      using k rv by (metis length_0_conv not_one_le_zero)
    from fireballLoop_lives [of s pX pW "rev (fireballs s)" "[]"] l k assms ne
    show "\<not> shieldActive (fst (updateFireballs s pX pW)) \<and>
        shieldTimer (fst (updateFireballs s pX pW)) = shieldTimer s \<and>
        lives (fst (updateFireballs s pX pW)) = lives s -
          (if bossDestructionTimer s = 0
           then int (length (filter (reachesPaddle s pX pW) (fireballs s))) - 1 else 0)"
      by (simp add: updateFireballs_def rv livesLost_def)
  qed
  have bl: "balls s \<noteq> [] \<and> (\<forall>b \<in> set (balls s). ballIsLost s b) \<longrightarrow>
        \<not> shieldActive (fst (ballLossPhase s)) \<and>
        shieldTimer (fst (ballLossPhase s)) = shieldTimer s \<and>
        lives (fst (ballLossPhase s)) = lives s"
    using assms by (auto simp: ballLossPhase_all_lost Let_def)
  have sh: "touchesShield s b \<longrightarrow> shieldCollision s b = b\<lparr>ball_dy := - ball_dy b\<rparr>"
    by (simp add: shieldCollision_def)
  have fr: "i < length (balls s) \<and> touchesShield s (balls s ! i) \<and>
          ball_radius (balls s ! i) \<le> ball_x (balls s ! i) \<and>
          ball_x (balls s ! i) + ball_radius (balls s ! i) \<le> canvas_width \<and>
          ball_radius (balls s ! i) \<le> ball_y (balls s ! i) \<and>
          (ball_x (balls s ! i) \<le> pX \<or> pX + pW \<le> ball_x (balls s ! i) \<or>
           paddle_y (paddle s) + paddle_height (paddle s) * 1.5 \<le> ball_y (balls s ! i)) \<longrightarrow>
            balls (ballCollisions s pX pW) ! i =
              (balls s ! i)\<lparr>ball_dy := - ball_dy (balls s ! i)\<rparr>"
    using shield_bounce_in_frame [of i s "balls s ! i" pX pW] by blast
  have ln: "length (balls (ballCollisions s pX pW)) = length (balls s)"
    by (rule ballCollisions_balls(1))
  show ?thesis using fb bl sh fr ln assms by (simp add: Let_def)
qed

theorem shield_absorbs_one_loss_witness:
  "shieldActive shieldState \<and>
   length (filter (reachesPaddle shieldState 321 168) (fireballs shieldState)) = 1 \<and>
   lives shieldState > livesLost shieldState 1 \<and>
   balls shieldState \<noteq> [] \<and> list_all (ballIsLost shieldState) (balls shieldState) \<and>
   touchesShield shieldState shieldBall \<and> shieldTimer shieldState = 600 \<and>
   \<not> shieldActive (fst (updateFireballs shieldState 321 168)) \<and>
   shieldTimer (fst (updateFireballs shieldState 321 168)) = 600 \<and>
   lives (fst (updateFireballs shieldState 321 168)) = 3 \<and>
   \<not> shieldActive (fst (ballLossPhase shieldState)) \<and>
   shieldTimer (fst (ballLossPhase shieldState)) = 600 \<and>
   lives (fst (ballLossPhase shieldState)) = 3 \<and>
   shieldCollision shieldState shieldBall = shieldBall\<lparr>ball_dy := - 5\<rparr> \<and>
   balls (ballCollisions (shieldState\<lparr>balls := [shieldBall]\<rparr>) 321 168) =
     [shieldBall\<lparr>ball_dy := - 5\<rparr>] \<and>
   shieldActive (ballCollisions (shieldState\<lparr>balls := [shieldBall]\<rparr>) 321 168)"
proof -
  note st = shieldState_def lateGame_def initState_def
  let ?T = "shieldState\<lparr>balls := [shieldBall]\<rparr>"
  have h: "shieldActive shieldState" "lives shieldState = 3" "shieldTimer shieldState = 600"
    "bossDestructionTimer shieldState = 0"
    by (simp_all add: st)
  have k: "filter (reachesPaddle shieldState 321 168) (fireballs shieldState) = [hitFireball]"
    by (simp add: st reachesPaddle_def moveFireball_def fireballHitsPaddle_def hitFireball_def
        canvas_height_def canvas_width_def)
  have l: "livesLost shieldState 1 = 0"
    by (simp add: livesLost_def h)
  have b: "balls shieldState \<noteq> []" "\<forall>b \<in> set (balls shieldState). ballIsLost shieldState b"
    by (simp_all add: st ballIsLost_def canvas_height_def)
  have t: "touchesShield shieldState shieldBall"
    by (simp add: touchesShield_def shieldBall_def st canvas_height_def)
  have d: "ball_dy shieldBall = 5" by (simp add: shieldBall_def)
  have hT: "shieldActive ?T" "balls ?T = [shieldBall]" by (simp_all add: st)
  have tT: "touchesShield ?T shieldBall"
    using t by (simp add: touchesShield_def)
  have g: "ball_radius shieldBall \<le> ball_x shieldBall"
    "ball_x shieldBall + ball_radius shieldBall \<le> canvas_width"
    "ball_radius shieldBall \<le> ball_y shieldBall" "ball_x shieldBall \<le> 321"
    by (simp_all add: shieldBall_def canvas_width_def)
  have first: "shieldActive shieldState \<and>
   length (filter (reachesPaddle shieldState 321 168) (fireballs shieldState)) = 1 \<and>
   lives shieldState > livesLost shieldState 1 \<and>
   balls shieldState \<noteq> [] \<and> list_all (ballIsLost shieldState) (balls shieldState) \<and>
   touchesShield shieldState shieldBall \<and> shieldTimer shieldState = 600 \<and>
   \<not> shieldActive (fst (updateFireballs shieldState 321 168)) \<and>
   shieldTimer (fst (updateFireballs shieldState 321 168)) = 600 \<and>
   lives (fst (updateFireballs shieldState 321 168)) = 3 \<and>
   \<not> shieldActive (fst (ballLossPhase shieldState)) \<and>
   shieldTimer (fst (ballLossPhase shieldState)) = 600 \<and>
   lives (fst (ballLossPhase shieldState)) = 3 \<and>
   shieldCollision shieldState shieldBall = shieldBall\<lparr>ball_dy := - 5\<rparr>"
    using shield_absorbs_one_loss [OF h(1), where pX = 321 and pW = 168 and b = shieldBall
        and i = 0] h k l b t d
    by (simp add: Let_def list_all_iff)
  have "balls (ballCollisions ?T 321 168) ! 0 = shieldBall\<lparr>ball_dy := - 5\<rparr> \<and>
      length (balls (ballCollisions ?T 321 168)) = 1 \<and> shieldActive (ballCollisions ?T 321 168)"
    using shield_absorbs_one_loss [OF hT(1), where pX = 321 and pW = 168 and b = shieldBall
        and i = 0] hT tT g d
    by (simp add: Let_def)
  then have second: "balls (ballCollisions ?T 321 168) = [shieldBall\<lparr>ball_dy := - 5\<rparr>] \<and>
      shieldActive (ballCollisions ?T 321 168)"
    by (cases "balls (ballCollisions ?T 321 168)") auto
  from first second show ?thesis by simp
qed

text \<open>
  Claim C5, as far as the code supports it. While the destruction countdown is running
  (\<open>bossDestructionTimer \<noteq> 0\<close>), no fireball that reaches the paddle costs a life, and
  with a life left none of them ends the game.
\<close>

theorem grace_window_no_life_lost:
  assumes "bossDestructionTimer s \<noteq> 0"
  shows "lives (fst (updateFireballs s pX pW)) = lives s \<and>
         (lives s > 0 \<longrightarrow> snd (updateFireballs s pX pW) = [])"
  using fireballLoop_grace [OF assms, of pX pW "rev (fireballs s)" "[]"]
    fireballLoop_lives [of s pX pW "rev (fireballs s)" "[]"] assms
  by (simp add: updateFireballs_def livesLost_def)

text \<open>
  Half way through the countdown, with the shield down: the boss's fireball reaches the
  paddle and costs no life; with the countdown at 0 the same fireball costs one.
\<close>

theorem grace_window_no_life_lost_witness:
  "bossDestructionTimer (countdownState\<lparr>shieldActive := False\<rparr>) = 60 \<and>
   \<not> shieldActive (countdownState\<lparr>shieldActive := False\<rparr>) \<and>
   lives (countdownState\<lparr>shieldActive := False\<rparr>) = 3 \<and>
   fireballs (countdownState\<lparr>shieldActive := False\<rparr>) = [bossFireball] \<and>
   reachesPaddle (countdownState\<lparr>shieldActive := False\<rparr>) 321 168 bossFireball \<and>
   lives (fst (updateFireballs (countdownState\<lparr>shieldActive := False\<rparr>) 321 168)) = 3 \<and>
   snd (updateFireballs (countdownState\<lparr>shieldActive := False\<rparr>) 321 168) = [] \<and>
   lives (fst (updateFireballs
     (countdownState\<lparr>shieldActive := False, bossDestructionTimer := 0\<rparr>) 321 168)) = 2"
proof -
  let ?S = "countdownState\<lparr>shieldActive := False\<rparr>"
  note st = countdownState_def initState_def
  have h: "bossDestructionTimer ?S \<noteq> 0" "bossDestructionTimer ?S = 60"
    "fireballs ?S = [bossFireball]" "lives ?S = 3" "\<not> shieldActive ?S"
    by (simp_all add: st)
  have r: "reachesPaddle ?S 321 168 bossFireball"
    by (simp add: st reachesPaddle_def moveFireball_def fireballHitsPaddle_def bossFireball_def
        canvas_height_def canvas_width_def)
  have o: "lives (fst (updateFireballs
     (countdownState\<lparr>shieldActive := False, bossDestructionTimer := 0\<rparr>) 321 168)) = 2"
    by (simp add: updateFireballs_def moveFireball_def fireballHitsPaddle_def fireballDamage_def
        bossFireball_def canvas_height_def canvas_width_def st Let_def)
  show ?thesis
    using grace_window_no_life_lost [OF h(1), of 321 168] h r o by simp
qed

lemma no_live_bricks_move:
  assumes "\<forall>k \<in> set ks. hits k \<le> 0"
  shows "map (clampBrick \<circ> oscillateBrick w h v) ks = ks"
    and "\<not> list_ex (brickTouchesPaddle s) ks"
  using assms
  by (induction ks) (simp_all add: clampBrick_def oscillateBrick_def brickTouchesPaddle_def Let_def)

lemma updateBrickMovement_no_live_bricks:
  assumes "\<forall>k \<in> set (bricks s). hits k \<le> 0"
  shows "updateBrickMovement e s =
           (if \<not> waitingForLaunch s
            then s\<lparr>brickVerticalOffset := brickVerticalOffset s + 0.3\<rparr> else s, [])"
  using no_live_bricks_move [OF assms]
  by (simp add: updateBrickMovement_def Let_def)

text \<open>
  The claim as written fails twice in the frame below, taken half way through the
  countdown: the ball overlaps the boss and the boss's health goes from 0 to -1, and the
  boss's fireball that reaches the paddle uses up the shield.
\<close>

theorem boss_hit_during_countdown_counterexample:
  "bossDestructionTimer countdownState = 60 \<and> boss countdownState = Some dyingBoss \<and>
   health dyingBoss = 0 \<and> shieldActive countdownState \<and>
   gameLoop level5 env0 countdownState =
     (countdownState\<lparr>
        balls := [\<lparr>ball_x = 400, ball_y = 125, ball_dx = 0, ball_dy = 5, ball_radius = 15\<rparr>],
        boss := Some (dyingBoss\<lparr>boss_x := 402, boss_y := 101, moveTimer := 131, health := - 1\<rparr>),
        fireballs := [], shieldActive := False, shieldTimer := 599,
        brickVerticalOffset := 0.3, timeElapsed := 1, bossDestructionTimer := 59\<rparr>,
      [], Rescheduled)"
proof -
  let ?S = countdownState
  let ?b = "\<lparr>ball_x = 400, ball_y = 125, ball_dx = 0, ball_dy = - 5, ball_radius = 15\<rparr>"
  let ?b' = "\<lparr>ball_x = 400, ball_y = 125, ball_dx = 0, ball_dy = 5, ball_radius = 15\<rparr>"
  let ?bo = "dyingBoss\<lparr>boss_x := 402, boss_y := 101, moveTimer := 131\<rparr>"
  define S1 where "S1 = ?S\<lparr>balls := [?b], boss := Some ?bo\<rparr>"
  define S2 where "S2 = S1\<lparr>brickVerticalOffset := 0.3\<rparr>"
  define S3 where "S3 = S2\<lparr>fireballs := [], shieldActive := False\<rparr>"
  define S4 where "S4 = S3\<lparr>balls := [?b'], boss := Some (?bo\<lparr>health := - 1\<rparr>)\<rparr>"
  define S5 where "S5 = S4\<lparr>shieldTimer := 599, timeElapsed := 1\<rparr>"
  define S6 where "S6 = S5\<lparr>bossDestructionTimer := 59\<rparr>"
  note st = S6_def S5_def S4_def S3_def S2_def S1_def countdownState_def initState_def
  have run: "isRunning ?S" "\<not> isPaused ?S" "bossDestructionTimer ?S = 60"
    "boss ?S = Some dyingBoss" "shieldActive ?S"
    by (simp_all add: st)
  have p1: "movePaddle ?S = ?S"
    by (simp add: movePaddle_def st Let_def)
  have p2: "holdBalls ?S = Some ?S"
    by (simp add: holdBalls_def st)
  have p3: "paddleWidth ?S = 168" "paddleX ?S = 321"
    by (simp_all add: paddleWidth_def paddleX_def st canvas_width_def)
  have p4: "smallBossMovementPhase (bossMovementPhase (moveBalls ?S)) = S1"
    by (simp add: moveBalls_def moveBall_def bossMovementPhase_def smallBossMovementPhase_def
        updateBossMovement_def dyingBoss_def canvas_width_def st Let_def)
  have dead: "\<forall>k \<in> set (bricks S1). hits k \<le> 0"
    by (simp add: st destroyed_def)
  have p5: "brickMovementPhase level5 env0 S1 = (S2, [])"
    by (simp add: brickMovementPhase_def updateBrickMovement_no_live_bricks [OF dead] level5_def)
      (simp add: st)
  have p6: "updateFireballs S2 321 168 = (S3, [])"
    by (simp add: updateFireballs_def moveFireball_def fireballHitsPaddle_def fireballDamage_def
        bossFireball_def canvas_height_def canvas_width_def st Let_def)
  have p7: "smallBossFirePhase env0 S3 = (S3, 0)"
    by (simp add: smallBossFirePhase_def st)
  have p8: "ballCollisions S3 321 168 = S3"
    by (simp add: ballCollisions_def wallCollision_def paddleCollision_def shieldCollision_def
        touchesShield_def canvas_height_def canvas_width_def st Let_def)
  have p9: "ballLossPhase S3 = (S3, None)"
    by (simp add: ballLossPhase_def ballIsLost_def canvas_height_def st Let_def)
  have dead3: "\<forall>k \<in> set (bricks S3). hits k \<le> 0"
    by (simp add: st destroyed_def)
  have q1: "activeBricks S3 = 0"
    by (rule no_live_bricks [OF dead3])
  have q2: "brickPhase env0 0 0 S3 = (S4, [], 0)"
    using no_live_bricks(2) [OF dead3, of ?b]
    by (simp add: brickPhase_def ballBrickStep_def bossCollision_def smallBossCollision_def
        overlapsBox_def dyingBoss_def st)
  have q3: "updateTimeSpeed (updateTimers S4) = S5"
    by (simp add: updateTimers_def tempDamageTick_def debuffDamageTick_def paddleSizeTick_def
        ballSpeedTick_def shieldTick_def doublePointsTick_def updateTimeSpeed_def st Let_def)
  have q4: "powerupPhase level5 321 168 S5 = (S5, False)"
    by (simp add: powerupPhase_def st)
  have q5: "winCheck level5 0 S5 = (S5, None)"
    by (simp add: winCheck_def level5_def st)
  have q6: "destructionCountdown (bossDefeatCheck S5) = (S6, None)"
    by (simp add: destructionCountdown_def bossDefeatCheck_def dyingBoss_def st Let_def)
  have ft: "frameTail level5 env0 321 168 0 [] S3 = (S6, [], Rescheduled)"
    by (simp add: frameTail_def q1 q2 q3 q4 q5 q6 Let_def)
  have gl: "gameLoop level5 env0 ?S = (S6, [], Rescheduled)"
    by (simp add: gameLoop_def frameHead_def run p1 p2 p3 p4 p5 p6 p7 p8 p9 ft Let_def)
  show ?thesis
    unfolding gl by (simp add: st dyingBoss_def)
qed

subsection \<open>Bricks destroyed and the mini-boss check\<close>

lemma spawnStep_refl: "spawnStep ab s evs s evs"
  by (simp add: spawnStep_def)

lemma spawnStep_trans:
  "spawnStep ab s evs s1 evs1 \<Longrightarrow> spawnStep ab s1 evs1 s2 evs2 \<Longrightarrow> spawnStep ab s evs s2 evs2"
  by (auto simp: spawnStep_def thresholdReached_def split: if_splits)

lemma length_filter_update:
  "i < length xs \<Longrightarrow>
   length (filter P (xs[i := y])) + (if P (xs ! i) then 1 else 0) =
   length (filter P xs) + (if P y then 1 else 0)"
proof (induction xs arbitrary: i)
  case Nil
  then show ?case by simp
next
  case (Cons x xs)
  then show ?case by (cases i) auto
qed

lemma activeBricks_update:
  assumes "i < length (bricks s)" "hits (bricks s ! i) > 0"
  shows "activeBricks (s\<lparr>bricks := (bricks s)[i := k]\<rparr>) =
           activeBricks s - (if hits k > 0 then 0 else 1)"
  using length_filter_update [OF assms(1), of "\<lambda>b. hits b > 0" k] assms(2)
  by (simp add: activeBricks_def split: if_splits)

lemma brickDestroyed_spawn:
  "case brickDestroyed e ab i (s, evs, n) of (s', evs', n') \<Rightarrow>
     bricks s' = bricks s \<and> debuffDamage s' = debuffDamage s \<and>
     (if thresholdReached s ab \<and> \<not> smallBossSpawned s
      then evs' = evs @ [SpawnSmallBoss] \<and> smallBossSpawned s'
      else evs' = evs \<and> smallBossSpawned s' = smallBossSpawned s)"
  by (simp add: brickDestroyed_def thresholdReached_def spawnSmallBoss_def smallBossSpawned_def
      Let_def)

lemma damageBricks_spawn:
  assumes "distinct is" "\<forall>i \<in> set is. i < length (bricks s) \<and> hits (bricks s ! i) > 0"
  shows "case damageBricks e ab (s, evs, n) is of (s', evs', n') \<Rightarrow> spawnStep ab s evs s' evs'"
  using assms
proof (induction "is" arbitrary: s evs n)
  case Nil
  then show ?case by (simp add: spawnStep_refl)
next
  case (Cons i "is")
  show ?case
  proof (cases "debuffDamage s > 0")
    case True
    with Cons.IH [of s evs n] Cons.prems show ?thesis by simp
  next
    case False
    define k1 where "k1 = (bricks s ! i)\<lparr>hits := hits (bricks s ! i) - (1 + damageBonus s + tempDamage s)\<rparr>"
    define s1 where "s1 = s\<lparr>bricks := (bricks s)[i := k1]\<rparr>"
    have unf: "damageBricks e ab (s, evs, n) (i # is) =
        (if hits k1 \<le> 0 then damageBricks e ab (brickDestroyed e ab i (s1, evs, n)) is
         else damageBricks e ab (s1, evs, n) is)"
      using False by (simp add: k1_def s1_def Let_def)
    have i: "i < length (bricks s)" "hits (bricks s ! i) > 0" "i \<notin> set is" "distinct is"
      using Cons.prems by auto
    have ab1: "activeBricks s1 = activeBricks s - (if hits k1 > 0 then 0 else 1)"
      unfolding s1_def by (rule activeBricks_update [OF i(1,2)])
    have rest1: "\<forall>j \<in> set is. j < length (bricks s1) \<and> hits (bricks s1 ! j) > 0"
    proof
      fix j assume j: "j \<in> set is"
      then have "j \<noteq> i" using i(3) by auto
      then have "bricks s1 ! j = bricks s ! j" by (simp add: s1_def)
      with Cons.prems j show "j < length (bricks s1) \<and> hits (bricks s1 ! j) > 0"
        by (simp add: s1_def)
    qed
    have same1: "length (bricks s1) = length (bricks s)" "smallBossSpawned s1 = smallBossSpawned s"
      "thresholdReached s1 ab = thresholdReached s ab"
      by (simp_all add: s1_def smallBossSpawned_def thresholdReached_def)
    show ?thesis
    proof (cases "hits k1 \<le> 0")
      case dead: True
      obtain s2 evs2 n2 where bd: "brickDestroyed e ab i (s1, evs, n) = (s2, evs2, n2)"
        by (cases "brickDestroyed e ab i (s1, evs, n)") auto
      from brickDestroyed_spawn [where e = e and ab = ab and i = i and s = s1 and evs = evs and n = n] bd
      have b2: "bricks s2 = bricks s1"
        and sp2: "if thresholdReached s1 ab \<and> \<not> smallBossSpawned s1
                  then evs2 = evs @ [SpawnSmallBoss] \<and> smallBossSpawned s2
                  else evs2 = evs \<and> smallBossSpawned s2 = smallBossSpawned s1"
        by simp_all
      have ab2: "activeBricks s2 = activeBricks s - 1"
        using ab1 dead b2 by (simp add: activeBricks_def)
      have step: "spawnStep ab s evs s2 evs2"
        using sp2 ab2 b2 same1 by (auto simp: spawnStep_def thresholdReached_def split: if_splits)
      have rest2: "\<forall>j \<in> set is. j < length (bricks s2) \<and> hits (bricks s2 ! j) > 0"
        using rest1 b2 by simp
      obtain s' evs' n' where r: "damageBricks e ab (s2, evs2, n2) is = (s', evs', n')"
        by (cases "damageBricks e ab (s2, evs2, n2) is") auto
      from Cons.IH [OF i(4) rest2, of evs2 n2] r have "spawnStep ab s2 evs2 s' evs'" by simp
      with step have "spawnStep ab s evs s' evs'" by (rule spawnStep_trans)
      then show ?thesis
        unfolding unf using dead r bd by simp
    next
      case alive: False
      have step: "spawnStep ab s evs s1 evs"
        using ab1 alive same1 by (auto simp: spawnStep_def)
      obtain s' evs' n' where r: "damageBricks e ab (s1, evs, n) is = (s', evs', n')"
        by (cases "damageBricks e ab (s1, evs, n) is") auto
      from Cons.IH [OF i(4) rest1, of evs n] r have "spawnStep ab s1 evs s' evs'" by simp
      with step have "spawnStep ab s evs s' evs'" by (rule spawnStep_trans)
      then show ?thesis
        unfolding unf using alive r by simp
    qed
  qed
qed

subsection \<open>What the phases of a frame leave alone\<close>

lemma progress_eqD:
  assumes "progress s' = progress s"
  shows "bossActive s' = bossActive s" "bossDestructionTimer s' = bossDestructionTimer s"
    "smallBossSpawned s' = smallBossSpawned s" "activeBricks s' = activeBricks s"
    "length (bricks s') = length (bricks s)"
proof -
  from assms have h: "map hits (bricks s') = map hits (bricks s)" by (simp add: progress_def)
  show "bossActive s' = bossActive s" "bossDestructionTimer s' = bossDestructionTimer s"
    "smallBossSpawned s' = smallBossSpawned s"
    using assms by (simp_all add: progress_def)
  have "filter (\<lambda>h. h > 0) (map hits (bricks s')) = filter (\<lambda>h. h > 0) (map hits (bricks s))"
    using h by simp
  then have "length (filter (\<lambda>b. hits b > 0) (bricks s')) = length (filter (\<lambda>b. hits b > 0) (bricks s))"
    by (metis (mono_tags, lifting) filter_map length_map comp_def filter_cong)
  then show "activeBricks s' = activeBricks s" by (simp add: activeBricks_def)
  show "length (bricks s') = length (bricks s)" using h by (metis length_map)
qed

lemma progress_movePaddle [simp]: "progress (movePaddle s) = progress s"
  by (simp add: movePaddle_def progress_def smallBossSpawned_def Let_def)

lemma progress_holdBalls: "holdBalls s = Some s' \<Longrightarrow> progress s' = progress s"
  by (auto simp: holdBalls_def progress_def smallBossSpawned_def split: if_splits list.splits)

lemma progress_moveBalls [simp]: "progress (moveBalls s) = progress s"
  by (simp add: moveBalls_def progress_def smallBossSpawned_def)

lemma progress_bossMovementPhase [simp]: "progress (bossMovementPhase s) = progress s"
  by (simp add: bossMovementPhase_def updateBossMovement_def progress_def smallBossSpawned_def
      Let_def split: option.splits)

lemma progress_smallBossMovementPhase [simp]: "progress (smallBossMovementPhase s) = progress s"
  by (simp add: smallBossMovementPhase_def updateSmallBoss_def progress_def smallBossSpawned_def
      Let_def split: option.splits)

lemma hits_moved [simp]:
  "hits (clampBrick k) = hits k" "hits (oscillateBrick w h v k) = hits k"
  by (simp_all add: clampBrick_def oscillateBrick_def Let_def)

lemma progress_brickMovementPhase [simp]:
  "progress (fst (brickMovementPhase lv e s)) = progress s"
  by (simp add: brickMovementPhase_def updateBrickMovement_def progress_def smallBossSpawned_def
      Let_def comp_def)

lemma losses_brickMovementPhase [simp]: "losses (snd (brickMovementPhase lv e s))"
  by (simp add: brickMovementPhase_def updateBrickMovement_def losses_def Let_def)

lemma fireballDamage_progress [simp]: "progress (fireballDamage s) = progress s"
  by (simp add: fireballDamage_def progress_def smallBossSpawned_def)

lemma fireballLoop_progress:
  "progress (fst (fireballLoop pX pW s todo kept)) = progress s \<and>
   losses (snd (fireballLoop pX pW s todo kept))"
proof (induction todo arbitrary: s kept)
  case Nil
  then show ?case by (simp add: progress_def smallBossSpawned_def losses_def)
next
  case (Cons f todo)
  have upd: "\<And>a b. progress (fireballDamage s\<lparr>isRunning := a, fireballs := b\<rparr>) = progress s"
    using fireballDamage_progress [of s] by (simp add: progress_def smallBossSpawned_def)
  show ?case
    using Cons.IH [of s kept] Cons.IH [of s "moveFireball f # kept"]
      Cons.IH [of "fireballDamage s" kept] upd
    by (simp add: Let_def losses_def)
qed

lemma progress_updateFireballs [simp]:
  "progress (fst (updateFireballs s pX pW)) = progress s"
  "losses (snd (updateFireballs s pX pW))"
  using fireballLoop_progress by (simp_all add: updateFireballs_def)

lemma progress_smallBossFirePhase [simp]: "progress (fst (smallBossFirePhase e s)) = progress s"
  by (simp add: smallBossFirePhase_def progress_def smallBossSpawned_def split: option.splits)

lemma progress_ballCollisions [simp]: "progress (ballCollisions s pX pW) = progress s"
  by (simp add: ballCollisions_def progress_def smallBossSpawned_def)

lemma progress_ballLossPhase [simp]: "progress (fst (ballLossPhase s)) = progress s"
  by (simp add: ballLossPhase_def progress_def smallBossSpawned_def Let_def)

lemma ballLossPhase_event: "snd (ballLossPhase s) = Some ev \<Longrightarrow> \<exists>sc. ev = OnGameOver sc False"
  by (auto simp: ballLossPhase_def Let_def split: if_splits)

lemma losses_append [simp]: "losses (xs @ ys) = (losses xs \<and> losses ys)"
  by (auto simp: losses_def)

lemma frameHead_progress:
  "progress (fst (frameHead lv e pX pW s)) = progress s \<and>
   losses (fst (snd (frameHead lv e pX pW s)))"
  by (simp add: frameHead_def Let_def split_beta)

lemma progress_ticks [simp]:
  "progress (tempDamageTick s) = progress s"
  "progress (debuffDamageTick s) = progress s"
  "progress (paddleSizeTick s) = progress s"
  "progress (ballSpeedTick s) = progress s"
  "progress (shieldTick s) = progress s"
  "progress (doublePointsTick s) = progress s"
  by (simp_all add: tempDamageTick_def debuffDamageTick_def paddleSizeTick_def ballSpeedTick_def
      shieldTick_def doublePointsTick_def progress_def smallBossSpawned_def Let_def)

lemma progress_updateTimers [simp]: "progress (updateTimers s) = progress s"
  by (simp add: updateTimers_def)

lemma progress_updateTimeSpeed [simp]: "progress (updateTimeSpeed s) = progress s"
  by (simp add: updateTimeSpeed_def progress_def smallBossSpawned_def Let_def)

lemma progress_applyPowerupEffect:
  "applyPowerupEffect lv s t = Some s' \<Longrightarrow> progress s' = progress s"
proof (cases t)
  case None
  then show "applyPowerupEffect lv s t = Some s' \<Longrightarrow> progress s' = progress s" by simp
next
  case (Some ty)
  then show "applyPowerupEffect lv s t = Some s' \<Longrightarrow> progress s' = progress s"
    by (cases ty)
      (auto simp: progress_def smallBossSpawned_def Let_def split: if_splits list.splits)
qed

lemma powerupLoop_progress:
  "progress (fst (powerupLoop lv pX pW s todo kept)) = progress s"
proof (induction todo arbitrary: s kept)
  case Nil
  then show ?case by (simp add: progress_def smallBossSpawned_def)
next
  case (Cons p todo)
  have upd: "\<And>b. progress (s\<lparr>powerups := b\<rparr>) = progress s"
    by (simp add: progress_def smallBossSpawned_def)
  show ?case
    using Cons.IH progress_applyPowerupEffect [of lv s] upd
    by (auto simp: Let_def split: option.splits)
qed

lemma progress_powerupPhase [simp]: "progress (fst (powerupPhase lv pX pW s)) = progress s"
  by (simp add: powerupPhase_def powerupLoop_progress)

subsection \<open>The brick phase\<close>

lemma collidingBricks_live:
  "distinct (collidingBricks s b) \<and>
   (\<forall>i \<in> set (collidingBricks s b). i < length (bricks s) \<and> hits (bricks s ! i) > 0)"
  by (auto simp: collidingBricks_def)

lemma bossFields_brickDestroyed:
  "bossFields (fst (brickDestroyed e ab i (s, evs, n))) = bossFields s"
  by (simp add: brickDestroyed_def bossFields_def spawnSmallBoss_def Let_def split_beta)

lemma bossFields_damageBricks:
  "bossFields (fst (damageBricks e ab (s, evs, n) idxs)) = bossFields s"
proof (induction idxs arbitrary: s evs n)
  case Nil
  then show ?case by simp
next
  case (Cons i idxs)
  define s1 where "s1 = s\<lparr>bricks := (bricks s)[i := (bricks s ! i)\<lparr>hits :=
      hits (bricks s ! i) - (1 + damageBonus s + tempDamage s)\<rparr>]\<rparr>"
  have b1: "bossFields s1 = bossFields s" by (simp add: s1_def bossFields_def)
  obtain s2 evs2 n2 where bd: "brickDestroyed e ab i (s1, evs, n) = (s2, evs2, n2)"
    by (cases "brickDestroyed e ab i (s1, evs, n)") auto
  have b2: "bossFields s2 = bossFields s"
    using bossFields_brickDestroyed [where e = e and ab = ab and i = i and s = s1 and evs = evs and n = n] bd b1 by simp
  show ?case
    using Cons.IH [where s = s and evs = evs and n = n] Cons.IH [where s = s1 and evs = evs and n = n]
      Cons.IH [where s = s2 and evs = evs2 and n = n2] b1 b2 bd
    by (simp add: Let_def flip: s1_def)
qed

lemma bossFields_collisions [simp]:
  "bossFields (fst (bossCollision s b)) = bossFields s"
  "bossFields (smallBossCollision s b) = bossFields s"
  by (simp_all add: bossCollision_def smallBossCollision_def bossFields_def split: option.splits)

lemma spawnStep_same:
  "bricks s' = bricks s \<Longrightarrow> smallBossSpawned s' = smallBossSpawned s \<Longrightarrow>
   spawnStep ab s evs s' evs"
  by (simp add: spawnStep_def activeBricks_def)

lemma ballBrickStep_spawn:
  "case ballBrickStep e ab (s, evs, n) b of ((s', evs', n'), b') \<Rightarrow>
     spawnStep ab s evs s' evs' \<and> bossFields s' = bossFields s"
proof -
  define s2 where "s2 = smallBossCollision (fst (bossCollision s b)) (snd (bossCollision s b))"
  have same: "bricks s2 = bricks s" "smallBossSpawned s2 = smallBossSpawned s"
    "bossFields s2 = bossFields s"
    by (simp_all add: s2_def)
  have live: "distinct (collidingBricks s b)"
    "\<forall>i \<in> set (collidingBricks s b). i < length (bricks s2) \<and> hits (bricks s2 ! i) > 0"
    using collidingBricks_live [of s b] same by simp_all
  obtain s' evs' n' where r: "damageBricks e ab (s2, evs, n) (collidingBricks s b) = (s', evs', n')"
    by (cases "damageBricks e ab (s2, evs, n) (collidingBricks s b)") auto
  have "spawnStep ab s2 evs s' evs'"
    using damageBricks_spawn [OF live, where e = e and ab = ab and evs = evs and n = n] r by simp
  with spawnStep_same [OF same(1,2), where ab = ab and evs = evs] have st: "spawnStep ab s evs s' evs'"
    by (rule spawnStep_trans)
  have bf: "bossFields s' = bossFields s"
    using bossFields_damageBricks [where e = e and ab = ab and s = s2 and evs = evs and n = n
        and idxs = "collidingBricks s b"] r same by simp
  show ?thesis
    using st bf r by (simp add: ballBrickStep_def Let_def split_beta flip: s2_def)
qed

lemma brickLoop_spawn:
  "case brickLoop e ab (s, evs, n) processed todo of (s', evs', n') \<Rightarrow>
     spawnStep ab s evs s' evs' \<and> bossFields s' = bossFields s"
proof (induction todo arbitrary: s evs n processed)
  case Nil
  then show ?case
    using spawnStep_same [where s' = "s\<lparr>balls := processed\<rparr>" and s = s and ab = ab and evs = evs]
    by (simp add: bossFields_def smallBossSpawned_def)
next
  case (Cons b todo)
  obtain s1 evs1 n1 b1 where st: "ballBrickStep e ab (s, evs, n) b = ((s1, evs1, n1), b1)"
    by (cases "ballBrickStep e ab (s, evs, n) b") auto
  have one: "spawnStep ab s evs s1 evs1" "bossFields s1 = bossFields s"
    using ballBrickStep_spawn [where e = e and ab = ab and s = s and evs = evs and n = n and b = b] st by simp_all
  obtain s' evs' n' where r: "brickLoop e ab (s1, evs1, n1) (processed @ [b1]) todo = (s', evs', n')"
    by (cases "brickLoop e ab (s1, evs1, n1) (processed @ [b1]) todo") auto
  have rest: "spawnStep ab s1 evs1 s' evs'" "bossFields s' = bossFields s1"
    using Cons.IH [where s = s1 and evs = evs1 and n = n1 and processed = "processed @ [b1]"] r by simp_all
  show ?case
    using spawnStep_trans [OF one(1) rest(1)] one(2) rest(2) st r by simp
qed

lemma brickPhase_spawn:
  "case brickPhase e ab n s of (s', evs', n') \<Rightarrow>
     spawnStep ab s [] s' evs' \<and> bossFields s' = bossFields s"
  using brickLoop_spawn [where e = e and ab = ab and s = s and evs = "[]" and n = n
      and processed = "[]" and todo = "balls s"] by (simp add: brickPhase_def)

lemma progress_split:
  "progress s' = progress s \<longleftrightarrow>
   bossFields s' = bossFields s \<and> map hits (bricks s') = map hits (bricks s) \<and>
   smallBossSpawned s' = smallBossSpawned s"
  by (auto simp: progress_def bossFields_def)

lemma length_filter_hits:
  "length (filter (\<lambda>b. hits b > 0) ks) = length (filter (\<lambda>h. h > 0) (map hits ks))"
  by (induction ks) auto

lemma activeBricks_hits:
  "map hits (bricks s') = map hits (bricks s) \<Longrightarrow> activeBricks s' = activeBricks s"
  by (simp only: activeBricks_def length_filter_hits)

lemma spawnStep_view:
  assumes "spawnStep ab s evs s1 evs1" "map hits (bricks s') = map hits (bricks s1)"
    "smallBossSpawned s' = smallBossSpawned s1"
  shows "spawnStep ab s evs s' evs1"
proof -
  have "length (bricks s') = length (bricks s1)" using assms(2) by (metis length_map)
  moreover have "activeBricks s' = activeBricks s1" using assms(2) by (rule activeBricks_hits)
  ultimately show ?thesis using assms(1,3) by (simp add: spawnStep_def)
qed

lemma spawnStep_view0:
  assumes "map hits (bricks s') = map hits (bricks s)" "smallBossSpawned s' = smallBossSpawned s"
  shows "spawnStep ab s evs s' evs"
  using spawnStep_view [OF spawnStep_refl assms] .

subsection \<open>The frame never raises while there is a ball\<close>

lemma balls_head_phases [simp]:
  "balls (movePaddle s) = balls s"
  "length (balls (moveBalls s)) = length (balls s)"
  "balls (bossMovementPhase s) = balls s"
  "balls (smallBossMovementPhase s) = balls s"
  "balls (fst (brickMovementPhase lv e s)) = balls s"
  "balls (fst (smallBossFirePhase e s)) = balls s"
  "length (balls (ballCollisions s pX pW)) = length (balls s)"
  by (simp_all add: movePaddle_def moveBalls_def bossMovementPhase_def updateBossMovement_def
      smallBossMovementPhase_def brickMovementPhase_def updateBrickMovement_def
      smallBossFirePhase_def ballCollisions_def Let_def split: option.splits)

lemma balls_fireballLoop [simp]: "balls (fst (fireballLoop pX pW s todo kept)) = balls s"
proof (induction todo arbitrary: s kept)
  case Nil
  then show ?case by simp
next
  case (Cons f todo)
  have "balls (fireballDamage s) = balls s" by (simp add: fireballDamage_def)
  with Cons.IH [of s kept] Cons.IH [of s "moveFireball f # kept"]
    Cons.IH [of "fireballDamage s" kept]
  show ?case by (simp add: Let_def)
qed

lemma balls_frameHead: "length (balls (fst (frameHead lv e pX pW s))) = length (balls s)"
  by (simp add: frameHead_def updateFireballs_def Let_def split_beta)

lemma holdBalls_balls:
  "balls s \<noteq> [] \<Longrightarrow> \<exists>s'. holdBalls s = Some s' \<and> balls s' \<noteq> []"
  by (auto simp: holdBalls_def split: list.splits)

lemma ballLossPhase_balls:
  assumes "balls s \<noteq> []" "snd (ballLossPhase s) = None"
  shows "balls (fst (ballLossPhase s)) \<noteq> []"
proof (cases "list_ex (ballIsLost s) (balls s)")
  case True
  with assms(2) show ?thesis
    by (auto simp: ballLossPhase_def Let_def split: if_splits)
next
  case False
  then have "filter (\<lambda>b. \<not> ballIsLost s b) (balls s) = balls s"
    by (simp add: list_ex_iff)
  with False assms(1) show ?thesis
    by (simp add: ballLossPhase_def Let_def)
qed

lemma balls_brickDestroyed [simp]:
  "balls (fst (brickDestroyed e ab i (s, evs, n))) = balls s"
  by (simp add: brickDestroyed_def spawnSmallBoss_def Let_def split_beta)

lemma balls_damageBricks [simp]:
  "balls (fst (damageBricks e ab (s, evs, n) idxs)) = balls s"
proof (induction idxs arbitrary: s evs n)
  case Nil
  then show ?case by simp
next
  case (Cons i idxs)
  define s1 where "s1 = s\<lparr>bricks := (bricks s)[i := (bricks s ! i)\<lparr>hits :=
      hits (bricks s ! i) - (1 + damageBonus s + tempDamage s)\<rparr>]\<rparr>"
  have b1: "balls s1 = balls s" by (simp add: s1_def)
  obtain s2 evs2 n2 where bd: "brickDestroyed e ab i (s1, evs, n) = (s2, evs2, n2)"
    by (cases "brickDestroyed e ab i (s1, evs, n)") auto
  have b2: "balls s2 = balls s"
    using balls_brickDestroyed [where e = e and ab = ab and i = i and s = s1 and evs = evs and n = n]
      bd b1 by simp
  show ?case
    using Cons.IH [where s = s and evs = evs and n = n] Cons.IH [where s = s1 and evs = evs and n = n]
      Cons.IH [where s = s2 and evs = evs2 and n = n2] b1 b2 bd
    by (simp add: Let_def flip: s1_def)
qed

lemma balls_brickLoop:
  "length (balls (fst (brickLoop e ab acc processed todo))) = length processed + length todo"
proof (induction todo arbitrary: acc processed)
  case Nil
  then show ?case by (cases acc) simp
next
  case (Cons b todo)
  then show ?case by (simp add: split_beta)
qed

lemma balls_brickPhase: "length (balls (fst (brickPhase e ab n s))) = length (balls s)"
  by (simp add: brickPhase_def balls_brickLoop)

lemma balls_tick [simp]:
  "balls (tempDamageTick s) = balls s"
  "balls (debuffDamageTick s) = balls s"
  "balls (paddleSizeTick s) = balls s"
  "balls (ballSpeedTick s) = balls s"
  "balls (shieldTick s) = balls s"
  "balls (doublePointsTick s) = balls s"
  "balls (updateTimeSpeed s) = balls s"
  by (simp_all add: tempDamageTick_def debuffDamageTick_def paddleSizeTick_def ballSpeedTick_def
      shieldTick_def doublePointsTick_def updateTimeSpeed_def Let_def)

lemma balls_updateTimers [simp]: "balls (updateTimers s) = balls s"
  by (simp add: updateTimers_def)

lemma applyPowerupEffect_balls:
  "balls s \<noteq> [] \<Longrightarrow> \<exists>s'. applyPowerupEffect lv s t = Some s' \<and> balls s' \<noteq> []"
proof (cases t)
  case None
  then show "balls s \<noteq> [] \<Longrightarrow> \<exists>s'. applyPowerupEffect lv s t = Some s' \<and> balls s' \<noteq> []"
    by simp
next
  case (Some ty)
  then show "balls s \<noteq> [] \<Longrightarrow> \<exists>s'. applyPowerupEffect lv s t = Some s' \<and> balls s' \<noteq> []"
    by (cases ty) (auto simp: Let_def split: list.splits)
qed

lemma powerupLoop_balls:
  "balls s \<noteq> [] \<Longrightarrow>
   \<not> snd (powerupLoop lv pX pW s todo kept) \<and> balls (fst (powerupLoop lv pX pW s todo kept)) \<noteq> []"
proof (induction todo arbitrary: s kept)
  case Nil
  then show ?case by simp
next
  case (Cons p todo)
  obtain s1 where a: "applyPowerupEffect lv s (powerup_type p) = Some s1" "balls s1 \<noteq> []"
    using applyPowerupEffect_balls [OF Cons.prems] by blast
  show ?case
    using Cons.IH [OF Cons.prems] Cons.IH [OF a(2)] a(1)
    by (simp add: Let_def)
qed

lemma powerupPhase_balls:
  "balls s \<noteq> [] \<Longrightarrow> \<not> snd (powerupPhase lv pX pW s)"
  by (simp add: powerupPhase_def powerupLoop_balls)

subsection \<open>Summary of a frame\<close>

text \<open>The three last steps of the frame, taken together.\<close>

lemma endOfFrame:
  assumes "bossFields s3 = bossFields s" and "ab = activeBricks s"
  shows "case winCheck lv ab s3 of
           (s4, Some ev) \<Rightarrow>
             ab = 0 \<and> \<not> bossActive s \<and> level_id lv mod 5 \<noteq> 0 \<and>
             ev = OnGameOver (score s3) True \<and> \<not> isRunning s4 \<and>
             bricks s4 = bricks s3 \<and> smallBoss s4 = smallBoss s3 \<and> balls s4 = balls s3 \<and>
             bossFields s4 = bossFields s
         | (s4, None) \<Rightarrow>
             (case destructionCountdown (bossDefeatCheck s4) of
                (s5, Some ev) \<Rightarrow>
                  won lv s \<and> (\<exists>sc. ev = OnGameOver sc True) \<and> \<not> isRunning s5 \<and>
                  bricks s5 = bricks s3 \<and> smallBoss s5 = smallBoss s3 \<and> balls s5 = balls s3 \<and>
                  bossActive s5 = (bossActive s \<or> ab = 0 \<and> level_id lv mod 5 = 0) \<and>
                  (ab = 0 \<and> level_id lv mod 5 = 0 \<and> \<not> bossActive s \<longrightarrow>
                     (\<exists>b. boss s5 = Some b \<and> health b = level_id lv \<and>
                          maxHealth b = level_id lv)) \<and>
                  bossDestructionTimer s5 = 0
              | (s5, None) \<Rightarrow>
                  \<not> won lv s \<and>
                  bricks s5 = bricks s3 \<and> smallBoss s5 = smallBoss s3 \<and> balls s5 = balls s3 \<and>
                  isRunning s5 = isRunning s3 \<and>
                  bossActive s5 = (bossActive s \<or> ab = 0 \<and> level_id lv mod 5 = 0) \<and>
                  (ab = 0 \<and> level_id lv mod 5 = 0 \<and> \<not> bossActive s \<longrightarrow>
                     (\<exists>b. boss s5 = Some b \<and> health b = level_id lv \<and>
                          maxHealth b = level_id lv)) \<and>
                  (bossDestructionTimer s5 \<noteq> 0 \<longrightarrow>
                     bossDestructionTimer s \<noteq> 0 \<or> bossActive s5))"
  using assms
  by (auto simp: winCheck_def bossDefeatCheck_def destructionCountdown_def startBossBattle_def
      won_def bossFields_def Let_def split: option.splits if_splits)

lemma frameTail_summary:
  assumes ft: "frameTail lv e pX pW n evs s = (s', out, oc)"
  shows "\<exists>evs1 w. out = evs @ evs1 @ w \<and> spawnStep (activeBricks s) s [] s' evs1 \<and>
           (oc = Threw \<and> w = [] \<and> bossFields s' = bossFields s \<or> frameEnd lv s s' w oc) \<and>
           (balls s \<noteq> [] \<longrightarrow> oc \<noteq> Threw \<and> balls s' \<noteq> [])"
proof -
  define ab where "ab = activeBricks s"
  obtain s1 evs1 n1 where bp: "brickPhase e ab n s = (s1, evs1, n1)"
    by (cases "brickPhase e ab n s") auto
  have sp1: "spawnStep ab s [] s1 evs1" and bf1: "bossFields s1 = bossFields s"
    using brickPhase_spawn [where e = e and ab = ab and n = n and s = s] bp by simp_all
  have nb1: "balls s \<noteq> [] \<Longrightarrow> balls s1 \<noteq> []"
    using balls_brickPhase [where e = e and ab = ab and n = n and s = s] bp by auto
  define s2 where "s2 = updateTimeSpeed (updateTimers s1)"
  have pr2: "progress s2 = progress s1" and nb2: "balls s2 = balls s1"
    by (simp_all add: s2_def)
  obtain s3 threw where pp: "powerupPhase lv pX pW s2 = (s3, threw)"
    by (cases "powerupPhase lv pX pW s2") auto
  have pr3: "progress s3 = progress s1"
    using progress_powerupPhase [of lv pX pW s2] pp pr2 by simp
  have nothrow: "balls s \<noteq> [] \<Longrightarrow> \<not> threw"
    using powerupPhase_balls [of s2 lv pX pW] pp nb1 nb2 by simp
  have nb3: "balls s \<noteq> [] \<Longrightarrow> balls s3 \<noteq> []"
    using powerupLoop_balls [of s2 lv pX pW "rev (powerups s2)" "[]"] pp nb1 nb2
    by (simp add: powerupPhase_def)
  have v3: "map hits (bricks s3) = map hits (bricks s1)" "smallBossSpawned s3 = smallBossSpawned s1"
    "bossFields s3 = bossFields s"
    using pr3 bf1 by (simp_all add: progress_split)
  have view: "\<And>t :: game_state. bricks t = bricks s3 \<Longrightarrow> smallBoss t = smallBoss s3 \<Longrightarrow>
      spawnStep ab s [] t evs1"
  proof -
    fix t :: game_state assume "bricks t = bricks s3" "smallBoss t = smallBoss s3"
    then have "map hits (bricks t) = map hits (bricks s1)" "smallBossSpawned t = smallBossSpawned s1"
      using v3 by (simp_all add: smallBossSpawned_def)
    with sp1 show "spawnStep ab s [] t evs1" by (rule spawnStep_view)
  qed
  show ?thesis
  proof (cases threw)
    case True
    have res: "s' = s3" "out = evs @ evs1 @ []" "oc = Threw"
      using ft bp pp True by (simp_all add: frameTail_def Let_def flip: ab_def s2_def)
    from True nothrow have "balls s = []" by auto
    with view [OF refl refl] res v3(3) show ?thesis
      unfolding ab_def by blast
  next
    case False
    have unf: "frameTail lv e pX pW n evs s =
        (case winCheck lv ab s3 of
           (s4, Some ev) \<Rightarrow> (s4, evs @ evs1 @ [ev], Stopped)
         | (s4, None) \<Rightarrow>
             (case destructionCountdown (bossDefeatCheck s4) of
                (s5, Some ev) \<Rightarrow> (s5, evs @ evs1 @ [ev], Stopped)
              | (s5, None) \<Rightarrow> (s5, evs @ evs1, Rescheduled)))"
      using bp pp False by (simp add: frameTail_def Let_def flip: ab_def s2_def)
    obtain s4 r4 where wc: "winCheck lv ab s3 = (s4, r4)" by (cases "winCheck lv ab s3") auto
    obtain s5 r5 where dc: "destructionCountdown (bossDefeatCheck s4) = (s5, r5)"
      by (cases "destructionCountdown (bossDefeatCheck s4)") auto
    note eof = endOfFrame [OF v3(3) ab_def, of lv]
    show ?thesis
    proof (cases r4)
      case (Some ev)
      with eof wc have f: "ab = 0 \<and> \<not> bossActive s \<and> level_id lv mod 5 \<noteq> 0"
        "ev = OnGameOver (score s3) True" "\<not> isRunning s4"
        "bricks s4 = bricks s3" "smallBoss s4 = smallBoss s3" "balls s4 = balls s3"
        "bossFields s4 = bossFields s"
        by simp_all
      have res: "s' = s4" "out = evs @ evs1 @ [ev]" "oc = Stopped"
        using ft unf wc Some by simp_all
      have "frameEnd lv s s4 [ev] Stopped"
        using f by (auto simp: frameEnd_def bossFields_def won_def ab_def)
      with view [OF f(4,5)] res nb3 f(6) show ?thesis
        unfolding ab_def by auto
    next
      case None
      show ?thesis
      proof (cases r5)
        case (Some ev)
        with eof wc None dc have f: "won lv s" "\<exists>sc. ev = OnGameOver sc True" "\<not> isRunning s5"
          "bricks s5 = bricks s3" "smallBoss s5 = smallBoss s3" "balls s5 = balls s3"
          "bossActive s5 = (bossActive s \<or> ab = 0 \<and> level_id lv mod 5 = 0)"
          "ab = 0 \<and> level_id lv mod 5 = 0 \<and> \<not> bossActive s \<longrightarrow>
             (\<exists>b. boss s5 = Some b \<and> health b = level_id lv \<and> maxHealth b = level_id lv)"
          "bossDestructionTimer s5 = 0"
          by auto
        have res: "s' = s5" "out = evs @ evs1 @ [ev]" "oc = Stopped"
          using ft unf wc dc None Some by simp_all
        have "frameEnd lv s s5 [ev] Stopped"
          using f by (auto simp: frameEnd_def ab_def)
        with view [OF f(4,5)] res nb3 f(6) show ?thesis
          unfolding ab_def by auto
      next
        case n5: None
        with eof wc None dc have f: "\<not> won lv s"
          "bricks s5 = bricks s3" "smallBoss s5 = smallBoss s3" "balls s5 = balls s3"
          "bossActive s5 = (bossActive s \<or> ab = 0 \<and> level_id lv mod 5 = 0)"
          "ab = 0 \<and> level_id lv mod 5 = 0 \<and> \<not> bossActive s \<longrightarrow>
             (\<exists>b. boss s5 = Some b \<and> health b = level_id lv \<and> maxHealth b = level_id lv)"
          "bossDestructionTimer s5 \<noteq> 0 \<longrightarrow> bossDestructionTimer s \<noteq> 0 \<or> bossActive s5"
          by auto
        have res: "s' = s5" "out = evs @ evs1 @ []" "oc = Rescheduled"
          using ft unf wc dc None n5 by simp_all
        have "frameEnd lv s s5 [] Rescheduled"
          using f by (auto simp: frameEnd_def ab_def)
        with view [OF f(2,3)] res nb3 f(4) show ?thesis
          unfolding ab_def by auto
      qed
    qed
  qed
qed

lemma ballLossPhase_over:
  "ballLossPhase s = (s', Some ev) \<Longrightarrow> (\<exists>sc. ev = OnGameOver sc False) \<and> \<not> isRunning s'"
  by (auto simp: ballLossPhase_def Let_def split: if_splits)

lemma spawnStep_from:
  assumes "progress s0 = progress s" "spawnStep ab s0 evs t evs'"
  shows "spawnStep ab s evs t evs'"
  using assms(2) progress_eqD [OF assms(1)]
  by (simp add: spawnStep_def thresholdReached_def)

lemma frameEnd_from:
  assumes "progress s0 = progress s" "frameEnd lv s0 t w oc"
  shows "frameEnd lv s t w oc"
  using assms(2) progress_eqD [OF assms(1)]
  by (auto simp: frameEnd_def won_def)

lemma progress_spawnStep: "progress s' = progress s \<Longrightarrow> spawnStep ab s evs s' evs"
  by (rule spawnStep_view0) (simp_all add: progress_def)

lemma progress_bossFields: "progress s' = progress s \<Longrightarrow> bossFields s' = bossFields s"
  by (simp add: progress_def bossFields_def)

lemma gameLoop_summary:
  assumes run: "isRunning s" "\<not> isPaused s" and gl: "gameLoop lv e s = (s', out, oc)"
  shows "\<exists>evsL evs1 w. out = evsL @ evs1 @ w \<and> losses evsL \<and>
           spawnStep (activeBricks s) s [] s' evs1 \<and>
           (oc = Threw \<and> w = [] \<and> bossFields s' = bossFields s \<or>
            (\<exists>sc. w = [OnGameOver sc False]) \<and> evs1 = [] \<and> oc = Stopped \<and> \<not> isRunning s' \<and>
              bossFields s' = bossFields s \<or>
            frameEnd lv s s' w oc) \<and>
           (balls s \<noteq> [] \<longrightarrow> oc \<noteq> Threw \<and> (oc = Rescheduled \<longrightarrow> balls s' \<noteq> []))"
proof (cases "holdBalls (movePaddle s)")
  case None
  have res: "s' = movePaddle s" "out = [] @ [] @ []" "oc = Threw"
    using gl run None by (simp_all add: gameLoop_def Let_def)
  have pr: "progress (movePaddle s) = progress s" by simp
  have sp: "spawnStep (activeBricks s) s [] (movePaddle s) []"
    using pr by (rule progress_spawnStep)
  have bf: "bossFields (movePaddle s) = bossFields s" using pr by (rule progress_bossFields)
  have "balls s = []" using holdBalls_balls [of "movePaddle s"] None by auto
  with res sp bf show ?thesis
    by (intro exI [of _ "[]"]) (auto simp: losses_def)
next
  case (Some s2)
  define pX where "pX = paddleX s2"
  define pW where "pW = paddleWidth s2"
  have pr2: "progress s2 = progress s"
    using progress_holdBalls [OF Some] by simp
  have nb2: "balls s \<noteq> [] \<Longrightarrow> balls s2 \<noteq> []"
    using holdBalls_balls [of "movePaddle s"] Some by auto
  obtain s3 evs n where fh: "frameHead lv e pX pW s2 = (s3, evs, n)"
    by (cases "frameHead lv e pX pW s2") auto
  have pr3: "progress s3 = progress s" and ls: "losses evs"
    using frameHead_progress [of lv e pX pW s2] fh pr2 by simp_all
  have nb3: "balls s \<noteq> [] \<Longrightarrow> balls s3 \<noteq> []"
    using balls_frameHead [of lv e pX pW s2] fh nb2 by auto
  obtain s4 r where bl: "ballLossPhase s3 = (s4, r)" by (cases "ballLossPhase s3") auto
  have pr4: "progress s4 = progress s"
    using progress_ballLossPhase [of s3] bl pr3 by simp
  have unf: "gameLoop lv e s =
      (case r of Some ev \<Rightarrow> (s4, evs @ [ev], Stopped)
       | None \<Rightarrow> frameTail lv e pX pW n evs s4)"
    using run Some fh bl by (simp add: gameLoop_def Let_def pX_def pW_def split: option.splits)
  show ?thesis
  proof (cases r)
    case (Some ev)
    have res: "s' = s4" "out = evs @ [] @ [ev]" "oc = Stopped"
      using gl unf Some by simp_all
    have ov: "\<exists>sc. ev = OnGameOver sc False" "\<not> isRunning s4"
      using ballLossPhase_over [of s3 s4 ev] bl Some by simp_all
    have sp: "spawnStep (activeBricks s) s [] s4 []"
      using pr4 by (rule progress_spawnStep)
    have bf: "bossFields s4 = bossFields s" using pr4 by (rule progress_bossFields)
    from res ov sp bf ls show ?thesis
      by (intro exI [of _ evs] exI [of _ "[]"] exI [of _ "[ev]"]) auto
  next
    case None
    have ft: "frameTail lv e pX pW n evs s4 = (s', out, oc)"
      using gl unf None by simp
    have nb4: "balls s \<noteq> [] \<Longrightarrow> balls s4 \<noteq> []"
      using ballLossPhase_balls [of s3] bl None nb3 by simp
    from frameTail_summary [OF ft] obtain evs1 w where
      t: "out = evs @ evs1 @ w" "spawnStep (activeBricks s4) s4 [] s' evs1"
        "oc = Threw \<and> w = [] \<and> bossFields s' = bossFields s4 \<or> frameEnd lv s4 s' w oc"
        "balls s4 \<noteq> [] \<longrightarrow> oc \<noteq> Threw \<and> balls s' \<noteq> []"
      by blast
    have ab: "activeBricks s4 = activeBricks s" and bf: "bossFields s4 = bossFields s"
      using progress_eqD(4) [OF pr4] progress_bossFields [OF pr4] by simp_all
    have sp: "spawnStep (activeBricks s) s [] s' evs1"
      using spawnStep_from [OF pr4] t(2) ab by simp
    have fe: "oc = Threw \<and> w = [] \<and> bossFields s' = bossFields s \<or> frameEnd lv s s' w oc"
      using t(3) bf frameEnd_from [OF pr4] by auto
    from t(1) ls sp fe t(4) nb4 show ?thesis by blast
  qed
qed

subsection \<open>Win and boss start\<close>

lemma spawnStep_events:
  "spawnStep ab s [] s' evs1 \<Longrightarrow> evs1 = [] \<or> evs1 = [SpawnSmallBoss]"
  by (auto simp: spawnStep_def split: if_splits)

lemma losses_no_win: "losses evs \<Longrightarrow> \<not> winReported evs"
  by (auto simp: losses_def winReported_def)

lemma losses_no_spawn: "losses evs \<Longrightarrow> count_list evs SpawnSmallBoss = 0"
  by (induction evs) (auto simp: losses_def)

lemma activeBricks_nonneg: "activeBricks s \<ge> 0"
  by (simp add: activeBricks_def)

text \<open>
  Claim C2, as the code has it. Take a frame that runs (game running, not paused, a ball
  present) from a state in which the boss bookkeeping is consistent, and let the count of
  live bricks be the one at the start of the frame, which is the one \<open>gameLoop\<close> takes before
  its brick collisions. Then \<open>onGameOver(score, true)\<close> is called in this frame exactly when
  that count is 0 and either the level id is not divisible by 5 or the destruction
  countdown stands at 1 (so that it completes in this frame), unless the frame is ended
  before the win check by the loss of the last life on ball loss. On a level whose id is
  divisible by 5, a frame that reaches the win check with a count of 0 and no boss active
  reports no win and starts the boss, with health and maximal health equal to the level id.
  The consistency of the boss bookkeeping and the presence of a ball hold at every
  scheduled frame of a run from the start of a level (\<open>level_start_ready\<close> below).
\<close>

theorem win_condition:
  assumes inv: "bossConsistent lv s" and run: "isRunning s" "\<not> isPaused s" and nb: "balls s \<noteq> []"
    and gl: "gameLoop lv e s = (s', out, oc)"
  shows "(winReported out \<longleftrightarrow>
            activeBricks s = 0 \<and> (level_id lv mod 5 \<noteq> 0 \<or> bossDestructionTimer s = 1) \<and>
            \<not> endedByBallLoss out oc) \<and>
         (activeBricks s = 0 \<and> level_id lv mod 5 = 0 \<and> \<not> bossActive s \<and>
          \<not> endedByBallLoss out oc \<longrightarrow>
            \<not> winReported out \<and> bossActive s' \<and>
            (\<exists>b. boss s' = Some b \<and> health b = level_id lv \<and> maxHealth b = level_id lv))"
proof -
  from gameLoop_summary [OF run gl] obtain evsL evs1 w where
    o: "out = evsL @ evs1 @ w" and ls: "losses evsL"
    and sp: "spawnStep (activeBricks s) s [] s' evs1"
    and c: "oc = Threw \<and> w = [] \<and> bossFields s' = bossFields s \<or>
            (\<exists>sc. w = [OnGameOver sc False]) \<and> evs1 = [] \<and> oc = Stopped \<and> \<not> isRunning s' \<and>
              bossFields s' = bossFields s \<or>
            frameEnd lv s s' w oc"
    and nt: "oc \<noteq> Threw"
    using nb by blast
  have e1: "evs1 = [] \<or> evs1 = [SpawnSmallBoss]" using sp by (rule spawnStep_events)
  have nwL: "\<not> winReported evsL" using ls by (rule losses_no_win)
  have wonI: "won lv s \<longleftrightarrow>
      activeBricks s = 0 \<and> (level_id lv mod 5 \<noteq> 0 \<or> bossDestructionTimer s = 1)"
    using inv by (auto simp: won_def bossConsistent_def)
  from c nt consider
    (loss) sc where "w = [OnGameOver sc False]" "evs1 = []" "oc = Stopped"
    | (reached) "frameEnd lv s s' w oc"
    by blast
  then show ?thesis
  proof cases
    case loss
    have "\<not> winReported out" using nwL loss o by (auto simp: winReported_def)
    moreover have "endedByBallLoss out oc" using loss o by (simp add: endedByBallLoss_def)
    ultimately show ?thesis by simp
  next
    case reached
    show ?thesis
    proof (cases "won lv s")
      case True
      with reached obtain sc where w: "w = [OnGameOver sc True]" "oc = Stopped"
        by (auto simp: frameEnd_def)
      have "winReported out" using w o by (auto simp: winReported_def)
      moreover have "\<not> endedByBallLoss out oc" using w o by (simp add: endedByBallLoss_def)
      moreover have "\<not> (activeBricks s = 0 \<and> level_id lv mod 5 = 0 \<and> \<not> bossActive s)"
        using True inv by (auto simp: won_def bossConsistent_def)
      ultimately show ?thesis using True wonI by simp
    next
      case False
      with reached have w: "w = []" "oc = Rescheduled"
        by (auto simp: frameEnd_def)
      have "\<not> winReported out" using nwL e1 w o by (auto simp: winReported_def)
      moreover have "\<not> endedByBallLoss out oc" using w by (simp add: endedByBallLoss_def)
      moreover have "activeBricks s = 0 \<and> level_id lv mod 5 = 0 \<and> \<not> bossActive s \<longrightarrow>
          bossActive s' \<and>
          (\<exists>b. boss s' = Some b \<and> health b = level_id lv \<and> maxHealth b = level_id lv)"
        using reached by (auto simp: frameEnd_def)
      ultimately show ?thesis using False wonI by auto
    qed
  qed
qed

lemma bossConsistent_gameLoop:
  assumes inv: "bossConsistent lv s" and gl: "gameLoop lv e s = (s', out, oc)"
  shows "bossConsistent lv s'"
proof (cases "isRunning s \<and> \<not> isPaused s")
  case False
  then have "s' = s" using gl by (auto simp: gameLoop_def)
  with inv show ?thesis by simp
next
  case True
  then have run: "isRunning s" "\<not> isPaused s" by simp_all
  from gameLoop_summary [OF run gl] obtain evs1 w where
    sp: "spawnStep (activeBricks s) s [] s' evs1"
    and c: "oc = Threw \<and> w = [] \<and> bossFields s' = bossFields s \<or>
            (\<exists>sc. w = [OnGameOver sc False]) \<and> evs1 = [] \<and> oc = Stopped \<and> \<not> isRunning s' \<and>
              bossFields s' = bossFields s \<or>
            frameEnd lv s s' w oc"
    by blast
  have le: "activeBricks s' \<le> activeBricks s" using sp by (simp add: spawnStep_def)
  have z: "activeBricks s = 0 \<Longrightarrow> activeBricks s' = 0"
    using le activeBricks_nonneg [of s'] by simp
  from c consider (same) "bossFields s' = bossFields s" | (reached) "frameEnd lv s s' w oc"
    by blast
  then show ?thesis
  proof cases
    case same
    with inv z show ?thesis by (auto simp: bossConsistent_def bossFields_def)
  next
    case reached
    with inv z show ?thesis by (auto simp: bossConsistent_def frameEnd_def)
  qed
qed

lemma gameLoop_spawn:
  assumes gl: "gameLoop lv e s = (s', out, oc)"
  shows "count_list out SpawnSmallBoss = (if spawnsNow s s' then 1 else 0) \<and>
         smallBossSpawned s' = (smallBossSpawned s \<or> spawnsNow s s')"
proof (cases "isRunning s \<and> \<not> isPaused s")
  case False
  then have "s' = s" "out = []" using gl by (auto simp: gameLoop_def)
  then show ?thesis by (simp add: spawnsNow_def)
next
  case True
  then have run: "isRunning s" "\<not> isPaused s" by simp_all
  from gameLoop_summary [OF run gl] obtain evsL evs1 w where
    o: "out = evsL @ evs1 @ w" and ls: "losses evsL"
    and sp: "spawnStep (activeBricks s) s [] s' evs1"
    and c: "oc = Threw \<and> w = [] \<and> bossFields s' = bossFields s \<or>
            (\<exists>sc. w = [OnGameOver sc False]) \<and> evs1 = [] \<and> oc = Stopped \<and> \<not> isRunning s' \<and>
              bossFields s' = bossFields s \<or>
            frameEnd lv s s' w oc"
    by blast
  have w: "count_list w SpawnSmallBoss = 0"
    using c by (auto simp: frameEnd_def split: if_splits)
  have cnt: "count_list out SpawnSmallBoss = count_list evs1 SpawnSmallBoss"
    using o w losses_no_spawn [OF ls] by simp
  show ?thesis
    using sp cnt by (auto simp: spawnStep_def spawnsNow_def split: if_splits)
qed

subsection \<open>Mini-boss: at most one spawn in a run\<close>

lemma handlers_smallBoss [simp]:
  "smallBoss (handleKeyDown k s) = smallBoss s"
  "smallBoss (handleKeyUp k s) = smallBoss s"
  "smallBoss (handleClick lv s) = smallBoss s"
  by (simp_all add: handleKeyDown_def handleKeyUp_def handleClick_def Let_def split: list.splits)

lemma step_spawn:
  assumes "step lv i (s, sched) = ((s', sched'), evs)"
  shows "count_list evs SpawnSmallBoss \<le> 1 \<and>
         (smallBossSpawned s \<longrightarrow> count_list evs SpawnSmallBoss = 0) \<and>
         smallBossSpawned s' = (smallBossSpawned s \<or> count_list evs SpawnSmallBoss = 1)"
proof (cases i)
  case (Frame e)
  show ?thesis
  proof (cases sched)
    case True
    obtain t out oc where gl: "gameLoop lv e s = (t, out, oc)"
      by (cases "gameLoop lv e s") auto
    with assms Frame True have "s' = t" "evs = out" by simp_all
    with gameLoop_spawn [OF gl] show ?thesis by (auto simp: spawnsNow_def)
  next
    case False
    with assms Frame show ?thesis by simp
  qed
qed (use assms in \<open>auto simp: smallBossSpawned_def\<close>)

lemma run_spawn:
  assumes "run lv ins (s, sched) = ((s', sched'), evs)"
  shows "count_list evs SpawnSmallBoss \<le> 1 \<and>
         (smallBossSpawned s \<longrightarrow> count_list evs SpawnSmallBoss = 0) \<and>
         smallBossSpawned s' = (smallBossSpawned s \<or> count_list evs SpawnSmallBoss = 1)"
  using assms
proof (induction ins arbitrary: s sched s' sched' evs)
  case Nil
  then show ?case by simp
next
  case (Cons i ins)
  obtain s1 sched1 evs1 where st: "step lv i (s, sched) = ((s1, sched1), evs1)"
    by (cases "step lv i (s, sched)") auto
  obtain s2 sched2 evs2 where rn: "run lv ins (s1, sched1) = ((s2, sched2), evs2)"
    by (cases "run lv ins (s1, sched1)") auto
  have res: "s' = s2" "evs = evs1 @ evs2"
    using Cons.prems st rn by simp_all
  from step_spawn [OF st] Cons.IH [OF rn] res show ?case by auto
qed

text \<open>
  Claim C6, as the code has it. In every frame \<open>spawnSmallBoss\<close> is called once if no
  mini-boss has spawned before, the number of bricks destroyed before this frame is at
  least 0.7 of the total, and this frame destroys a brick; otherwise it is not called.
  The \<open>spawned\<close> flag is set from then on, so in any sequence of inputs and frames the
  mini-boss spawns at most once, and never again once it has spawned.
\<close>

theorem mini_boss_spawns_once:
  "(case gameLoop lv e s of (s', out, oc) \<Rightarrow>
      count_list out SpawnSmallBoss = (if spawnsNow s s' then 1 else 0) \<and>
      smallBossSpawned s' = (smallBossSpawned s \<or> spawnsNow s s')) \<and>
   (case run lv ins (s, sched) of ((s', sched'), evs) \<Rightarrow>
      count_list evs SpawnSmallBoss \<le> 1 \<and>
      (smallBossSpawned s \<longrightarrow> count_list evs SpawnSmallBoss = 0))"
proof -
  obtain t out oc where gl: "gameLoop lv e s = (t, out, oc)"
    by (cases "gameLoop lv e s") auto
  obtain s' sched' evs where rn: "run lv ins (s, sched) = ((s', sched'), evs)"
    by (cases "run lv ins (s, sched)") auto
  from gameLoop_spawn [OF gl] run_spawn [OF rn] gl rn show ?thesis by simp
qed

subsection \<open>What a frame takes from the random draws and the clock\<close>

lemma brickMovementPhase_env:
  assumes "level_id lv mod 5 = 0 \<longrightarrow> now e1 = now e2"
  shows "brickMovementPhase lv e1 s = brickMovementPhase lv e2 s"
proof (cases "level_id lv mod 5 = 0")
  case True
  with assms have n: "now e1 = now e2" by simp
  show ?thesis unfolding brickMovementPhase_def updateBrickMovement_def n by (rule refl)
next
  case False
  then show ?thesis by (simp add: brickMovementPhase_def)
qed

lemma smallBoss_head_phases [simp]:
  "smallBoss (movePaddle s) = smallBoss s"
  "smallBoss (moveBalls s) = smallBoss s"
  "smallBoss (bossMovementPhase s) = smallBoss s"
  "smallBoss (fst (brickMovementPhase lv e s)) = smallBoss s"
  "smallBoss (ballCollisions s pX pW) = smallBoss s"
  "smallBoss (fst (ballLossPhase s)) = smallBoss s"
  "smallBoss (fireballDamage s) = smallBoss s"
  by (simp_all add: movePaddle_def moveBalls_def bossMovementPhase_def updateBossMovement_def
      brickMovementPhase_def updateBrickMovement_def ballCollisions_def ballLossPhase_def
      fireballDamage_def Let_def split: option.splits)

lemma smallBoss_holdBalls: "holdBalls s = Some s' \<Longrightarrow> smallBoss s' = smallBoss s"
  by (auto simp: holdBalls_def split: if_splits list.splits)

lemma smallBoss_fireballLoop [simp]:
  "smallBoss (fst (fireballLoop pX pW s todo kept)) = smallBoss s"
proof (induction todo arbitrary: s kept)
  case Nil
  then show ?case by simp
next
  case (Cons f todo)
  from Cons.IH [of s kept] Cons.IH [of s "moveFireball f # kept"]
    Cons.IH [of "fireballDamage s" kept]
  show ?case by (simp add: Let_def)
qed

lemma smallBoss_updateFireballs [simp]:
  "smallBoss (fst (updateFireballs s pX pW)) = smallBoss s"
  by (simp add: updateFireballs_def)

lemma idle_smallBossMovementPhase:
  "\<not> smallBossActive s \<Longrightarrow> smallBossMovementPhase s = s"
  by (auto simp: smallBossMovementPhase_def smallBossActive_def split: option.splits)

lemma idle_smallBossFirePhase:
  "\<not> smallBossActive s \<Longrightarrow> smallBossFirePhase e s = (s, 0)"
  by (auto simp: smallBossFirePhase_def smallBossActive_def split: option.splits)

lemma smallBossActive_cong: "smallBoss s' = smallBoss s \<Longrightarrow> smallBossActive s' = smallBossActive s"
  by (simp add: smallBossActive_def)

text \<open>
  The first half of a frame reads the clock on levels with an id divisible by 5 only, and
  draws a random number only while a mini-boss is active.
\<close>

lemma frameHead_idle:
  assumes nw: "level_id lv mod 5 = 0 \<longrightarrow> now e1 = now e2" and idle: "\<not> smallBossActive s"
  shows "frameHead lv e1 pX pW s = frameHead lv e2 pX pW s"
    and "smallBoss (fst (frameHead lv e1 pX pW s)) = smallBoss s"
proof -
  define s1 where "s1 = smallBossMovementPhase (bossMovementPhase (moveBalls s))"
  have i0: "\<not> smallBossActive (bossMovementPhase (moveBalls s))"
    using idle by (simp add: smallBossActive_def)
  have s1: "smallBoss s1 = smallBoss s"
    unfolding s1_def idle_smallBossMovementPhase [OF i0] by simp
  have bm: "brickMovementPhase lv e1 s1 = brickMovementPhase lv e2 s1"
    by (rule brickMovementPhase_env [OF nw])
  obtain s2 evs2 where b2: "brickMovementPhase lv e2 s1 = (s2, evs2)"
    by (cases "brickMovementPhase lv e2 s1") auto
  have s2: "smallBoss s2 = smallBoss s"
    using smallBoss_head_phases(4) [of lv e2 s1] b2 s1 by simp
  obtain s3 evs3 where u3: "updateFireballs s2 pX pW = (s3, evs3)"
    by (cases "updateFireballs s2 pX pW") auto
  have s3: "smallBoss s3 = smallBoss s"
    using smallBoss_updateFireballs [of s2 pX pW] u3 s2 by simp
  have i3: "\<not> smallBossActive s3" using idle s3 by (simp add: smallBossActive_def)
  have fh: "frameHead lv e pX pW s = (ballCollisions s3 pX pW, evs2 @ evs3, 0)"
    if "brickMovementPhase lv e s1 = (s2, evs2)" for e
    using that u3 idle_smallBossFirePhase [OF i3, of e]
    by (simp add: frameHead_def Let_def flip: s1_def)
  show "frameHead lv e1 pX pW s = frameHead lv e2 pX pW s"
    using fh [of e1] fh [of e2] bm b2 by simp
  show "smallBoss (fst (frameHead lv e1 pX pW s)) = smallBoss s"
    using fh [of e1] bm b2 s3 by simp
qed

lemma spawnStep_le: "spawnStep ab s evs s' evs' \<Longrightarrow> activeBricks s' \<le> activeBricks s"
  by (simp add: spawnStep_def)

text \<open>
  The damage loop draws random numbers only when it destroys a brick: if the count of
  live bricks is the same after the loop, its result does not depend on the draws, and it
  leaves the mini-boss as it was.
\<close>

lemma damageBricks_quiet:
  assumes "distinct idxs" "\<forall>i \<in> set idxs. i < length (bricks s) \<and> hits (bricks s ! i) > 0"
    and "damageBricks e1 ab (s, evs, n) idxs = (s', evs', n')"
    and "activeBricks s' = activeBricks s"
  shows "damageBricks e2 ab (s, evs, n) idxs = (s', evs', n') \<and> smallBoss s' = smallBoss s"
  using assms
proof (induction idxs arbitrary: s)
  case Nil
  then show ?case by simp
next
  case (Cons i idxs)
  show ?case
  proof (cases "debuffDamage s > 0")
    case True
    with Cons.IH [of s] Cons.prems show ?thesis by simp
  next
    case False
    define k1 where "k1 = (bricks s ! i)\<lparr>hits := hits (bricks s ! i) - (1 + damageBonus s + tempDamage s)\<rparr>"
    define s1 where "s1 = s\<lparr>bricks := (bricks s)[i := k1]\<rparr>"
    have unf: "damageBricks e ab (s, evs, n) (i # idxs) =
        (if hits k1 \<le> 0 then damageBricks e ab (brickDestroyed e ab i (s1, evs, n)) idxs
         else damageBricks e ab (s1, evs, n) idxs)" for e
      using False by (simp add: k1_def s1_def Let_def)
    have i: "i < length (bricks s)" "hits (bricks s ! i) > 0" "i \<notin> set idxs" "distinct idxs"
      using Cons.prems by auto
    have ab1: "activeBricks s1 = activeBricks s - (if hits k1 > 0 then 0 else 1)"
      unfolding s1_def by (rule activeBricks_update [OF i(1,2)])
    have rest1: "\<forall>j \<in> set idxs. j < length (bricks s1) \<and> hits (bricks s1 ! j) > 0"
    proof
      fix j assume j: "j \<in> set idxs"
      then have "j \<noteq> i" using i(3) by auto
      then have "bricks s1 ! j = bricks s ! j" by (simp add: s1_def)
      with Cons.prems j show "j < length (bricks s1) \<and> hits (bricks s1 ! j) > 0"
        by (simp add: s1_def)
    qed
    show ?thesis
    proof (cases "hits k1 \<le> 0")
      case dead: True
      obtain s2 evs2 n2 where bd: "brickDestroyed e1 ab i (s1, evs, n) = (s2, evs2, n2)"
        by (cases "brickDestroyed e1 ab i (s1, evs, n)") auto
      from brickDestroyed_spawn [where e = e1 and ab = ab and i = i and s = s1 and evs = evs and n = n] bd
      have b2: "bricks s2 = bricks s1" by simp
      have ab2: "activeBricks s2 = activeBricks s - 1"
        using ab1 dead b2 by (simp add: activeBricks_def)
      have rest2: "\<forall>j \<in> set idxs. j < length (bricks s2) \<and> hits (bricks s2 ! j) > 0"
        using rest1 b2 by simp
      have "damageBricks e1 ab (s2, evs2, n2) idxs = (s', evs', n')"
        using Cons.prems(3) unf [of e1] dead bd by simp
      with damageBricks_spawn [OF i(4) rest2, where e = e1 and ab = ab and evs = evs2 and n = n2]
      have "activeBricks s' \<le> activeBricks s2" by (auto dest: spawnStep_le)
      with ab2 Cons.prems(4) show ?thesis by simp
    next
      case alive: False
      have r1: "damageBricks e1 ab (s1, evs, n) idxs = (s', evs', n')"
        using Cons.prems(3) unf [of e1] alive by simp
      have a1: "activeBricks s' = activeBricks s1"
        using ab1 alive Cons.prems(4) by simp
      from Cons.IH [OF i(4) rest1 r1 a1] unf [of e2] alive show ?thesis
        by (simp add: s1_def)
    qed
  qed
qed

lemma smallBossCollision_idle:
  "smallBossActive (smallBossCollision s b) \<Longrightarrow> smallBossActive s"
  "\<not> smallBossActive s \<Longrightarrow> smallBossCollision s b = s"
  by (auto simp: smallBossCollision_def smallBossActive_def split: option.splits if_splits)

lemma activeBricks_bricks: "bricks s' = bricks s \<Longrightarrow> activeBricks s' = activeBricks s"
  by (simp add: activeBricks_def)

lemma ballBrickStep_quiet:
  assumes "ballBrickStep e1 ab (s, evs, n) b = ((s', evs', n'), b')"
    and "activeBricks s' = activeBricks s"
  shows "ballBrickStep e2 ab (s, evs, n) b = ((s', evs', n'), b') \<and>
         (smallBossActive s' \<longrightarrow> smallBossActive s)"
proof -
  define s2 where "s2 = smallBossCollision (fst (bossCollision s b)) (snd (bossCollision s b))"
  have br: "bricks s2 = bricks s" by (simp add: s2_def)
  have live: "distinct (collidingBricks s b)"
    "\<forall>i \<in> set (collidingBricks s b). i < length (bricks s2) \<and> hits (bricks s2 ! i) > 0"
    using collidingBricks_live [of s b] br by simp_all
  have unf: "ballBrickStep e ab (s, evs, n) b =
      (damageBricks e ab (s2, evs, n) (collidingBricks s b),
       resolveBounce (snd (bossCollision s b)) (map (\<lambda>i. bricks s2 ! i) (collidingBricks s b)))"
    for e
    by (simp add: ballBrickStep_def s2_def Let_def split_beta)
  have d1: "damageBricks e1 ab (s2, evs, n) (collidingBricks s b) = (s', evs', n')"
    and b': "b' = resolveBounce (snd (bossCollision s b))
                    (map (\<lambda>i. bricks s2 ! i) (collidingBricks s b))"
    using assms(1) unf [of e1] by simp_all
  have a2: "activeBricks s' = activeBricks s2"
    using assms(2) activeBricks_bricks [OF br] by simp
  from damageBricks_quiet [OF live d1 a2, of e2]
  have d2: "damageBricks e2 ab (s2, evs, n) (collidingBricks s b) = (s', evs', n')"
    and sb: "smallBoss s' = smallBoss s2" by simp_all
  have "smallBossActive s2 \<longrightarrow> smallBossActive s"
    using smallBossCollision_idle(1) [of "fst (bossCollision s b)" "snd (bossCollision s b)"]
    by (simp add: s2_def)
  with sb have "smallBossActive s' \<longrightarrow> smallBossActive s"
    by (simp add: smallBossActive_def)
  with d2 b' unf [of e2] show ?thesis by simp
qed

lemma brickLoop_quiet:
  assumes "brickLoop e1 ab (s, evs, n) processed todo = (s', evs', n')"
    and "activeBricks s' = activeBricks s"
  shows "brickLoop e2 ab (s, evs, n) processed todo = (s', evs', n') \<and>
         (smallBossActive s' \<longrightarrow> smallBossActive s)"
  using assms
proof (induction todo arbitrary: s evs n processed)
  case Nil
  then show ?case by (auto simp: smallBossActive_def)
next
  case (Cons b todo)
  obtain s1 evs1 n1 b1 where st: "ballBrickStep e1 ab (s, evs, n) b = ((s1, evs1, n1), b1)"
    by (cases "ballBrickStep e1 ab (s, evs, n) b") auto
  have rest: "brickLoop e1 ab (s1, evs1, n1) (processed @ [b1]) todo = (s', evs', n')"
    using Cons.prems(1) st by simp
  have le1: "activeBricks s1 \<le> activeBricks s"
    using ballBrickStep_spawn [where e = e1 and ab = ab and s = s and evs = evs and n = n and b = b] st
    by (auto dest: spawnStep_le)
  have le2: "activeBricks s' \<le> activeBricks s1"
    using brickLoop_spawn [where e = e1 and ab = ab and s = s1 and evs = evs1 and n = n1
        and processed = "processed @ [b1]" and todo = todo] rest
    by (auto dest: spawnStep_le)
  have a1: "activeBricks s1 = activeBricks s" and a2: "activeBricks s' = activeBricks s1"
    using le1 le2 Cons.prems(2) by simp_all
  from ballBrickStep_quiet [OF st a1, of e2] Cons.IH [OF rest a2]
  show ?case by simp
qed

lemma brickPhase_quiet:
  assumes "brickPhase e1 ab n s = (s', evs', n')" and "activeBricks s' = activeBricks s"
  shows "brickPhase e2 ab n s = (s', evs', n')" and "smallBossActive s' \<longrightarrow> smallBossActive s"
  using brickLoop_quiet [of e1 ab s "[]" n "[]" "balls s" s' evs' n' e2] assms
  by (simp_all add: brickPhase_def)

lemma smallBoss_tail_phases [simp]:
  "smallBoss (tempDamageTick s) = smallBoss s"
  "smallBoss (debuffDamageTick s) = smallBoss s"
  "smallBoss (paddleSizeTick s) = smallBoss s"
  "smallBoss (ballSpeedTick s) = smallBoss s"
  "smallBoss (shieldTick s) = smallBoss s"
  "smallBoss (doublePointsTick s) = smallBoss s"
  "smallBoss (updateTimeSpeed s) = smallBoss s"
  "smallBoss (fst (winCheck lv ab s)) = smallBoss s"
  "smallBoss (bossDefeatCheck s) = smallBoss s"
  "smallBoss (fst (destructionCountdown s)) = smallBoss s"
  by (simp_all add: tempDamageTick_def debuffDamageTick_def paddleSizeTick_def ballSpeedTick_def
      shieldTick_def doublePointsTick_def updateTimeSpeed_def winCheck_def startBossBattle_def
      bossDefeatCheck_def destructionCountdown_def Let_def split: option.splits)

lemma bricks_tail_phases [simp]:
  "bricks (fst (winCheck lv ab s)) = bricks s"
  "bricks (bossDefeatCheck s) = bricks s"
  "bricks (fst (destructionCountdown s)) = bricks s"
  by (simp_all add: winCheck_def startBossBattle_def bossDefeatCheck_def
      destructionCountdown_def Let_def split: option.splits)

lemma smallBoss_updateTimers [simp]: "smallBoss (updateTimers s) = smallBoss s"
  by (simp add: updateTimers_def)

lemma smallBoss_applyPowerupEffect:
  "applyPowerupEffect lv s t = Some s' \<Longrightarrow> smallBoss s' = smallBoss s"
proof (cases t)
  case None
  then show "applyPowerupEffect lv s t = Some s' \<Longrightarrow> smallBoss s' = smallBoss s" by auto
next
  case (Some ty)
  then show "applyPowerupEffect lv s t = Some s' \<Longrightarrow> smallBoss s' = smallBoss s"
    by (cases ty) (auto simp: Let_def split: list.splits if_splits)
qed

lemma smallBoss_powerupLoop [simp]:
  "smallBoss (fst (powerupLoop lv pX pW s todo kept)) = smallBoss s"
proof (induction todo arbitrary: s kept)
  case Nil
  then show ?case by simp
next
  case (Cons p todo)
  show ?case
  proof (cases "applyPowerupEffect lv s (powerup_type p)")
    case None
    with Cons.IH [of s] show ?thesis by (simp add: Let_def)
  next
    case (Some s1)
    with Cons.IH [of s] Cons.IH [of s1] smallBoss_applyPowerupEffect [OF Some]
    show ?thesis by (simp add: Let_def)
  qed
qed

lemma smallBoss_powerupPhase [simp]:
  "smallBoss (fst (powerupPhase lv pX pW s)) = smallBoss s"
  by (simp add: powerupPhase_def)

text \<open>What follows the brick collisions in a frame takes nothing from the draws.\<close>

lemma frameTail_quiet:
  assumes ft: "frameTail lv e1 pX pW n evs s = (s', out, oc)"
    and q: "activeBricks s' = activeBricks s"
  shows "frameTail lv e2 pX pW n evs s = (s', out, oc)"
    and "smallBossActive s' \<longrightarrow> smallBossActive s"
proof -
  define rest where "rest = (\<lambda>(s1, evs1, n1 :: nat).
      let s2 = updateTimeSpeed (updateTimers s1);
          (s3, threw) = powerupPhase lv pX pW s2
      in if threw then (s3, evs @ evs1, Threw)
         else
           (case winCheck lv (activeBricks s) s3 of
              (s4, Some ev) \<Rightarrow> (s4, evs @ evs1 @ [ev], Stopped)
            | (s4, None) \<Rightarrow>
                (case destructionCountdown (bossDefeatCheck s4) of
                   (s5, Some ev) \<Rightarrow> (s5, evs @ evs1 @ [ev], Stopped)
                 | (s5, None) \<Rightarrow> (s5, evs @ evs1, Rescheduled))))"
  have unf: "frameTail lv e pX pW n evs s = rest (brickPhase e (activeBricks s) n s)" for e
    by (simp add: frameTail_def rest_def Let_def split_beta)
  obtain s1 evs1 n1 where bp: "brickPhase e1 (activeBricks s) n s = (s1, evs1, n1)"
    by (cases "brickPhase e1 (activeBricks s) n s") auto
  have r: "rest (s1, evs1, n1) = (s', out, oc)" using ft unf [of e1] bp by simp
  have pr: "progress (fst (powerupPhase lv pX pW (updateTimeSpeed (updateTimers s1)))) = progress s1"
    by simp
  have sb: "smallBoss (fst (powerupPhase lv pX pW (updateTimeSpeed (updateTimers s1)))) = smallBoss s1"
    by simp
  have v: "activeBricks s' = activeBricks s1 \<and> smallBoss s' = smallBoss s1"
    using r progress_eqD(4) [OF pr] sb
    by (auto simp: rest_def Let_def split_beta activeBricks_def
        split: if_splits prod.splits option.splits)
  then have a1: "activeBricks s1 = activeBricks s" using q by simp
  from brickPhase_quiet(1) [OF bp a1, of e2] brickPhase_quiet(2) [OF bp a1] v r unf [of e2]
  show "frameTail lv e2 pX pW n evs s = (s', out, oc)"
    and "smallBossActive s' \<longrightarrow> smallBossActive s"
    by (simp_all add: smallBossActive_def)
qed

lemma gameLoop_le:
  assumes "gameLoop lv e s = (s', out, oc)"
  shows "activeBricks s' \<le> activeBricks s"
proof (cases "isRunning s \<and> \<not> isPaused s")
  case False
  then have "s' = s" using assms by (auto simp: gameLoop_def)
  then show ?thesis by simp
next
  case True
  then have run: "isRunning s" "\<not> isPaused s" by simp_all
  from gameLoop_summary [OF run assms] show ?thesis by (auto dest: spawnStep_le)
qed

text \<open>
  A frame that destroys no brick, run while no mini-boss is active, takes nothing from
  the random draws, and from the clock only on a level with an id divisible by 5.
\<close>

lemma gameLoop_quiet:
  assumes nw: "level_id lv mod 5 = 0 \<longrightarrow> now e1 = now e2" and idle: "\<not> smallBossActive s"
    and gl: "gameLoop lv e1 s = (s', out, oc)" and q: "activeBricks s' = activeBricks s"
  shows "gameLoop lv e2 s = (s', out, oc) \<and> \<not> smallBossActive s'"
proof (cases "isRunning s \<and> \<not> isPaused s")
  case False
  with gl idle show ?thesis by (auto simp: gameLoop_def)
next
  case True
  then have run: "isRunning s" "\<not> isPaused s" by simp_all
  show ?thesis
  proof (cases "holdBalls (movePaddle s)")
    case None
    with gl run idle show ?thesis by (auto simp: gameLoop_def Let_def smallBossActive_def)
  next
    case (Some s2)
    have sb2: "smallBoss s2 = smallBoss s" and pr2: "progress s2 = progress s"
      using smallBoss_holdBalls [OF Some] progress_holdBalls [OF Some] by simp_all
    have idle2: "\<not> smallBossActive s2" using idle sb2 by (simp add: smallBossActive_def)
    let ?pX = "paddleX s2" and ?pW = "paddleWidth s2"
    obtain s3 evs n where fh: "frameHead lv e1 ?pX ?pW s2 = (s3, evs, n)"
      by (cases "frameHead lv e1 ?pX ?pW s2") auto
    have fh2: "frameHead lv e2 ?pX ?pW s2 = (s3, evs, n)"
      using frameHead_idle(1) [OF nw idle2, of ?pX ?pW] fh by simp
    have sb3: "smallBoss s3 = smallBoss s"
      using frameHead_idle(2) [OF nw idle2, of ?pX ?pW] fh sb2 by simp
    have pr3: "progress s3 = progress s"
      using frameHead_progress [of lv e1 ?pX ?pW s2] fh pr2 by simp
    obtain s4 ev where bl: "ballLossPhase s3 = (s4, ev)"
      by (cases "ballLossPhase s3") auto
    have sb4: "smallBoss s4 = smallBoss s"
      using smallBoss_head_phases(6) [of s3] bl sb3 by simp
    have pr4: "progress s4 = progress s"
      using progress_ballLossPhase [of s3] bl pr3 by simp
    have idle4: "\<not> smallBossActive s4" using idle sb4 by (simp add: smallBossActive_def)
    have unf: "gameLoop lv e s =
        (case ev of Some v \<Rightarrow> (s4, evs @ [v], Stopped)
         | None \<Rightarrow> frameTail lv e ?pX ?pW n evs s4)"
      if "frameHead lv e ?pX ?pW s2 = (s3, evs, n)" for e
      using that run Some bl by (simp add: gameLoop_def Let_def)
    show ?thesis
    proof (cases ev)
      case (Some v)
      with unf [OF fh] unf [OF fh2] gl idle4 show ?thesis by simp
    next
      case None
      have ft: "frameTail lv e1 ?pX ?pW n evs s4 = (s', out, oc)"
        using unf [OF fh] gl None by simp
      have q4: "activeBricks s' = activeBricks s4"
        using q progress_eqD(4) [OF pr4] by simp
      from frameTail_quiet(1) [OF ft q4, of e2] frameTail_quiet(2) [OF ft q4] unf [OF fh2] None idle4
      show ?thesis by simp
    qed
  qed
qed

lemma handlers_bricks [simp]:
  "bricks (handleKeyDown k s) = bricks s"
  "bricks (handleKeyUp k s) = bricks s"
  "bricks (handleClick lv s) = bricks s"
  by (simp_all add: handleKeyDown_def handleKeyUp_def handleClick_def Let_def split: list.splits)

lemma step_le:
  assumes "step lv i (s, sched) = ((s', sched'), evs)"
  shows "activeBricks s' \<le> activeBricks s"
proof (cases i)
  case (Frame e)
  obtain t out oc where gl: "gameLoop lv e s = (t, out, oc)"
    by (cases "gameLoop lv e s") auto
  from gameLoop_le [OF gl] assms Frame gl show ?thesis
    by (cases sched) auto
qed (use assms in \<open>auto simp: activeBricks_def\<close>)

lemma run_le:
  assumes "run lv ins (s, sched) = ((s', sched'), evs)"
  shows "activeBricks s' \<le> activeBricks s"
  using assms
proof (induction ins arbitrary: s sched s' sched' evs)
  case Nil
  then show ?case by simp
next
  case (Cons i ins)
  obtain s1 sched1 evs1 where st: "step lv i (s, sched) = ((s1, sched1), evs1)"
    by (cases "step lv i (s, sched)") auto
  obtain s2 sched2 evs2 where rn: "run lv ins (s1, sched1) = ((s2, sched2), evs2)"
    by (cases "run lv ins (s1, sched1)") auto
  from Cons.prems st rn have "s' = s2" by simp
  with step_le [OF st] Cons.IH [OF rn] show ?case by simp
qed

lemma step_quiet:
  assumes si: "sameInput lv i1 i2" and idle: "\<not> smallBossActive s"
    and st: "step lv i1 (s, sched) = ((s', sched'), evs)"
    and q: "activeBricks s' = activeBricks s"
  shows "step lv i2 (s, sched) = ((s', sched'), evs) \<and> \<not> smallBossActive s'"
proof (cases i1)
  case f1: (Frame e1)
  then obtain e2 where f2: "i2 = Frame e2" and nw: "level_id lv mod 5 = 0 \<longrightarrow> now e1 = now e2"
    using si by (cases i2) auto
  show ?thesis
  proof (cases sched)
    case False
    with st f1 f2 idle show ?thesis by auto
  next
    case True
    obtain t out oc where gl: "gameLoop lv e1 s = (t, out, oc)"
      by (cases "gameLoop lv e1 s") auto
    have r: "s' = t" "sched' = (oc = Rescheduled)" "evs = out"
      using st f1 True gl by simp_all
    from gameLoop_quiet [OF nw idle gl] q r True f2 show ?thesis by simp
  qed
next
  case (KeyDown k)
  with si have "i2 = i1" by simp
  with st idle KeyDown show ?thesis by (auto simp: smallBossActive_def)
next
  case (KeyUp k)
  with si have "i2 = i1" by simp
  with st idle KeyUp show ?thesis by (auto simp: smallBossActive_def)
next
  case (PointerMove x)
  with si have "i2 = i1" by simp
  with st idle PointerMove show ?thesis by (auto simp: smallBossActive_def)
next
  case Click
  with si have "i2 = i1" by simp
  with st idle Click show ?thesis by (auto simp: smallBossActive_def)
next
  case PauseToggle
  with si have "i2 = i1" by simp
  with st idle PauseToggle show ?thesis by (auto simp: smallBossActive_def)
qed

lemma run_quiet:
  assumes "list_all2 (sameInput lv) ins1 ins2" and "\<not> smallBossActive s"
    and "run lv ins1 (s, sched) = ((s', sched'), evs)"
    and "activeBricks s' = activeBricks s"
  shows "run lv ins2 (s, sched) = ((s', sched'), evs)"
  using assms
proof (induction ins1 ins2 arbitrary: s sched s' sched' evs rule: list_all2_induct)
  case Nil
  then show ?case by simp
next
  case (Cons i1 ins1 i2 ins2)
  obtain s1 sched1 evs1 where st: "step lv i1 (s, sched) = ((s1, sched1), evs1)"
    by (cases "step lv i1 (s, sched)") auto
  obtain s2 sched2 evs2 where rn: "run lv ins1 (s1, sched1) = ((s2, sched2), evs2)"
    by (cases "run lv ins1 (s1, sched1)") auto
  from Cons.prems(2) st rn have r: "s' = s2" "sched' = sched2" "evs = evs1 @ evs2" by simp_all
  have a1: "activeBricks s1 = activeBricks s" and a2: "activeBricks s2 = activeBricks s1"
    using step_le [OF st] run_le [OF rn] Cons.prems(3) r(1) by simp_all
  from step_quiet [OF Cons.hyps(1) Cons.prems(1) st a1]
  have st2: "step lv i2 (s, sched) = ((s1, sched1), evs1)" and idle1: "\<not> smallBossActive s1"
    by simp_all
  from Cons.IH [OF idle1 rn a2] have "run lv ins2 (s1, sched1) = ((s2, sched2), evs2)" by (simp add: r)
  with st2 r show ?case by simp
qed

lemma run_append:
  "run lv (xs @ ys) c =
     (case run lv xs c of (c1, evs1) \<Rightarrow> (case run lv ys c1 of (c2, evs2) \<Rightarrow> (c2, evs1 @ evs2)))"
  by (induction xs arbitrary: c) (simp_all add: split_beta)


subsection \<open>Example frames\<close>

lemma collidingBricks_prefix:
  assumes "bricks s = ks @ ds" "\<forall>d \<in> set ds. hits d \<le> 0"
  shows "collidingBricks s b =
           filter (\<lambda>i. hits (ks ! i) > 0 \<and> overlapsBrick b (ks ! i)) (rev [0 ..< length ks])"
proof -
  let ?P = "\<lambda>i. hits ((ks @ ds) ! i) > 0 \<and> overlapsBrick b ((ks @ ds) ! i)"
  let ?Q = "\<lambda>i. hits (ks ! i) > 0 \<and> overlapsBrick b (ks ! i)"
  have split: "[0 ..< length ks + length ds] =
      [0 ..< length ks] @ [length ks ..< length ks + length ds]"
    by (rule upt_add_eq_append) simp
  have dead: "filter ?P [length ks ..< length ks + length ds] = []"
    using assms(2) by (auto simp: filter_empty_conv nth_append not_less)
  have live: "filter ?P [0 ..< length ks] = filter ?Q [0 ..< length ks]"
    by (rule filter_cong) (simp_all add: nth_append)
  have "collidingBricks s b = rev (filter ?P [0 ..< length ks + length ds])"
    by (simp only: collidingBricks_def assms(1) length_append rev_filter)
  also have "\<dots> = rev (filter ?P [0 ..< length ks] @ filter ?P [length ks ..< length ks + length ds])"
    by (simp only: split filter_append)
  also have "\<dots> = rev (filter ?Q [0 ..< length ks])"
    by (simp only: dead live append_Nil2)
  finally show ?thesis by (simp only: rev_filter)
qed

lemma topBricks:
  "take 8 (initBricks level1) =
     [initBrick level1 0 0, initBrick level1 0 1, initBrick level1 0 2, initBrick level1 0 3,
      initBrick level1 0 4, initBrick level1 0 5, initBrick level1 1 0, initBrick level1 1 1]"
  "length (initBricks level1) = 24"
  by (simp_all add: initBricks_def level1_def upt_conv_Cons eval_nat_numeral)

lemma firstBrick:
  "initBrick level1 0 0 = \<lparr>brick_x = 40, brick_y = 50, brick_width = 335 / 3, brick_height = 45,
      hits = 1, maxHits = 1, brick_color = ''#00d4ff'', originalX = None, originalY = None\<rparr>"
  by (simp add: initBrick_def level1_def levelColors_def canvas_width_def Let_def)

lemma initBricks_first: "initBricks level1 = initBrick level1 0 0 # drop 1 (initBricks level1)"
  by (simp add: initBricks_def level1_def upt_conv_Cons eval_nat_numeral)

lemma topBricks7:
  "take 7 (initBricks level1) =
     [initBrick level1 0 0, initBrick level1 0 1, initBrick level1 0 2, initBrick level1 0 3,
      initBrick level1 0 4, initBrick level1 0 5, initBrick level1 1 0]"
proof -
  have "take 7 (initBricks level1) = take 7 (take 8 (initBricks level1))" by simp
  then show ?thesis unfolding topBricks(1) by simp
qed

lemma partlyCleared_colliding:
  assumes "bricks s = bricks partlyCleared"
  shows "collidingBricks s \<lparr>ball_x = 30, ball_y = 60, ball_dx = 363 / 100, ball_dy = - (121 / 25),
            ball_radius = 15\<rparr> = [0]"
proof -
  have b: "bricks s = take 8 (initBricks level1) @ map destroyed (drop 8 (initBricks level1))"
    using assms by (simp add: partlyCleared_def)
  have d: "\<forall>d \<in> set (map destroyed (drop 8 (initBricks level1))). hits d \<le> 0"
    by (simp add: destroyed_def)
  show ?thesis
    unfolding collidingBricks_prefix [OF b d] topBricks(1)
    by (simp add: initBrick_def level1_def canvas_width_def overlapsBrick_def Let_def
        upt_conv_Cons eval_nat_numeral)
qed

lemma partlyCleared_bricks:
  "bricks partlyCleared ! 0 = initBrick level1 0 0"
  "length (bricks partlyCleared) = 24"
  "activeBricks partlyCleared = 8"
proof -
  show "bricks partlyCleared ! 0 = initBrick level1 0 0"
    by (simp add: partlyCleared_def topBricks(1))
  show "length (bricks partlyCleared) = 24"
    using topBricks(2) by (simp add: partlyCleared_def)
  have "filter (\<lambda>b. hits b > 0) (map destroyed (drop 8 (initBricks level1))) = []"
    by (simp add: filter_empty_conv destroyed_def)
  moreover have "length (filter (\<lambda>b. hits b > 0) (take 8 (initBricks level1))) = 8"
    unfolding topBricks(1) by (simp add: initBrick_def level1_def Let_def)
  ultimately show "activeBricks partlyCleared = 8"
    by (simp add: activeBricks_def partlyCleared_def)
qed

lemma side_hit_head:
  "movePaddle partlyCleared = partlyCleared"
  "holdBalls partlyCleared = Some partlyCleared"
  "paddleWidth partlyCleared = 168" "paddleX partlyCleared = 321"
  "frameHead level1 e 321 168 partlyCleared = (partlyCleared\<lparr>balls := [sideBallMoved]\<rparr>, [], 0)"
  "ballLossPhase (partlyCleared\<lparr>balls := [sideBallMoved]\<rparr>) =
     (partlyCleared\<lparr>balls := [sideBallMoved]\<rparr>, None)"
proof -
  let ?S = partlyCleared
  define S1 where "S1 = ?S\<lparr>balls := [sideBallMoved]\<rparr>"
  note st = S1_def partlyCleared_def initState_def
  show "movePaddle ?S = ?S"
    by (simp add: movePaddle_def st Let_def)
  show "holdBalls ?S = Some ?S"
    by (simp add: holdBalls_def st)
  show "paddleWidth ?S = 168" "paddleX ?S = 321"
    by (simp_all add: paddleWidth_def paddleX_def st canvas_width_def)
  have p4: "smallBossMovementPhase (bossMovementPhase (moveBalls ?S)) = S1"
    by (simp add: moveBalls_def moveBall_def bossMovementPhase_def smallBossMovementPhase_def
        sideBall_def sideBallMoved_def st)
  have p5: "brickMovementPhase level1 e S1 = (S1, [])"
    by (simp add: brickMovementPhase_def level1_def)
  have p6: "updateFireballs S1 321 168 = (S1, [])"
    by (simp add: updateFireballs_def st)
  have p7: "smallBossFirePhase e S1 = (S1, 0)"
    by (simp add: smallBossFirePhase_def st)
  have p8: "ballCollisions S1 321 168 = S1"
    by (simp add: ballCollisions_def wallCollision_def paddleCollision_def shieldCollision_def
        touchesShield_def sideBallMoved_def canvas_height_def canvas_width_def st Let_def)
  show "frameHead level1 e 321 168 ?S = (?S\<lparr>balls := [sideBallMoved]\<rparr>, [], 0)"
    by (simp add: frameHead_def p4 p5 p6 p7 p8 Let_def flip: S1_def)
  show "ballLossPhase (?S\<lparr>balls := [sideBallMoved]\<rparr>) = (?S\<lparr>balls := [sideBallMoved]\<rparr>, None)"
    by (simp add: ballLossPhase_def ballIsLost_def sideBallMoved_def canvas_height_def
        partlyCleared_def initState_def Let_def)
qed

lemma side_hit_bricks:
  "brickPhase e 8 0 (partlyCleared\<lparr>balls := [sideBallMoved]\<rparr>) =
     (if random e 0 < 1 / 4
      then (partlyCleared\<lparr>balls := [sideBallMoved\<lparr>ball_dx := - (363 / 100)\<rparr>],
              bricks := (bricks partlyCleared)[0 := destroyed (initBrick level1 0 0)],
              score := 170,
              powerups := [droppedPowerup (randomType (random e 1)) (145 / 2)]\<rparr>, [], 2)
      else (partlyCleared\<lparr>balls := [sideBallMoved\<lparr>ball_dx := - (363 / 100)\<rparr>],
              bricks := (bricks partlyCleared)[0 := destroyed (initBrick level1 0 0)],
              score := 170\<rparr>, [], 1))"
proof -
  define S1 where "S1 = partlyCleared\<lparr>balls := [sideBallMoved]\<rparr>"
  define k1 where "k1 = destroyed (initBrick level1 0 0)"
  define S2 where "S2 = S1\<lparr>bricks := (bricks S1)[0 := k1]\<rparr>"
  have br: "bricks S1 = bricks partlyCleared" by (simp add: S1_def)
  have col: "collidingBricks S1 sideBallMoved = [0]"
    using partlyCleared_colliding [OF br] by (simp add: sideBallMoved_def)
  have b0: "bricks S1 ! 0 = initBrick level1 0 0" "length (bricks S1) = 24"
    using partlyCleared_bricks br by simp_all
  have fields: "boss S1 = None" "smallBoss S1 = None" "debuffDamage S1 = 0" "damageBonus S1 = 0"
    "tempDamage S1 = 0" "\<not> doublePointsActive S1" "score S1 = 160" "powerups S1 = []"
    by (simp_all add: S1_def partlyCleared_def initState_def)
  have bc: "bossCollision S1 sideBallMoved = (S1, sideBallMoved)"
    by (simp add: bossCollision_def fields)
  have sc: "smallBossCollision S1 sideBallMoved = S1"
    by (simp add: smallBossCollision_def fields)
  have bn: "bounceSingle sideBallMoved (bricks S1 ! 0) = sideBallMoved\<lparr>ball_dx := - (363 / 100)\<rparr>"
    by (simp add: b0 firstBrick bounceSingle_def overlapX_def overlapY_def sideBallMoved_def)
  have k1: "(bricks S1 ! 0)\<lparr>hits := hits (bricks S1 ! 0) - (1 + damageBonus S1 + tempDamage S1)\<rparr> = k1"
    by (simp add: b0 fields k1_def destroyed_def firstBrick)
  have hk: "hits k1 = 0" "maxHits k1 = 1" "brick_x k1 = 40" "brick_y k1 = 50"
    "brick_width k1 = 335 / 3" "brick_height k1 = 45"
    by (simp_all add: k1_def destroyed_def firstBrick)
  have s2: "bricks S2 ! 0 = k1" "length (bricks S2) = 24" "score S2 = 160"
    "\<not> doublePointsActive S2" "smallBoss S2 = None" "powerups S2 = []"
    using b0 fields by (simp_all add: S2_def)
  have bd: "brickDestroyed e 8 0 (S2, [], 0) =
      (if random e 0 < 1 / 4
       then (S2\<lparr>score := 170, powerups := [droppedPowerup (randomType (random e 1)) (145 / 2)]\<rparr>,
             [], 2)
       else (S2\<lparr>score := 170\<rparr>, [], 1))"
    by (simp add: brickDestroyed_def s2 hk smallBossSpawned_def droppedPowerup_def Let_def)
  have dm: "damageBricks e 8 (S1, [], 0) [0] = brickDestroyed e 8 0 (S2, [], 0)"
    using fields(3)
    by (simp add: Let_def S2_def k1_def destroyed_def b0 firstBrick fields(4,5))
  have step: "ballBrickStep e 8 (S1, [], 0) sideBallMoved =
      (brickDestroyed e 8 0 (S2, [], 0), sideBallMoved\<lparr>ball_dx := - (363 / 100)\<rparr>)"
    by (simp add: ballBrickStep_def col bc sc bn dm del: damageBricks.simps)
  have bl: "balls S1 = [sideBallMoved]" by (simp add: S1_def)
  have "brickPhase e 8 0 S1 =
      brickLoop e 8 (brickDestroyed e 8 0 (S2, [], 0)) [sideBallMoved\<lparr>ball_dx := - (363 / 100)\<rparr>] []"
    by (simp add: brickPhase_def bl step)
  then show ?thesis
    unfolding bd by (simp add: S2_def S1_def k1_def)
qed

lemma side_hit_timers:
  assumes "s = partlyCleared\<lparr>balls := bs, bricks := ks, score := sc, powerups := ps\<rparr>"
  shows "updateTimeSpeed (updateTimers s) = s\<lparr>timeElapsed := 1\<rparr>"
  unfolding assms
  by (simp add: updateTimers_def updateTimeSpeed_def tempDamageTick_def debuffDamageTick_def
      paddleSizeTick_def ballSpeedTick_def shieldTick_def doublePointsTick_def
      partlyCleared_def initState_def Let_def)

lemma side_hit_end:
  assumes "boss s = None" "bossDestructionTimer s = 0"
  shows "winCheck level1 8 s = (s, None)" "bossDefeatCheck s = s"
    "destructionCountdown s = (s, None)"
  using assms by (simp_all add: winCheck_def bossDefeatCheck_def destructionCountdown_def)

lemma side_hit_frame_no_drop:
  assumes "\<not> random e 0 < 1 / 4"
  shows "gameLoop level1 e partlyCleared = (afterSideHit [], [], Rescheduled)"
proof -
  define S1 where "S1 = partlyCleared\<lparr>balls := [sideBallMoved]\<rparr>"
  define S2 where "S2 = partlyCleared\<lparr>balls := [sideBallMoved\<lparr>ball_dx := - (363 / 100)\<rparr>],
              bricks := (bricks partlyCleared)[0 := destroyed (initBrick level1 0 0)],
              score := 170, powerups := []\<rparr>"
  have run: "isRunning partlyCleared" "\<not> isPaused partlyCleared"
    by (simp_all add: partlyCleared_def initState_def)
  have ab: "activeBricks S1 = 8"
    using partlyCleared_bricks(3) by (simp add: activeBricks_def S1_def)
  have ps0: "partlyCleared\<lparr>powerups := []\<rparr> = partlyCleared"
    by (simp add: partlyCleared_def initState_def)
  have bp: "brickPhase e 8 0 S1 = (S2, [], 1)"
    unfolding S1_def S2_def side_hit_bricks using assms
    by (simp add: partlyCleared_def initState_def)
  have tm: "updateTimeSpeed (updateTimers S2) = S2\<lparr>timeElapsed := 1\<rparr>"
    by (rule side_hit_timers) (simp add: S2_def)
  have pp: "powerupPhase level1 321 168 (S2\<lparr>timeElapsed := 1\<rparr>) = (S2\<lparr>timeElapsed := 1\<rparr>, False)"
    by (simp add: powerupPhase_def S2_def)
  have en: "winCheck level1 8 (S2\<lparr>timeElapsed := 1\<rparr>) = (S2\<lparr>timeElapsed := 1\<rparr>, None)"
    "bossDefeatCheck (S2\<lparr>timeElapsed := 1\<rparr>) = S2\<lparr>timeElapsed := 1\<rparr>"
    "destructionCountdown (S2\<lparr>timeElapsed := 1\<rparr>) = (S2\<lparr>timeElapsed := 1\<rparr>, None)"
    by (rule side_hit_end; simp add: S2_def partlyCleared_def initState_def)+
  have ft: "frameTail level1 e 321 168 0 [] S1 = (S2\<lparr>timeElapsed := 1\<rparr>, [], Rescheduled)"
    by (simp add: frameTail_def ab bp tm pp en Let_def)
  have "gameLoop level1 e partlyCleared = (S2\<lparr>timeElapsed := 1\<rparr>, [], Rescheduled)"
    by (simp add: gameLoop_def run side_hit_head ft [unfolded S1_def] Let_def)
  also have "S2\<lparr>timeElapsed := 1\<rparr> = afterSideHit []"
    by (simp add: S2_def afterSideHit_def)
  finally show ?thesis .
qed

lemma side_hit_frame_drop:
  assumes "random e 0 < 1 / 4"
  shows "gameLoop level1 e partlyCleared =
    (afterSideHit [droppedPowerup (randomType (random e 1)) (149 / 2)], [], Rescheduled)"
proof -
  define S1 where "S1 = partlyCleared\<lparr>balls := [sideBallMoved]\<rparr>"
  define P where "P = droppedPowerup (randomType (random e 1))"
  define S2 where "S2 = partlyCleared\<lparr>balls := [sideBallMoved\<lparr>ball_dx := - (363 / 100)\<rparr>],
              bricks := (bricks partlyCleared)[0 := destroyed (initBrick level1 0 0)],
              score := 170, powerups := [P (145 / 2)]\<rparr>"
  define S3 where "S3 = S2\<lparr>timeElapsed := 1\<rparr>"
  have run: "isRunning partlyCleared" "\<not> isPaused partlyCleared"
    by (simp_all add: partlyCleared_def initState_def)
  have ab: "activeBricks S1 = 8"
    using partlyCleared_bricks(3) by (simp add: activeBricks_def S1_def)
  have bp: "brickPhase e 8 0 S1 = (S2, [], 2)"
    unfolding S1_def S2_def P_def side_hit_bricks using assms by simp
  have tm: "updateTimeSpeed (updateTimers S2) = S3"
    unfolding S3_def by (rule side_hit_timers) (simp add: S2_def)
  have pd: "paddle S3 = paddle (initState level1)" "powerups S3 = [P (145 / 2)]"
    by (simp_all add: S3_def S2_def partlyCleared_def)
  have pp: "powerupPhase level1 321 168 S3 = (S3\<lparr>powerups := [P (149 / 2)]\<rparr>, False)"
    by (simp add: powerupPhase_def pd powerupHitsPaddle_def P_def droppedPowerup_def
        canvas_height_def initState_def)
  have en: "winCheck level1 8 (S3\<lparr>powerups := [P (149 / 2)]\<rparr>) = (S3\<lparr>powerups := [P (149 / 2)]\<rparr>, None)"
    "bossDefeatCheck (S3\<lparr>powerups := [P (149 / 2)]\<rparr>) = S3\<lparr>powerups := [P (149 / 2)]\<rparr>"
    "destructionCountdown (S3\<lparr>powerups := [P (149 / 2)]\<rparr>) = (S3\<lparr>powerups := [P (149 / 2)]\<rparr>, None)"
    by (rule side_hit_end; simp add: S3_def S2_def partlyCleared_def initState_def)+
  have ft: "frameTail level1 e 321 168 0 [] S1 = (S3\<lparr>powerups := [P (149 / 2)]\<rparr>, [], Rescheduled)"
    by (simp add: frameTail_def ab bp tm pp en Let_def)
  have "gameLoop level1 e partlyCleared = (S3\<lparr>powerups := [P (149 / 2)]\<rparr>, [], Rescheduled)"
    by (simp add: gameLoop_def run side_hit_head ft [unfolded S1_def] Let_def)
  also have "S3\<lparr>powerups := [P (149 / 2)]\<rparr> = afterSideHit [P (149 / 2)]"
    by (simp add: S3_def S2_def afterSideHit_def)
  finally show ?thesis unfolding P_def .
qed

lemma afterSideHit_bricks:
  "activeBricks (afterSideHit ps) = 7" "length (bricks (afterSideHit ps)) = 24"
  "smallBoss (afterSideHit ps) = None" "powerups (afterSideHit ps) = ps"
proof -
  have "activeBricks (afterSideHit ps) =
      activeBricks (partlyCleared\<lparr>bricks :=
        (bricks partlyCleared)[0 := destroyed (initBrick level1 0 0)]\<rparr>)"
    by (simp add: activeBricks_def afterSideHit_def)
  also have "\<dots> = 7"
    using activeBricks_update [of 0 partlyCleared "destroyed (initBrick level1 0 0)"]
      partlyCleared_bricks
    by (simp add: destroyed_def firstBrick)
  finally show "activeBricks (afterSideHit ps) = 7" .
  show "length (bricks (afterSideHit ps)) = 24"
    using partlyCleared_bricks(2) by (simp add: afterSideHit_def)
  show "smallBoss (afterSideHit ps) = None" "powerups (afterSideHit ps) = ps"
    by (simp_all add: afterSideHit_def partlyCleared_def initState_def)
qed

lemma nearlyCleared_bricks:
  "bricks nearlyCleared ! 0 = initBrick level1 0 0"
  "length (bricks nearlyCleared) = 24"
  "activeBricks nearlyCleared = 7"
proof -
  show "bricks nearlyCleared ! 0 = initBrick level1 0 0"
    by (simp add: nearlyCleared_def topBricks7)
  show "length (bricks nearlyCleared) = 24"
    using topBricks(2) by (simp add: nearlyCleared_def)
  have "filter (\<lambda>b. hits b > 0) (map destroyed (drop 7 (initBricks level1))) = []"
    by (simp add: filter_empty_conv destroyed_def)
  moreover have "length (filter (\<lambda>b. hits b > 0) (take 7 (initBricks level1))) = 7"
    unfolding topBricks7 by (simp add: initBrick_def level1_def Let_def)
  ultimately show "activeBricks nearlyCleared = 7"
    by (simp add: activeBricks_def nearlyCleared_def)
qed

lemma nearlyCleared_colliding:
  assumes "bricks s = bricks nearlyCleared"
  shows "collidingBricks s sideBallMoved = [0]"
proof -
  have b: "bricks s = take 7 (initBricks level1) @ map destroyed (drop 7 (initBricks level1))"
    using assms by (simp add: nearlyCleared_def)
  have d: "\<forall>d \<in> set (map destroyed (drop 7 (initBricks level1))). hits d \<le> 0"
    by (simp add: destroyed_def)
  show ?thesis
    unfolding collidingBricks_prefix [OF b d] topBricks7
    by (simp add: initBrick_def level1_def canvas_width_def overlapsBrick_def sideBallMoved_def
        Let_def upt_conv_Cons eval_nat_numeral)
qed

lemma spawn_frame:
  "gameLoop level1 env0 nearlyCleared = (afterSpawn, [SpawnSmallBoss], Rescheduled)"
proof -
  let ?S = nearlyCleared
  define S1 where "S1 = ?S\<lparr>balls := [sideBallMoved]\<rparr>"
  define k1 where "k1 = destroyed (initBrick level1 0 0)"
  define S2 where "S2 = S1\<lparr>bricks := (bricks S1)[0 := k1]\<rparr>"
  define S3 where "S3 = S2\<lparr>score := 180, smallBoss := Some spawnedSmallBoss\<rparr>"
  define S4 where "S4 = S3\<lparr>balls := [sideBallMoved\<lparr>ball_dx := - (363 / 100)\<rparr>]\<rparr>"
  define S5 where "S5 = S4\<lparr>timeElapsed := 1\<rparr>"
  note st = nearlyCleared_def partlyCleared_def initState_def
  have run: "isRunning ?S" "\<not> isPaused ?S"
    by (simp_all add: st)
  have p1: "movePaddle ?S = ?S"
    by (simp add: movePaddle_def st Let_def)
  have p2: "holdBalls ?S = Some ?S"
    by (simp add: holdBalls_def st)
  have p3: "paddleWidth ?S = 168" "paddleX ?S = 321"
    by (simp_all add: paddleWidth_def paddleX_def st canvas_width_def)
  have p4: "smallBossMovementPhase (bossMovementPhase (moveBalls ?S)) = S1"
    by (simp add: moveBalls_def moveBall_def bossMovementPhase_def smallBossMovementPhase_def
        sideBall_def sideBallMoved_def S1_def st)
  have p5: "brickMovementPhase level1 env0 S1 = (S1, [])"
    by (simp add: brickMovementPhase_def level1_def)
  have p6: "updateFireballs S1 321 168 = (S1, [])"
    by (simp add: updateFireballs_def S1_def st)
  have p7: "smallBossFirePhase env0 S1 = (S1, 0)"
    by (simp add: smallBossFirePhase_def S1_def st)
  have p8: "ballCollisions S1 321 168 = S1"
    by (simp add: ballCollisions_def wallCollision_def paddleCollision_def shieldCollision_def
        touchesShield_def sideBallMoved_def canvas_height_def canvas_width_def S1_def st Let_def)
  have p9: "ballLossPhase S1 = (S1, None)"
    by (simp add: ballLossPhase_def ballIsLost_def sideBallMoved_def canvas_height_def S1_def st
        Let_def)
  have br: "bricks S1 = bricks nearlyCleared" by (simp add: S1_def)
  have ab: "activeBricks S1 = 7"
    using nearlyCleared_bricks(3) by (simp add: activeBricks_def S1_def)
  have col: "collidingBricks S1 sideBallMoved = [0]"
    by (rule nearlyCleared_colliding [OF br])
  have b0: "bricks S1 ! 0 = initBrick level1 0 0" "length (bricks S1) = 24"
    using nearlyCleared_bricks(1,2) br by simp_all
  have fields: "boss S1 = None" "smallBoss S1 = None" "debuffDamage S1 = 0"
    "damageBonus S1 = 0" "tempDamage S1 = 0" "\<not> doublePointsActive S1" "score S1 = 170"
    "powerups S1 = []" "balls S1 = [sideBallMoved]"
    by (simp_all add: S1_def st)
  have bc: "bossCollision S1 sideBallMoved = (S1, sideBallMoved)"
    by (simp add: bossCollision_def fields)
  have sc: "smallBossCollision S1 sideBallMoved = S1"
    by (simp add: smallBossCollision_def fields)
  have bn: "bounceSingle sideBallMoved (bricks S1 ! 0) = sideBallMoved\<lparr>ball_dx := - (363 / 100)\<rparr>"
    by (simp add: b0 firstBrick bounceSingle_def overlapX_def overlapY_def sideBallMoved_def)
  have hk: "hits k1 = 0" "maxHits k1 = 1"
    by (simp_all add: k1_def destroyed_def firstBrick)
  have s2: "bricks S2 ! 0 = k1" "length (bricks S2) = 24" "score S2 = 170"
    "\<not> doublePointsActive S2" "smallBoss S2 = None" "powerups S2 = []"
    using b0 fields by (simp_all add: S2_def)
  have bd: "brickDestroyed env0 7 0 (S2, [], 0) = (S3, [SpawnSmallBoss], 4)"
    by (simp add: brickDestroyed_def s2 hk smallBossSpawned_def spawnSmallBoss_def env0_def
        spawnedSmallBoss_def canvas_width_def canvas_height_def S3_def Let_def)
  have dm: "damageBricks env0 7 (S1, [], 0) [0] = brickDestroyed env0 7 0 (S2, [], 0)"
    using fields(3)
    by (simp add: Let_def S2_def k1_def destroyed_def b0 firstBrick fields(4,5))
  have step: "ballBrickStep env0 7 (S1, [], 0) sideBallMoved =
      ((S3, [SpawnSmallBoss], 4), sideBallMoved\<lparr>ball_dx := - (363 / 100)\<rparr>)"
    by (simp add: ballBrickStep_def col bc sc bn dm bd del: damageBricks.simps)
  have q2: "brickPhase env0 7 0 S1 = (S4, [SpawnSmallBoss], 4)"
    by (simp add: brickPhase_def fields(9) step S4_def)
  have q3: "updateTimeSpeed (updateTimers S4) = S5"
    by (simp add: updateTimers_def tempDamageTick_def debuffDamageTick_def paddleSizeTick_def
        ballSpeedTick_def shieldTick_def doublePointsTick_def updateTimeSpeed_def
        S5_def S4_def S3_def S2_def S1_def st Let_def)
  have f5: "powerups S5 = []" "boss S5 = None" "bossDestructionTimer S5 = 0"
    by (simp_all add: S5_def S4_def S3_def S2_def S1_def st)
  have q4: "powerupPhase level1 321 168 S5 = (S5, False)"
    using f5(1) by (simp add: powerupPhase_def)
  have q5: "winCheck level1 7 S5 = (S5, None)"
    by (simp add: winCheck_def)
  have q6: "bossDefeatCheck S5 = S5" "destructionCountdown S5 = (S5, None)"
    using f5 by (simp_all add: bossDefeatCheck_def destructionCountdown_def)
  have ft: "frameTail level1 env0 321 168 0 [] S1 = (S5, [SpawnSmallBoss], Rescheduled)"
    by (simp add: frameTail_def ab q2 q3 q4 q5 q6 Let_def)
  have gl: "gameLoop level1 env0 ?S = (S5, [SpawnSmallBoss], Rescheduled)"
    by (simp add: gameLoop_def frameHead_def run p1 p2 p3 p4 p5 p6 p7 p8 p9 ft Let_def)
  have "S5 = afterSpawn"
    by (simp add: S5_def S4_def S3_def S2_def S1_def k1_def afterSpawn_def)
  with gl show ?thesis by simp
qed

lemma afterSpawn_bricks: "activeBricks afterSpawn = 6"
proof -
  have "activeBricks afterSpawn =
      activeBricks (nearlyCleared\<lparr>bricks :=
        (bricks nearlyCleared)[0 := destroyed (initBrick level1 0 0)]\<rparr>)"
    by (simp add: activeBricks_def afterSpawn_def)
  also have "\<dots> = 6"
    using activeBricks_update [of 0 nearlyCleared "destroyed (initBrick level1 0 0)"]
      nearlyCleared_bricks
    by (simp add: destroyed_def firstBrick)
  finally show ?thesis .
qed

lemma lastBrick_bricks:
  "bricks lastBrick ! 0 = initBrick level1 0 0" "length (bricks lastBrick) = 24"
  "activeBricks lastBrick = 1"
  "(bricks lastBrick)[0 := destroyed (initBrick level1 0 0)] = map destroyed (initBricks level1)"
proof -
  show "bricks lastBrick ! 0 = initBrick level1 0 0" by (simp add: lastBrick_def)
  show "length (bricks lastBrick) = 24" by (simp add: lastBrick_def topBricks(2))
  have "filter (\<lambda>k. hits k > 0) (map destroyed (drop 1 (initBricks level1))) = []"
    by (simp add: filter_empty_conv destroyed_def)
  then show "activeBricks lastBrick = 1"
    by (simp add: activeBricks_def lastBrick_def firstBrick)
  have "map destroyed (initBricks level1) =
      destroyed (initBrick level1 0 0) # map destroyed (drop 1 (initBricks level1))"
    by (subst initBricks_first) (simp only: list.map)
  then show "(bricks lastBrick)[0 := destroyed (initBrick level1 0 0)] =
      map destroyed (initBricks level1)"
    by (simp add: lastBrick_def)
qed

lemma lastBrick_colliding:
  assumes "bricks s = bricks lastBrick"
  shows "collidingBricks s sideBallMoved = [0]"
proof -
  have b: "bricks s = [initBrick level1 0 0] @ map destroyed (drop 1 (initBricks level1))"
    using assms by (simp add: lastBrick_def)
  have d: "\<forall>d \<in> set (map destroyed (drop 1 (initBricks level1))). hits d \<le> 0"
    by (simp add: destroyed_def)
  show ?thesis
    unfolding collidingBricks_prefix [OF b d]
    by (simp add: firstBrick overlapsBrick_def sideBallMoved_def)
qed

lemma last_hit_frame:
  "gameLoop level1 env0 lastBrick = (allCleared, [], Rescheduled)"
proof -
  let ?S = lastBrick
  define S1 where "S1 = ?S\<lparr>balls := [sideBallMoved]\<rparr>"
  define k1 where "k1 = destroyed (initBrick level1 0 0)"
  define S2 where "S2 = S1\<lparr>bricks := (bricks S1)[0 := k1]\<rparr>"
  define S3 where "S3 = S2\<lparr>score := 240\<rparr>"
  define S4 where "S4 = S3\<lparr>balls := [sideBallMoved\<lparr>ball_dx := - (363 / 100)\<rparr>]\<rparr>"
  define S5 where "S5 = S4\<lparr>timeElapsed := 1\<rparr>"
  note st = lastBrick_def lateGame_def initState_def
  have run: "isRunning ?S" "\<not> isPaused ?S"
    by (simp_all add: st)
  have p1: "movePaddle ?S = ?S"
    by (simp add: movePaddle_def st Let_def)
  have p2: "holdBalls ?S = Some ?S"
    by (simp add: holdBalls_def st)
  have p3: "paddleWidth ?S = 168" "paddleX ?S = 321"
    by (simp_all add: paddleWidth_def paddleX_def st canvas_width_def)
  have p4: "smallBossMovementPhase (bossMovementPhase (moveBalls ?S)) = S1"
    by (simp add: moveBalls_def moveBall_def bossMovementPhase_def smallBossMovementPhase_def
        expiredSmallBoss_def sideBall_def sideBallMoved_def S1_def st)
  have p5: "brickMovementPhase level1 env0 S1 = (S1, [])"
    by (simp add: brickMovementPhase_def level1_def)
  have p6: "updateFireballs S1 321 168 = (S1, [])"
    by (simp add: updateFireballs_def S1_def st)
  have p7: "smallBossFirePhase env0 S1 = (S1, 0)"
    by (simp add: smallBossFirePhase_def expiredSmallBoss_def S1_def st)
  have p8: "ballCollisions S1 321 168 = S1"
    by (simp add: ballCollisions_def wallCollision_def paddleCollision_def shieldCollision_def
        touchesShield_def sideBallMoved_def canvas_height_def canvas_width_def S1_def st Let_def)
  have p9: "ballLossPhase S1 = (S1, None)"
    by (simp add: ballLossPhase_def ballIsLost_def sideBallMoved_def canvas_height_def S1_def st
        Let_def)
  have br: "bricks S1 = bricks lastBrick" by (simp add: S1_def)
  have ab: "activeBricks S1 = 1"
    using lastBrick_bricks(3) by (simp add: activeBricks_def S1_def)
  have col: "collidingBricks S1 sideBallMoved = [0]"
    by (rule lastBrick_colliding [OF br])
  have b0: "bricks S1 ! 0 = initBrick level1 0 0" "length (bricks S1) = 24"
    using lastBrick_bricks(1,2) br by simp_all
  have fields: "boss S1 = None" "smallBoss S1 = Some expiredSmallBoss" "debuffDamage S1 = 0"
    "damageBonus S1 = 0" "tempDamage S1 = 0" "\<not> doublePointsActive S1" "score S1 = 230"
    "powerups S1 = []" "balls S1 = [sideBallMoved]"
    by (simp_all add: S1_def st)
  have bc: "bossCollision S1 sideBallMoved = (S1, sideBallMoved)"
    by (simp add: bossCollision_def fields)
  have sc: "smallBossCollision S1 sideBallMoved = S1"
    by (simp add: smallBossCollision_def fields expiredSmallBoss_def)
  have bn: "bounceSingle sideBallMoved (bricks S1 ! 0) = sideBallMoved\<lparr>ball_dx := - (363 / 100)\<rparr>"
    by (simp add: b0 firstBrick bounceSingle_def overlapX_def overlapY_def sideBallMoved_def)
  have hk: "hits k1 = 0" "maxHits k1 = 1"
    by (simp_all add: k1_def destroyed_def firstBrick)
  have s2: "bricks S2 ! 0 = k1" "length (bricks S2) = 24" "score S2 = 230"
    "\<not> doublePointsActive S2" "smallBoss S2 = Some expiredSmallBoss" "powerups S2 = []"
    using b0 fields by (simp_all add: S2_def)
  have bd: "brickDestroyed env0 1 0 (S2, [], 0) = (S3, [], 1)"
    by (simp add: brickDestroyed_def s2 hk smallBossSpawned_def expiredSmallBoss_def env0_def
        S3_def Let_def)
  have dm: "damageBricks env0 1 (S1, [], 0) [0] = brickDestroyed env0 1 0 (S2, [], 0)"
    using fields(3)
    by (simp add: Let_def S2_def k1_def destroyed_def b0 firstBrick fields(4,5))
  have step: "ballBrickStep env0 1 (S1, [], 0) sideBallMoved =
      ((S3, [], 1), sideBallMoved\<lparr>ball_dx := - (363 / 100)\<rparr>)"
    by (simp add: ballBrickStep_def col bc sc bn dm bd del: damageBricks.simps)
  have q2: "brickPhase env0 1 0 S1 = (S4, [], 1)"
    by (simp add: brickPhase_def fields(9) step S4_def)
  have q3: "updateTimeSpeed (updateTimers S4) = S5"
    by (simp add: updateTimers_def tempDamageTick_def debuffDamageTick_def paddleSizeTick_def
        ballSpeedTick_def shieldTick_def doublePointsTick_def updateTimeSpeed_def
        S5_def S4_def S3_def S2_def S1_def st Let_def)
  have f5: "powerups S5 = []" "boss S5 = None" "bossDestructionTimer S5 = 0"
    by (simp_all add: S5_def S4_def S3_def S2_def S1_def st)
  have q4: "powerupPhase level1 321 168 S5 = (S5, False)"
    using f5(1) by (simp add: powerupPhase_def)
  have q5: "winCheck level1 1 S5 = (S5, None)"
    by (simp add: winCheck_def)
  have q6: "bossDefeatCheck S5 = S5" "destructionCountdown S5 = (S5, None)"
    using f5 by (simp_all add: bossDefeatCheck_def destructionCountdown_def)
  have ft: "frameTail level1 env0 321 168 0 [] S1 = (S5, [], Rescheduled)"
    by (simp add: frameTail_def ab q2 q3 q4 q5 q6 Let_def)
  have gl: "gameLoop level1 env0 ?S = (S5, [], Rescheduled)"
    by (simp add: gameLoop_def frameHead_def run p1 p2 p3 p4 p5 p6 p7 p8 p9 ft Let_def)
  have "S5 = allCleared"
    using lastBrick_bricks(4)
    by (simp add: S5_def S4_def S3_def S2_def S1_def k1_def allCleared_def)
  with gl show ?thesis by simp
qed

lemma allCleared_facts:
  "bossConsistent level1 allCleared" "isRunning allCleared" "\<not> isPaused allCleared"
  "balls allCleared \<noteq> []" "activeBricks allCleared = 0" "bossDestructionTimer allCleared = 0"
proof -
  note st = allCleared_def lastBrick_def lateGame_def initState_def
  have dead: "\<forall>k \<in> set (bricks allCleared). hits k \<le> 0"
    by (simp add: allCleared_def destroyed_def)
  show "activeBricks allCleared = 0" by (rule no_live_bricks [OF dead])
  show "bossConsistent level1 allCleared" by (simp add: bossConsistent_def st)
  show "isRunning allCleared" "\<not> isPaused allCleared" "balls allCleared \<noteq> []"
    "bossDestructionTimer allCleared = 0"
    by (simp_all add: st)
qed

lemma win_frame:
  "gameLoop level1 env0 allCleared = (wonState, [OnGameOver 240 True], Stopped)"
proof -
  let ?S = allCleared
  let ?b = "\<lparr>ball_x = 2637 / 100, ball_y = 1379 / 25, ball_dx = - (363 / 100),
             ball_dy = - (121 / 25), ball_radius = 15\<rparr>"
  define S1 where "S1 = ?S\<lparr>balls := [?b]\<rparr>"
  define S2 where "S2 = S1\<lparr>timeElapsed := 2\<rparr>"
  note st = allCleared_def lastBrick_def lateGame_def initState_def
  have p1: "movePaddle ?S = ?S"
    by (simp add: movePaddle_def st Let_def)
  have p2: "holdBalls ?S = Some ?S"
    by (simp add: holdBalls_def st)
  have p3: "paddleWidth ?S = 168" "paddleX ?S = 321"
    by (simp_all add: paddleWidth_def paddleX_def st canvas_width_def)
  have p4: "smallBossMovementPhase (bossMovementPhase (moveBalls ?S)) = S1"
    by (simp add: moveBalls_def moveBall_def bossMovementPhase_def smallBossMovementPhase_def
        expiredSmallBoss_def sideBallMoved_def S1_def st)
  have p5: "brickMovementPhase level1 env0 S1 = (S1, [])"
    by (simp add: brickMovementPhase_def level1_def)
  have p6: "updateFireballs S1 321 168 = (S1, [])"
    by (simp add: updateFireballs_def S1_def st)
  have p7: "smallBossFirePhase env0 S1 = (S1, 0)"
    by (simp add: smallBossFirePhase_def expiredSmallBoss_def S1_def st)
  have p8: "ballCollisions S1 321 168 = S1"
    by (simp add: ballCollisions_def wallCollision_def paddleCollision_def shieldCollision_def
        touchesShield_def canvas_height_def canvas_width_def S1_def st Let_def)
  have p9: "ballLossPhase S1 = (S1, None)"
    by (simp add: ballLossPhase_def ballIsLost_def canvas_height_def S1_def st Let_def)
  have dead: "\<forall>k \<in> set (bricks S1). hits k \<le> 0"
    by (simp add: S1_def allCleared_def destroyed_def)
  have q1: "activeBricks S1 = 0"
    by (rule no_live_bricks [OF dead])
  have fields: "boss S1 = None" "smallBoss S1 = Some expiredSmallBoss" "balls S1 = [?b]"
    by (simp_all add: S1_def st)
  have q2: "brickPhase env0 0 0 S1 = (S1, [], 0)"
    using no_live_bricks(2) [OF dead, of ?b]
    by (simp add: brickPhase_def ballBrickStep_def bossCollision_def smallBossCollision_def
        expiredSmallBoss_def fields)
  have q3: "updateTimeSpeed (updateTimers S1) = S2"
    by (simp add: updateTimers_def tempDamageTick_def debuffDamageTick_def paddleSizeTick_def
        ballSpeedTick_def shieldTick_def doublePointsTick_def updateTimeSpeed_def
        S2_def S1_def st Let_def)
  have f2: "powerups S2 = []" "\<not> bossActive S2" "score S2 = 240"
    by (simp_all add: S2_def S1_def st)
  have q4: "powerupPhase level1 321 168 S2 = (S2, False)"
    using f2(1) by (simp add: powerupPhase_def)
  have q5: "winCheck level1 0 S2 = (S2\<lparr>isRunning := False\<rparr>, Some (OnGameOver 240 True))"
    using f2 by (simp add: winCheck_def level1_def)
  have ft: "frameTail level1 env0 321 168 0 [] S1 =
      (S2\<lparr>isRunning := False\<rparr>, [OnGameOver 240 True], Stopped)"
    by (simp add: frameTail_def q1 q2 q3 q4 q5 Let_def)
  have gl: "gameLoop level1 env0 ?S = (S2\<lparr>isRunning := False\<rparr>, [OnGameOver 240 True], Stopped)"
    by (simp add: gameLoop_def frameHead_def allCleared_facts p1 p2 p3 p4 p5 p6 p7 p8 p9 ft Let_def)
  have "S2\<lparr>isRunning := False\<rparr> = wonState"
    by (simp add: S2_def S1_def wonState_def)
  with gl show ?thesis by simp
qed

subsection \<open>The frames of a run from the start of a level\<close>

text \<open>
  The boss bookkeeping is consistent at the start of a level and a ball is present
  whenever a frame is scheduled; the input handlers and the frames keep both.
\<close>

lemma handlers_ready:
  "bossConsistent lv (handleKeyDown k s) = bossConsistent lv s"
  "bossConsistent lv (handleKeyUp k s) = bossConsistent lv s"
  "bossConsistent lv (handleClick lv s) = bossConsistent lv s"
  "balls (handleKeyDown k s) = balls s"
  "balls (handleKeyUp k s) = balls s"
  "balls s \<noteq> [] \<Longrightarrow> balls (handleClick lv s) \<noteq> []"
  by (auto simp: bossConsistent_def activeBricks_def handleKeyDown_def handleKeyUp_def
      handleClick_def Let_def split: list.splits)

lemma step_ready:
  assumes inv: "bossConsistent lv s" "sched \<longrightarrow> balls s \<noteq> []"
    and st: "step lv i (s, sched) = ((s', sched'), evs)"
  shows "bossConsistent lv s' \<and> (sched' \<longrightarrow> balls s' \<noteq> [])"
proof (cases i)
  case (Frame e)
  show ?thesis
  proof (cases sched)
    case False
    with st Frame inv show ?thesis by simp
  next
    case True
    then have nb: "balls s \<noteq> []" using inv(2) by simp
    obtain t out oc where gl: "gameLoop lv e s = (t, out, oc)"
      by (cases "gameLoop lv e s") auto
    from st Frame True gl have r: "s' = t" "sched' = (oc = Rescheduled)" by simp_all
    have bc: "bossConsistent lv t" by (rule bossConsistent_gameLoop [OF inv(1) gl])
    have "oc = Rescheduled \<longrightarrow> balls t \<noteq> []"
    proof (cases "isRunning s \<and> \<not> isPaused s")
      case False
      then have "t = s" using gl by (auto simp: gameLoop_def)
      with nb show ?thesis by simp
    next
      case True
      then have run: "isRunning s" "\<not> isPaused s" by simp_all
      from gameLoop_summary [OF run gl] nb show ?thesis by blast
    qed
    with bc r show ?thesis by simp
  qed
next
  case (KeyDown k)
  with st inv show ?thesis by (auto simp: handlers_ready)
next
  case (KeyUp k)
  with st inv show ?thesis by (auto simp: handlers_ready)
next
  case Click
  with st inv show ?thesis by (auto simp: handlers_ready)
next
  case (PointerMove x)
  with st inv show ?thesis by (auto simp: bossConsistent_def activeBricks_def)
next
  case PauseToggle
  with st inv show ?thesis by (auto simp: bossConsistent_def activeBricks_def)
qed

lemma run_ready:
  assumes "bossConsistent lv s" "sched \<longrightarrow> balls s \<noteq> []"
    and "run lv ins (s, sched) = ((s', sched'), evs)"
  shows "bossConsistent lv s' \<and> (sched' \<longrightarrow> balls s' \<noteq> [])"
  using assms
proof (induction ins arbitrary: s sched s' sched' evs)
  case Nil
  then show ?case by simp
next
  case (Cons i ins)
  obtain s1 sched1 evs1 where st: "step lv i (s, sched) = ((s1, sched1), evs1)"
    by (cases "step lv i (s, sched)") auto
  obtain s2 sched2 evs2 where rn: "run lv ins (s1, sched1) = ((s2, sched2), evs2)"
    by (cases "run lv ins (s1, sched1)") auto
  from Cons.prems(3) st rn have r: "s' = s2" "sched' = sched2" by simp_all
  from step_ready [OF Cons.prems(1,2) st]
  have "bossConsistent lv s1" "sched1 \<longrightarrow> balls s1 \<noteq> []" by simp_all
  from Cons.IH [OF this rn] r show ?case by simp
qed

lemma level_start_ready:
  assumes "run lv ins (initState lv, True) = ((s, sched), evs)"
  shows "bossConsistent lv s \<and> (sched \<longrightarrow> balls s \<noteq> [])"
proof -
  have "bossConsistent lv (initState lv)" "True \<longrightarrow> balls (initState lv) \<noteq> []"
    by (simp_all add: bossConsistent_def initState_def)
  from run_ready [OF this assms] show ?thesis .
qed

subsection \<open>The win is reported in the frame after the last brick\<close>

text \<open>
  The win condition at work: at the start of this frame of level 1 no brick is live, no boss
  is active and the ball is in play; the frame calls \<open>onGameOver(240, true)\<close> and stops the
  loop.
\<close>

theorem win_condition_witness:
  "bossConsistent level1 allCleared \<and> isRunning allCleared \<and> \<not> isPaused allCleared \<and>
   balls allCleared \<noteq> [] \<and>
   gameLoop level1 env0 allCleared = (wonState, [OnGameOver 240 True], Stopped) \<and>
   winReported [OnGameOver 240 True] \<and> activeBricks allCleared = 0 \<and>
   level_id level1 mod 5 \<noteq> 0 \<and> \<not> endedByBallLoss [OnGameOver 240 True] Stopped"
  using win_condition [where lv = level1 and s = allCleared and e = env0 and s' = wonState
      and out = "[OnGameOver 240 True]" and oc = Stopped]
    allCleared_facts win_frame
  by (simp add: level1_def winReported_def endedByBallLoss_def)

text \<open>
  Claim C2 read with the count of live bricks as it stands when the win check is made does
  not hold. The frame below destroys the last brick of level 1: at the win check, and in
  the state the frame leaves, no brick is live and the level has no boss, yet
  \<open>onGameOver\<close> is not called and the next frame is requested. \<open>gameLoop\<close> tests the count
  it took before the brick collisions of the frame, so the win is reported by the frame
  after (the state \<open>allCleared\<close> of the example above is the one this frame leaves).
\<close>

theorem win_one_frame_late_counterexample:
  "isRunning lastBrick \<and> \<not> isPaused lastBrick \<and> activeBricks lastBrick = 1 \<and>
   (case gameLoop level1 env0 lastBrick of (s', out, oc) \<Rightarrow>
      activeBricks s' = 0 \<and> level_id level1 mod 5 \<noteq> 0 \<and> \<not> winReported out \<and>
      isRunning s' \<and> oc = Rescheduled)"
  unfolding last_hit_frame
  using allCleared_facts lastBrick_bricks(3)
  by (simp add: winReported_def level1_def lastBrick_def lateGame_def initState_def)

subsection \<open>The mini-boss spawns with the first brick destroyed after the threshold\<close>

text \<open>
  The spawn at work: seventeen of 24 bricks are destroyed before the frame and no mini-boss
  has spawned; the frame destroys a brick and calls \<open>spawnSmallBoss\<close> once. From the state
  it leaves, two further frames do not spawn again.
\<close>

theorem mini_boss_spawns_once_witness:
  "\<not> smallBossSpawned nearlyCleared \<and> spawnsNow nearlyCleared afterSpawn \<and>
   gameLoop level1 env0 nearlyCleared = (afterSpawn, [SpawnSmallBoss], Rescheduled) \<and>
   smallBossSpawned afterSpawn \<and>
   (case run level1 [Frame env0, Frame env0] (afterSpawn, True) of ((s', sched'), evs) \<Rightarrow>
      count_list evs SpawnSmallBoss = 0)"
proof -
  have a: "\<not> smallBossSpawned nearlyCleared"
    by (simp add: smallBossSpawned_def nearlyCleared_def partlyCleared_def initState_def)
  have b: "spawnsNow nearlyCleared afterSpawn"
    using a nearlyCleared_bricks afterSpawn_bricks
    by (simp add: spawnsNow_def thresholdReached_def)
  have c: "smallBossSpawned afterSpawn"
    by (simp add: smallBossSpawned_def afterSpawn_def spawnedSmallBoss_def)
  show ?thesis
    using mini_boss_spawns_once [where lv = level1 and e = env0 and s = afterSpawn
        and ins = "[Frame env0, Frame env0]" and sched = True]
    by (simp add: a b c spawn_frame split_beta del: run.simps)
qed

text \<open>
  Claim C6 does not hold as stated. Before the frame below sixteen of 24 bricks are
  destroyed (ratio 0.667); the frame destroys the seventeenth (ratio 0.708), so this is the
  first frame at which the ratio is at least 0.7, yet \<open>spawnSmallBoss\<close> is not called:
  the check uses the count of live bricks taken before the collisions of the frame, and
  it is made only when a brick is destroyed. The mini-boss spawns with the next brick
  destroyed in a later frame, if there is one.
\<close>

theorem threshold_crossed_without_spawn_counterexample:
  "\<not> thresholdReached partlyCleared (activeBricks partlyCleared) \<and>
   (case gameLoop level1 env0 partlyCleared of (s', out, oc) \<Rightarrow>
      thresholdReached s' (activeBricks s') \<and> count_list out SpawnSmallBoss = 0 \<and>
      smallBoss s' = None \<and> oc = Rescheduled)"
proof -
  have "\<not> random env0 0 < 1 / 4" by (simp add: env0_def)
  from side_hit_frame_no_drop [OF this] show ?thesis
    using partlyCleared_bricks(2,3)
    by (simp add: thresholdReached_def afterSideHit_bricks)
qed

subsection \<open>Frames depend on the random draws\<close>

lemma initBricks_above:
  assumes "k \<in> set (initBricks level1)"
  shows "brick_y k + brick_height k \<le> 260"
proof -
  from assms obtain row col where "row < 4" "k = initBrick level1 row col"
    by (auto simp: initBricks_def level1_def)
  then have "brick_y k + brick_height k = real row * 55 + 95" "real row \<le> 3"
    by (simp_all add: initBrick_def Let_def)
  then show ?thesis by simp
qed

lemma far_below_bricks:
  assumes "bricks s = initBricks level1" "ball_y b - ball_radius b \<ge> 260"
  shows "collidingBricks s b = []"
proof -
  have "\<not> overlapsBrick b (bricks s ! i)" if "i < length (bricks s)" for i
  proof -
    have "bricks s ! i \<in> set (initBricks level1)"
      using that assms(1) by (metis nth_mem)
    from initBricks_above [OF this] assms(2) show ?thesis
      by (simp add: overlapsBrick_def)
  qed
  then show ?thesis by (simp add: collidingBricks_def filter_empty_conv)
qed

lemma launch_click: "handleClick level1 (initState level1) = launched"
  by (simp add: handleClick_def launched_def launchBall_def initState_def level1_def
      canvas_width_def canvas_height_def)

text \<open>
  A frame of level 1 right after the launch: the ball is far below the bricks, nothing
  else is in play; the ball moves, the paddle follows the pointer and the frame counter
  is increased, whatever the draws and the clock.
\<close>

lemma flight_frame:
  fixes y0 :: real
  assumes s: "s = launched\<lparr>mouseX := mx, paddle := (paddle launched)\<lparr>paddle_x := px\<rparr>,
      balls := [\<lparr>ball_x = 400, ball_y = y0, ball_dx = 0, ball_dy = - 6.05, ball_radius = 15\<rparr>],
      timeElapsed := t\<rparr>"
    and y0: "1100 \<le> y0" "y0 \<le> 1200"
    and mx: "mx = 0 \<and> px' = px \<or> mx = 100 \<and> px' = 16" and t: "t = 0 \<or> t = 1"
  shows "gameLoop level1 e s =
     (s\<lparr>paddle := (paddle launched)\<lparr>paddle_x := px'\<rparr>,
        balls := [\<lparr>ball_x = 400, ball_y = y0 - 6.05, ball_dx = 0, ball_dy = - 6.05,
                   ball_radius = 15\<rparr>],
        timeElapsed := t + 1\<rparr>, [], Rescheduled)"
proof -
  define bm where
    "bm = \<lparr>ball_x = 400, ball_y = y0 - 6.05, ball_dx = 0, ball_dy = - 6.05, ball_radius = 15\<rparr>"
  define S0 where "S0 = s\<lparr>paddle := (paddle launched)\<lparr>paddle_x := px'\<rparr>\<rparr>"
  define S1 where "S1 = S0\<lparr>balls := [bm]\<rparr>"
  define S2 where "S2 = S1\<lparr>timeElapsed := t + 1\<rparr>"
  note st = s launched_def initState_def
  have run: "isRunning s" "\<not> isPaused s"
    by (simp_all add: st)
  have p1: "movePaddle s = S0"
    using mx by (auto simp: movePaddle_def S0_def st canvas_width_def Let_def)
  have p2: "holdBalls S0 = Some S0"
    by (simp add: holdBalls_def S0_def st)
  have p4: "smallBossMovementPhase (bossMovementPhase (moveBalls S0)) = S1"
    by (simp add: moveBalls_def moveBall_def bossMovementPhase_def smallBossMovementPhase_def
        S1_def S0_def bm_def st)
  have p5: "brickMovementPhase level1 e S1 = (S1, [])"
    by (simp add: brickMovementPhase_def level1_def)
  have p6: "updateFireballs S1 pX pW = (S1, [])" for pX pW
    by (simp add: updateFireballs_def S1_def S0_def st)
  have p7: "smallBossFirePhase e S1 = (S1, 0)"
    by (simp add: smallBossFirePhase_def S1_def S0_def st)
  have p8: "ballCollisions S1 pX pW = S1" for pX pW
    using y0
    by (simp add: ballCollisions_def wallCollision_def paddleCollision_def shieldCollision_def
        touchesShield_def canvas_height_def canvas_width_def S1_def S0_def bm_def st Let_def)
  have p9: "ballLossPhase S1 = (S1, None)"
    using y0
    by (simp add: ballLossPhase_def ballIsLost_def canvas_height_def S1_def S0_def bm_def st
        Let_def)
  have f1: "bricks S1 = initBricks level1" "boss S1 = None" "smallBoss S1 = None"
    "balls S1 = [bm]" "powerups S1 = []" "bossDestructionTimer S1 = 0"
    by (simp_all add: S1_def S0_def st)
  have col: "collidingBricks S1 bm = []"
    using y0 by (intro far_below_bricks f1(1)) (simp add: bm_def)
  have "initBrick level1 0 0 \<in> set (bricks S1)"
    unfolding f1(1) by (subst initBricks_first) simp
  moreover have "hits (initBrick level1 0 0) > 0"
    by (simp add: firstBrick)
  ultimately have "filter (\<lambda>k. hits k > 0) (bricks S1) \<noteq> []"
    unfolding filter_empty_conv by blast
  then have ab: "activeBricks S1 \<noteq> 0"
    by (simp add: activeBricks_def)
  have id1: "S1\<lparr>balls := [bm]\<rparr> = S1" by (simp add: S1_def)
  have q2: "brickPhase e ab 0 S1 = (S1, [], 0)" for ab
    by (simp add: brickPhase_def ballBrickStep_def bossCollision_def smallBossCollision_def
        f1 col id1 Let_def)
  have q3: "updateTimeSpeed (updateTimers S1) = S2"
    using t
    by (auto simp: updateTimers_def tempDamageTick_def debuffDamageTick_def paddleSizeTick_def
        ballSpeedTick_def shieldTick_def doublePointsTick_def updateTimeSpeed_def
        S2_def S1_def S0_def st Let_def)
  have f2: "powerups S2 = []" "boss S2 = None" "bossDestructionTimer S2 = 0"
    by (simp_all add: S2_def f1)
  have q4: "powerupPhase level1 pX pW S2 = (S2, False)" for pX pW
    using f2(1) by (simp add: powerupPhase_def)
  have q5: "winCheck level1 (activeBricks S1) S2 = (S2, None)"
    using ab by (simp add: winCheck_def)
  have q6: "bossDefeatCheck S2 = S2" "destructionCountdown S2 = (S2, None)"
    using f2 by (simp_all add: bossDefeatCheck_def destructionCountdown_def)
  have ft: "frameTail level1 e pX pW 0 [] S1 = (S2, [], Rescheduled)" for pX pW
    by (simp add: frameTail_def q2 q3 q4 q5 q6 Let_def)
  have "gameLoop level1 e s = (S2, [], Rescheduled)"
    by (simp add: gameLoop_def frameHead_def run p1 p2 p4 p5 p6 p7 p8 p9 ft Let_def)
  then show ?thesis by (simp add: S2_def S1_def S0_def bm_def)
qed

lemma flight_run:
  "run level1 [Click, Frame env0, PointerMove 100, Frame env0] (initState level1, True) =
     ((inFlight, True), [])"
proof -
  define L1 where "L1 = launched\<lparr>
      balls := [\<lparr>ball_x = 400, ball_y = 1133.95, ball_dx = 0, ball_dy = - 6.05, ball_radius = 15\<rparr>],
      timeElapsed := 1\<rparr>"
  have g1: "gameLoop level1 env0 launched = (L1, [], Rescheduled)"
    using flight_frame [where s = launched and mx = 0 and px = 321 and px' = 321 and ?y0.0 = 1140
        and t = 0 and e = env0]
    by (simp add: L1_def launched_def initState_def canvas_width_def canvas_height_def)
  have g2: "gameLoop level1 env0 (L1\<lparr>mouseX := 100\<rparr>) = (inFlight, [], Rescheduled)"
    using flight_frame [where s = "L1\<lparr>mouseX := 100\<rparr>" and mx = 100 and px = 321 and px' = 16
        and ?y0.0 = "1133.95" and t = 1 and e = env0]
    by (simp add: L1_def inFlight_def launched_def initState_def canvas_width_def canvas_height_def)
  show ?thesis by (simp add: launch_click g1 g2)
qed



end
